theory Spec2Isabelle
  imports Main "HOL-Library.Word" "HOL-Library.Monad_Syntax"
begin

unbundle bit_operations_syntax

section \<open>Machine types of lwiperf.c\<close>

text \<open>
  The engine is \<^verbatim>\<open>src/lwip/src/apps/lwiperf/lwiperf.c\<close>. Its integers are lwIP's
  fixed-width types. The target is a 32-bit little-endian microcontroller, so the C type
  \<^verbatim>\<open>long\<close> (\<^verbatim>\<open>tv_sec\<close>, \<^verbatim>\<open>tv_nsec\<close>, \<^verbatim>\<open>jitter\<close>, \<^verbatim>\<open>deltaTransit\<close>) is a 32-bit word read
  as two's complement. Pointers are addresses, with \<^verbatim>\<open>NULL\<close> the address 0.
\<close>

type_synonym u8 = "8 word"
type_synonym u16 = "16 word"
type_synonym u32 = "32 word"
type_synonym u64 = "64 word"
type_synonym s32 = "32 word"
type_synonym long = "32 word"
type_synonym ptr = nat

abbreviation (input) NULL :: ptr where
  "NULL \<equiv> 0"

text \<open>
  Modelled from the spec: the wire format is in network byte order, and the byte-order
  helpers \<^verbatim>\<open>lwip_htonl\<close>, \<^verbatim>\<open>lwip_ntohl\<close>, \<^verbatim>\<open>htonl\<close>, \<^verbatim>\<open>ntohl\<close> and \<^verbatim>\<open>PP_HTONL\<close> come from
  lwIP's \<^verbatim>\<open>def.h\<close>, which is not among the sources. On the little-endian target all five
  are the same swap of the four bytes of a 32-bit word.
\<close>

definition lwip_htonl :: "u32 \<Rightarrow> u32" where
  "lwip_htonl x =
     push_bit 24 (x AND 0xff) OR push_bit 8 (x AND 0xff00) OR
     drop_bit 8 (x AND 0xff0000) OR drop_bit 24 (x AND 0xff000000)"

definition lwip_ntohl :: "u32 \<Rightarrow> u32" where
  "lwip_ntohl x = lwip_htonl x"

definition LWIPERF_FLAGS_ANSWER_TEST :: u32 where
  "LWIPERF_FLAGS_ANSWER_TEST = 0x80000000"

definition LWIPERF_FLAGS_EXTEND :: u32 where
  "LWIPERF_FLAGS_EXTEND = 0x40000000"

definition LWIPERF_FLAGS_UDPTESTS :: u32 where
  "LWIPERF_FLAGS_UDPTESTS = 0x20000000"

definition LWIPERF_FLAGS_SEQNO64B :: u32 where
  "LWIPERF_FLAGS_SEQNO64B = 0x08000000"

definition LWIPERF_FLAGS_VERSION2 :: u32 where
  "LWIPERF_FLAGS_VERSION2 = 0x04000000"

definition LWIPERF_FLAGS_ANSWER_NOW :: u32 where
  "LWIPERF_FLAGS_ANSWER_NOW = 0x00000001"

definition LWIPERF_EFLAGS_UNITS_PPS :: u32 where
  "LWIPERF_EFLAGS_UNITS_PPS = 0x00000001"

definition LWIPERF_EFLAGS_REVERSE :: u32 where
  "LWIPERF_EFLAGS_REVERSE = 0x04000000"

definition BLOCK_SIZE :: u32 where
  "BLOCK_SIZE = 1024 * 128"

text \<open>\<^verbatim>\<open>CLOCK_RESOLUTION_US\<close> in the build without \<^verbatim>\<open>SDK_OS_FREE_RTOS\<close>.\<close>

definition CLOCK_RESOLUTION_US :: u32 where
  "CLOCK_RESOLUTION_US = 1000"

definition LWIPERF_MAX_IDLE_SEC :: u8 where
  "LWIPERF_MAX_IDLE_SEC = 10"

section \<open>Data model\<close>

record timespec =
  tv_sec :: long
  tv_nsec :: long

text \<open>The header of every UDP datagram (\<^verbatim>\<open>struct UDP_datagram\<close>), as on the wire.\<close>

record UDP_datagram =
  dgram_id :: s32
  tv_sec :: u32
  tv_usec :: u32
  dgram_id2 :: s32

text \<open>The report a UDP server sends to the client (\<^verbatim>\<open>lwiperf_udp_report_t\<close>), as on the wire.\<close>

record lwiperf_udp_report =
  flags :: s32
  total_len1 :: s32
  total_len2 :: s32
  stop_sec :: s32
  stop_usec :: s32
  error_cnt :: s32
  outorder_cnt :: s32
  datagrams :: s32
  jitter1 :: s32
  jitter2 :: s32

text \<open>\<^verbatim>\<open>lwiperf_settings_t\<close> and \<^verbatim>\<open>lwiperf_settings_ext_t\<close>; every field holds its wire value.\<close>

record lwiperf_settings =
  flags :: u32
  num_threads :: u32
  remote_port :: u32
  buffer_len :: u32
  win_band :: u32
  amount :: u32

record lwiperf_settings_ext =
  base :: lwiperf_settings
  type :: s32
  len :: s32
  eflags :: s32
  version_u :: s32
  version_l :: s32
  reserved :: s32
  rate :: s32
  UDP_rate_units :: s32
  real_time :: s32

text \<open>\<^verbatim>\<open>sizeof(lwiperf_settings_t)\<close>, \<^verbatim>\<open>sizeof(lwiperf_settings_ext_t)\<close> and
  \<^verbatim>\<open>sizeof(struct UDP_datagram)\<close>: 6, 15 and 4 words of 4 bytes.\<close>

definition sizeof_settings :: nat where
  "sizeof_settings = 24"

definition sizeof_settings_ext :: nat where
  "sizeof_settings_ext = 60"

definition sizeof_UDP_datagram :: nat where
  "sizeof_UDP_datagram = 16"

datatype ip_addr = IPv4 u32 | IPv6 "128 word"

fun IP_IS_V6 :: "ip_addr \<Rightarrow> bool" where
  "IP_IS_V6 (IPv4 a) = False"
| "IP_IS_V6 (IPv6 a) = True"

text \<open>
  A session. \<^verbatim>\<open>lwiperf_state_tcp_t\<close> and \<^verbatim>\<open>lwiperf_state_udp_t\<close> both start with the
  member \<^verbatim>\<open>base\<close> (\<^verbatim>\<open>lwiperf_state_base_t\<close>), and the code goes from one view to the other by
  a pointer cast after testing \<^verbatim>\<open>base.tcp\<close>. The record holds the fields of \<^verbatim>\<open>base\<close> first
  (\<^verbatim>\<open>nxt\<close> is the C field \<^verbatim>\<open>next\<close>), then the fields of the UDP struct, then the fields only
  the TCP struct has; a field both structs have under one name and with one role
  (\<^verbatim>\<open>time_started\<close>, \<^verbatim>\<open>bytes_transferred\<close>, \<^verbatim>\<open>report_fn\<close>, \<^verbatim>\<open>report_arg\<close>, \<^verbatim>\<open>settings\<close>,
  \<^verbatim>\<open>have_settings_buf\<close>, \<^verbatim>\<open>remote_addr\<close>) is there once. Handles of the transport stack
  (\<^verbatim>\<open>pcb\<close>, \<^verbatim>\<open>conn_pcb\<close>, \<^verbatim>\<open>server_pcb\<close>), the held report buffer \<^verbatim>\<open>reported\<close> and the
  callback \<^verbatim>\<open>report_fn\<close> are addresses of objects the engine does not own.
\<close>

record lwiperf_state =
  nxt :: ptr
  tcp :: u8
  server :: u8
  reverse :: u8
  related_master_state :: ptr
  deallocated_master_state_address :: ptr
  pcb :: ptr
  reported :: ptr
  remote_addr :: ip_addr
  remote_port :: u16
  report_count :: u8
  have_settings_buf :: u8
  settings :: lwiperf_settings_ext
  delay_target :: u32
  frames_per_delay :: u32
  time_started :: u32
  bytes_transferred :: u64
  report_fn :: ptr
  report_arg :: ptr
  udp_lastpkt :: timespec
  udp_seq :: u32
  udp_rx_lost :: u32
  udp_rx_outorder :: u32
  udp_rx_total_pkt :: u32
  udp_rx_total_size :: u32
  udp_last_transit :: u32
  jitter :: long
  server_pcb :: ptr
  conn_pcb :: ptr
  poll_count :: u8
  client_tradeoff_mode :: u8
  specific_remote :: u8

text \<open>The termination reasons of \<^verbatim>\<open>enum lwiperf_report_type\<close> that lwiperf.c passes.\<close>

datatype lwiperf_report_type =
    LWIPERF_TCP_DONE_SERVER_RX
  | LWIPERF_TCP_DONE_SERVER_TX
  | LWIPERF_TCP_DONE_CLIENT_RX
  | LWIPERF_TCP_DONE_CLIENT_TX
  | LWIPERF_TCP_ABORTED_LOCAL
  | LWIPERF_TCP_ABORTED_LOCAL_DATAERROR
  | LWIPERF_TCP_ABORTED_LOCAL_TXERROR
  | LWIPERF_TCP_ABORTED_REMOTE
  | LWIPERF_UDP_DONE_SERVER_RX
  | LWIPERF_UDP_DONE_SERVER_TX
  | LWIPERF_UDP_DONE_CLIENT_RX
  | LWIPERF_UDP_DONE_CLIENT_TX
  | LWIPERF_UDP_ABORTED_LOCAL
  | LWIPERF_UDP_ABORTED_LOCAL_DATAERROR
  | LWIPERF_UDP_ABORTED_LOCAL_TXERROR
  | LWIPERF_UDP_ABORTED_REMOTE

text \<open>What \<^verbatim>\<open>memset(conn, 0, sizeof(...))\<close> leaves in a freshly allocated session.\<close>

definition settings_zero :: lwiperf_settings_ext where
  "settings_zero =
     \<lparr>base = \<lparr>flags = 0, num_threads = 0, remote_port = 0, buffer_len = 0, win_band = 0,
              amount = 0\<rparr>,
      type = 0, len = 0, eflags = 0, version_u = 0, version_l = 0, reserved = 0, rate = 0,
      UDP_rate_units = 0, real_time = 0\<rparr>"

definition lwiperf_state_zero :: lwiperf_state where
  "lwiperf_state_zero =
     \<lparr>nxt = NULL, tcp = 0, server = 0, reverse = 0, related_master_state = NULL,
      deallocated_master_state_address = NULL, pcb = NULL, reported = NULL,
      remote_addr = IPv4 0, remote_port = 0, report_count = 0, have_settings_buf = 0,
      settings = settings_zero, delay_target = 0, frames_per_delay = 0, time_started = 0,
      bytes_transferred = 0, report_fn = NULL, report_arg = NULL,
      udp_lastpkt = \<lparr>timespec.tv_sec = 0, tv_nsec = 0\<rparr>, udp_seq = 0, udp_rx_lost = 0,
      udp_rx_outorder = 0, udp_rx_total_pkt = 0, udp_rx_total_size = 0, udp_last_transit = 0,
      jitter = 0, server_pcb = NULL, conn_pcb = NULL, poll_count = 0,
      client_tradeoff_mode = 0, specific_remote = 0\<rparr>"

section \<open>Clock helpers\<close>

text \<open>The division of two signed \<^verbatim>\<open>long\<close> values in C: the quotient is truncated towards zero.\<close>

definition long_div :: "long \<Rightarrow> long \<Rightarrow> long" where
  "long_div a b = word_of_int (sgn (sint a) * sgn (sint b) * (\<bar>sint a\<bar> div \<bar>sint b\<bar>))"

text \<open>\<^verbatim>\<open>clock_gettime\<close>: the millisecond tick of \<^verbatim>\<open>sys_now()\<close> as seconds and nanoseconds.\<close>

definition clock_gettime :: "u32 \<Rightarrow> timespec" where
  "clock_gettime now = \<lparr>timespec.tv_sec = now div 1000, tv_nsec = (now mod 1000) * 1000000\<rparr>"

definition diff_ts :: "timespec \<Rightarrow> timespec \<Rightarrow> timespec" where
  "diff_ts start stop =
     (if (timespec.tv_nsec stop - timespec.tv_nsec start) <s 0
      then \<lparr>timespec.tv_sec = timespec.tv_sec stop - timespec.tv_sec start - 1,
            tv_nsec = timespec.tv_nsec stop - timespec.tv_nsec start + 1000000000\<rparr>
      else \<lparr>timespec.tv_sec = timespec.tv_sec stop - timespec.tv_sec start,
            tv_nsec = timespec.tv_nsec stop - timespec.tv_nsec start\<rparr>)"

section \<open>Errors and faults\<close>

text \<open>The error codes of lwIP (\<^verbatim>\<open>err_enum_t\<close>); the engine tests for \<^verbatim>\<open>ERR_OK\<close> and \<^verbatim>\<open>ERR_MEM\<close>.\<close>

datatype err_t =
    ERR_OK | ERR_MEM | ERR_BUF | ERR_TIMEOUT | ERR_RTE | ERR_INPROGRESS | ERR_VAL
  | ERR_WOULDBLOCK | ERR_USE | ERR_ALREADY | ERR_ISCONN | ERR_CONN | ERR_IF | ERR_ABRT
  | ERR_RST | ERR_CLSD | ERR_ARG

text \<open>
  A division by zero ends the run of the program: the model names it as a fault. So does
  a failed \<^verbatim>\<open>LWIP_ASSERT\<close>.
\<close>

datatype fault = DivisionByZero | AssertionFailed

section \<open>Receiving a UDP datagram\<close>

text \<open>
  A received datagram, as \<^verbatim>\<open>lwiperf_udp_recv\<close> reads it: the header at \<^verbatim>\<open>p->payload\<close>, the
  words behind the header read as a report (\<^verbatim>\<open>(lwiperf_udp_report_t *)(pkt + 1)\<close>), and
  \<^verbatim>\<open>p->tot_len\<close>.
\<close>

record udp_pbuf =
  pkt :: UDP_datagram
  hdr :: lwiperf_udp_report
  tot_len :: u16

text \<open>
  Lines 1467-1491 of \<^verbatim>\<open>lwiperf_udp_recv\<close>: a client session (\<^verbatim>\<open>!conn->base.server\<close>) has
  received the server's report. The first report that carries the answer flag overwrites
  \<^verbatim>\<open>bytes_transferred\<close> with the total the server counted.
\<close>

definition udp_recv_server_report :: "udp_pbuf \<Rightarrow> lwiperf_state \<Rightarrow> lwiperf_state" where
  "udp_recv_server_report p conn =
     (let conn1 =
            (if report_count conn = 0
                \<and> lwiperf_udp_report.flags (hdr p) AND lwip_htonl LWIPERF_FLAGS_ANSWER_TEST \<noteq> 0
             then conn\<lparr>bytes_transferred :=
                         push_bit 32 (ucast (lwip_ntohl (total_len1 (hdr p))) :: u64)
                         + ucast (lwip_ntohl (total_len2 (hdr p)))\<rparr>
             else conn)
      in if lwiperf_udp_report.flags (hdr p) AND lwip_htonl LWIPERF_FLAGS_ANSWER_TEST \<noteq> 0
         then conn1\<lparr>report_count := report_count conn1 + 1\<rparr>
         else conn1)"

text \<open>
  Lines 1572-1585, "Update stats": the timestamp of the datagram is saved, and the
  sequence number \<^verbatim>\<open>datagramID\<close> is compared with the expected one, \<^verbatim>\<open>udp_seq\<close>.
\<close>

definition udp_recv_update_stats :: "s32 \<Rightarrow> udp_pbuf \<Rightarrow> lwiperf_state \<Rightarrow> lwiperf_state" where
  "udp_recv_update_stats datagramID p conn =
     (let conn1 = conn\<lparr>udp_lastpkt :=
                        \<lparr>timespec.tv_sec = lwip_ntohl (UDP_datagram.tv_sec (pkt p)),
                         tv_nsec = lwip_ntohl (tv_usec (pkt p)) * 1000\<rparr>\<rparr>
      in if udp_seq conn1 \<noteq> datagramID
         then conn1\<lparr>udp_rx_lost := udp_rx_lost conn1 + (datagramID - udp_seq conn1),
                    udp_seq := datagramID + 1,
                    udp_rx_outorder := udp_rx_outorder conn1 + 1,
                    bytes_transferred := bytes_transferred conn1 + ucast (tot_len p),
                    udp_rx_total_pkt := udp_rx_total_pkt conn1 + 1\<rparr>
         else conn1\<lparr>bytes_transferred := bytes_transferred conn1 + ucast (tot_len p),
                    udp_rx_total_pkt := udp_rx_total_pkt conn1 + 1,
                    udp_seq := udp_seq conn1 + 1\<rparr>)"

text \<open>
  Lines 1586-1601, "Jitter calculation". \<^verbatim>\<open>ts\<close> is the arrival time that line 1496 read
  with \<^verbatim>\<open>clock_gettime\<close>, and \<^verbatim>\<open>udp_transit\<close> is the value of the local \<^verbatim>\<open>transit\<close> (lines
  1590-1591): the time from the send timestamp of the datagram to its arrival, in
  microseconds. The shift of the signed \<^verbatim>\<open>long\<close> is arithmetic.
\<close>

definition udp_transit :: "timespec \<Rightarrow> timespec \<Rightarrow> u32" where
  "udp_transit lastpkt ts =
     (let dt = diff_ts lastpkt ts
      in (timespec.tv_sec dt * 1000000) + long_div (timespec.tv_nsec dt) 1000)"

definition udp_recv_update_jitter :: "timespec \<Rightarrow> lwiperf_state \<Rightarrow> lwiperf_state" where
  "udp_recv_update_jitter ts conn =
     (let transit = udp_transit (udp_lastpkt conn) ts
      in if udp_last_transit conn \<noteq> 0
         then (let deltaTransit0 = transit - udp_last_transit conn;
                   deltaTransit = (if deltaTransit0 <s 0 then - deltaTransit0 else deltaTransit0)
               in conn\<lparr>jitter := jitter conn + signed_drop_bit 4 (deltaTransit - jitter conn)\<rparr>)
         else conn\<lparr>udp_last_transit := transit\<rparr>)"

text \<open>
  \<^verbatim>\<open>lwiperf_udp_new_client\<close>, where the allocation succeeds: the session created for a new
  peer of the server \<^verbatim>\<open>s\<close>, which is at the address \<^verbatim>\<open>s_addr\<close>. Everything but the fields
  written here is zero, the settings flag and the counters of the sequence tracking
  included. (The function also puts the session on the list of active sessions.)
\<close>

definition lwiperf_udp_new_client :: "u32 \<Rightarrow> ptr \<Rightarrow> lwiperf_state \<Rightarrow> lwiperf_state" where
  "lwiperf_udp_new_client now s_addr s =
     lwiperf_state_zero\<lparr>tcp := 0, server := 1, related_master_state := s_addr, pcb := NULL,
       time_started := now, report_fn := report_fn s, report_arg := report_arg s\<rparr>"

text \<open>
  What the surroundings give to the handshake of a session without settings (lines
  1497-1571): the field \<^verbatim>\<open>server->base.server\<close> of the session the callback was registered
  for, the address and port of the sender, the tick of \<^verbatim>\<open>sys_now()\<close> at line 1540, the
  settings record that the datagram holds behind its header, the number of bytes each of
  the two calls of \<^verbatim>\<open>pbuf_copy_partial\<close> copies, and how the calls of
  \<^verbatim>\<open>lwiperf_udp_tx_reverse_start\<close> and \<^verbatim>\<open>lwiperf_udp_tx_start\<close> end: with a fault, or with the
  error code they return. The settings are a second reading of the bytes that \<^verbatim>\<open>hdr\<close>
  reads as a report; a client session reads the report and never the settings, a
  server-side session the settings and never the report.
\<close>

record udp_recv_env =
  recv_arg_server :: u8
  recv_addr :: ip_addr
  recv_port :: u16
  recv_sys_now :: u32
  recv_udp_settings :: lwiperf_settings_ext
  recv_copied_settings :: u16
  recv_copied_ext :: u16
  recv_tx_reverse_start :: "fault + err_t"
  recv_tx_start :: "fault + err_t"

text \<open>
  How one run of \<^verbatim>\<open>lwiperf_udp_recv\<close> ends. \<^verbatim>\<open>ReportSeen\<close> and \<^verbatim>\<open>Data\<close> carry the session as the
  run leaves it. The other outcomes name what the run does and do not follow it:
  \<^verbatim>\<open>CloseSession t\<close> is the call \<^verbatim>\<open>lwiperf_udp_close(conn, t)\<close>, \<^verbatim>\<open>ReverseStarted\<close> a handshake
  that has turned the session into a sender with \<^verbatim>\<open>lwiperf_udp_tx_reverse_start\<close>,
  \<^verbatim>\<open>Faulted\<close> a fault in a call of the handshake, \<^verbatim>\<open>SendReport\<close> the report a server sends
  back at the end of the stream (lines 1608-1645).
\<close>

datatype udp_recv_outcome =
    Ignored
  | ReportSeen lwiperf_state
  | Data lwiperf_state
  | CloseSession lwiperf_report_type
  | ReverseStarted
  | Faulted fault
  | SendReport
  | Dropped

text \<open>
  Lines 1497-1571, for a session \<^verbatim>\<open>conn\<close> without settings that the lookup has found or
  that \<^verbatim>\<open>lwiperf_udp_new_client\<close> has just created. The datagram has to hold a settings
  record behind its header, and an extended one when the record says so; the session
  takes the settings, the address of its peer and a new start time. A request for a
  reverse test ends the run; a request for a simultaneous return test starts the sender
  of the return direction, which is another session. \<^verbatim>\<open>Inr\<close> is the session with which the
  run goes on to "Update stats" (line 1572), \<^verbatim>\<open>Inl\<close> the way the run ends here.
\<close>

definition udp_recv_handshake ::
  "udp_recv_env \<Rightarrow> udp_pbuf \<Rightarrow> lwiperf_state \<Rightarrow> udp_recv_outcome + lwiperf_state" where
  "udp_recv_handshake env p conn =
     (if unat (tot_len p) < sizeof_UDP_datagram + sizeof_settings
      then Inl (CloseSession LWIPERF_UDP_ABORTED_LOCAL_DATAERROR)
      else if unat (recv_copied_settings env) \<noteq> sizeof_settings
      then Inl (CloseSession LWIPERF_UDP_ABORTED_LOCAL)
      else
        (let conn = conn\<lparr>settings := (settings conn)\<lparr>base := base (recv_udp_settings env)\<rparr>\<rparr>;
             extended = (flags (base (settings conn)) AND lwip_htonl LWIPERF_FLAGS_EXTEND \<noteq> 0)
         in if extended \<and> unat (tot_len p) < sizeof_UDP_datagram + sizeof_settings_ext
            then Inl (CloseSession LWIPERF_UDP_ABORTED_LOCAL_DATAERROR)
            else if extended
                    \<and> unat (recv_copied_ext env) \<noteq> sizeof_settings_ext - sizeof_settings
            then Inl (CloseSession LWIPERF_UDP_ABORTED_LOCAL)
            else
              (let conn = (if extended then conn\<lparr>settings := recv_udp_settings env\<rparr> else conn);
                   conn = conn\<lparr>have_settings_buf := 1, remote_addr := recv_addr env,
                            remote_port := recv_port env, time_started := recv_sys_now env\<rparr>;
                   conn = (if recv_arg_server env AND 0x80 \<noteq> 0
                           then conn\<lparr>settings := (settings conn)
                                  \<lparr>base := (base (settings conn))
                                     \<lparr>flags := flags (base (settings conn))
                                        AND NOT (lwip_htonl (LWIPERF_FLAGS_ANSWER_TEST
                                                             OR LWIPERF_FLAGS_ANSWER_NOW))\<rparr>\<rparr>\<rparr>
                           else conn)
               in if flags (base (settings conn)) AND lwip_htonl LWIPERF_FLAGS_EXTEND \<noteq> 0
                     \<and> eflags (settings conn) AND lwip_htonl LWIPERF_EFLAGS_REVERSE \<noteq> 0
                  then
                    (case recv_tx_reverse_start env of
                       Inl f \<Rightarrow> Inl (Faulted f)
                     | Inr e \<Rightarrow>
                         if e \<noteq> ERR_OK then Inl (CloseSession LWIPERF_UDP_ABORTED_LOCAL_TXERROR)
                         else Inl ReverseStarted)
                  else if flags (base (settings conn)) AND lwip_htonl LWIPERF_FLAGS_ANSWER_TEST \<noteq> 0
                          \<and> flags (base (settings conn)) AND lwip_htonl LWIPERF_FLAGS_ANSWER_NOW \<noteq> 0
                  then
                    (case recv_tx_start env of
                       Inl f \<Rightarrow> Inl (Faulted f)
                     | Inr e \<Rightarrow>
                         if e \<noteq> ERR_OK then Inl (CloseSession LWIPERF_UDP_ABORTED_LOCAL_TXERROR)
                         else Inr conn)
                  else Inr conn)))"

text \<open>
  What \<^verbatim>\<open>lwiperf_udp_recv\<close> does with a datagram for a session \<^verbatim>\<open>conn\<close> it has found or just
  created (\<^verbatim>\<open>conn != NULL\<close>), at the tick \<^verbatim>\<open>now\<close> of \<^verbatim>\<open>clock_gettime\<close>. The branches are the
  source's, in its order. A datagram with a sequence number that is not negative goes
  through the handshake when the session has no settings yet, and is then counted in the
  same run.
\<close>

definition lwiperf_udp_recv ::
  "udp_recv_env \<Rightarrow> u32 \<Rightarrow> udp_pbuf \<Rightarrow> lwiperf_state \<Rightarrow> udp_recv_outcome" where
  "lwiperf_udp_recv env now p conn =
     (let datagramID = lwip_ntohl (dgram_id (pkt p)) in
      if server conn = 0 \<and> reverse conn \<noteq> 0 then Ignored
      else if server conn = 0 then ReportSeen (udp_recv_server_report p conn)
      else if 0 \<le>s datagramID then
        (let ts = clock_gettime now in
         case (if have_settings_buf conn = 0 then udp_recv_handshake env p conn else Inr conn) of
           Inl out \<Rightarrow> out
         | Inr conn \<Rightarrow> Data (udp_recv_update_jitter ts (udp_recv_update_stats datagramID p conn)))
      else if flags (base (settings conn)) AND lwip_htonl LWIPERF_FLAGS_EXTEND \<noteq> 0
              \<and> eflags (settings conn) AND lwip_htonl LWIPERF_EFLAGS_REVERSE \<noteq> 0
        then CloseSession LWIPERF_UDP_DONE_CLIENT_RX
      else if have_settings_buf conn \<noteq> 0 \<and> report_count conn = 0 then SendReport
      else Dropped)"

text \<open>
  The callback runs once for each datagram that arrives. \<^verbatim>\<open>udp_recv_seq\<close> feeds a session
  the datagrams of a list, each with its arrival tick, for as long as they are counted.
\<close>

fun udp_recv_seq ::
  "udp_recv_env \<Rightarrow> (u32 \<times> udp_pbuf) list \<Rightarrow> lwiperf_state \<Rightarrow> lwiperf_state option" where
  "udp_recv_seq env [] conn = Some conn"
| "udp_recv_seq env ((now, p) # ds) conn =
     (case lwiperf_udp_recv env now p conn of
        Data conn' \<Rightarrow> udp_recv_seq env ds conn'
      | _ \<Rightarrow> None)"

text \<open>
  The condition on a datagram and its surroundings under which the first datagram of a
  run is counted: the session has its settings already, or the datagram holds a complete
  settings record (and the extended part, when the record says so) that does not ask for
  a reverse test, and that asks for a simultaneous return test only where
  \<^verbatim>\<open>lwiperf_udp_tx_start\<close> returns \<^verbatim>\<open>ERR_OK\<close>. \<^verbatim>\<open>f'\<close> are the flags after lines 1542-1544 have
  cleared the two answer flags at a temporary server, \<^verbatim>\<open>ef\<close> the extended flags that line
  1547 reads.
\<close>

definition udp_recv_ready :: "udp_recv_env \<Rightarrow> udp_pbuf \<Rightarrow> lwiperf_state \<Rightarrow> bool" where
  "udp_recv_ready env p conn =
     (have_settings_buf conn \<noteq> 0
      \<or> (let f = flags (base (recv_udp_settings env));
              extended = (f AND lwip_htonl LWIPERF_FLAGS_EXTEND \<noteq> 0);
              f' = (if recv_arg_server env AND 0x80 \<noteq> 0
                    then f AND NOT (lwip_htonl (LWIPERF_FLAGS_ANSWER_TEST
                                                OR LWIPERF_FLAGS_ANSWER_NOW))
                    else f);
              ef = (if extended then eflags (recv_udp_settings env) else eflags (settings conn))
          in sizeof_UDP_datagram + sizeof_settings \<le> unat (tot_len p)
             \<and> unat (recv_copied_settings env) = sizeof_settings
             \<and> (extended \<longrightarrow> sizeof_UDP_datagram + sizeof_settings_ext \<le> unat (tot_len p)
                   \<and> unat (recv_copied_ext env) = sizeof_settings_ext - sizeof_settings)
             \<and> \<not> (f' AND lwip_htonl LWIPERF_FLAGS_EXTEND \<noteq> 0
                    \<and> ef AND lwip_htonl LWIPERF_EFLAGS_REVERSE \<noteq> 0)
             \<and> (f' AND lwip_htonl LWIPERF_FLAGS_ANSWER_TEST \<noteq> 0
                  \<and> f' AND lwip_htonl LWIPERF_FLAGS_ANSWER_NOW \<noteq> 0
                  \<longrightarrow> recv_tx_start env = Inr ERR_OK)))"

section \<open>UDP pacing delay\<close>

text \<open>
  \<^verbatim>\<open>lwiperf_udp_set_client_rate\<close>. In \<^verbatim>\<open>buf_len * 8 * (u64_t)1000000\<close> the product \<^verbatim>\<open>buf_len * 8\<close> is a
  32-bit one, then widened; the signed 32-bit \<^verbatim>\<open>rate\<close> is converted to the unsigned 64-bit
  type of the dividend. The function divides by \<^verbatim>\<open>rate\<close> (line 1170) and, when the truncated
  delay is zero, by the untruncated delay (line 1178), with no test of either divisor.
\<close>

definition ideal_frame_delay :: "s32 \<Rightarrow> u32 \<Rightarrow> u32" where
  "ideal_frame_delay rate' buf_len =
     ucast (((ucast (buf_len * 8) :: u64) * 1000000) div (scast rate' :: u64))"

definition lwiperf_udp_set_client_rate ::
  "lwiperf_state \<Rightarrow> s32 \<Rightarrow> u32 \<Rightarrow> fault + lwiperf_state" where
  "lwiperf_udp_set_client_rate c rate' buf_len =
     (if rate' = 0 then Inl DivisionByZero
      else
        (let c1 = c\<lparr>delay_target := ideal_frame_delay rate' buf_len\<rparr>;
             c2 = c1\<lparr>delay_target :=
                        (delay_target c1 div CLOCK_RESOLUTION_US) * CLOCK_RESOLUTION_US\<rparr>
         in if delay_target c2 = 0
            then (if ideal_frame_delay rate' buf_len = 0 then Inl DivisionByZero
                  else Inr (c2\<lparr>delay_target := CLOCK_RESOLUTION_US,
                               frames_per_delay :=
                                 CLOCK_RESOLUTION_US div ideal_frame_delay rate' buf_len\<rparr>))
            else Inr (c2\<lparr>frames_per_delay := 1\<rparr>)))"

text \<open>
  \<^verbatim>\<open>lwiperf_udp_tx_new\<close>, where the allocation, \<^verbatim>\<open>udp_new\<close> and \<^verbatim>\<open>udp_bind\<close> succeed: the new
  session is a copy of \<^verbatim>\<open>conn\<close> (all zero when \<^verbatim>\<open>conn\<close> is \<^verbatim>\<open>NULL\<close>) turned into a client on the
  new socket \<^verbatim>\<open>newpcb\<close>.
\<close>

definition lwiperf_udp_tx_new :: "ptr \<Rightarrow> u32 \<Rightarrow> lwiperf_state option \<Rightarrow> lwiperf_state" where
  "lwiperf_udp_tx_new newpcb now conn =
     (let client_conn = (case conn of None \<Rightarrow> lwiperf_state_zero | Some c \<Rightarrow> c)
      in client_conn\<lparr>tcp := 0, server := 0, pcb := newpcb, time_started := now,
                      bytes_transferred := 0,
                      settings := (settings client_conn)
                        \<lparr>base := (base (settings client_conn))\<lparr>flags := 0\<rparr>\<rparr>,
                      report_count := 0\<rparr>)"

text \<open>The test modes of \<^verbatim>\<open>enum lwiperf_client_type\<close>.\<close>

datatype lwiperf_client_type = LWIPERF_CLIENT | LWIPERF_DUAL | LWIPERF_TRADEOFF | LWIPERF_REVERSE

text \<open>
  \<^verbatim>\<open>lwiperf_start_udp_client\<close> from the creation of the client session to the pacing delay
  (lines 1741-1764 and 1790-1826), where \<^verbatim>\<open>lwiperf_udp_tx_new\<close> succeeds. \<^verbatim>\<open>sport\<close> is the port
  of the auxiliary server of a dual or tradeoff test, 0 when there is none. The \<^verbatim>\<open>rate\<close> of
  the caller goes to \<^verbatim>\<open>lwiperf_udp_set_client_rate\<close> as it is.
\<close>

definition udp_client_type_flags :: "lwiperf_client_type \<Rightarrow> u32 \<times> u32" where
  "udp_client_type_flags t =
     (case t of
        LWIPERF_CLIENT \<Rightarrow> (0, 0)
      | LWIPERF_REVERSE \<Rightarrow>
          (lwip_htonl (LWIPERF_FLAGS_EXTEND OR LWIPERF_FLAGS_UDPTESTS OR LWIPERF_FLAGS_VERSION2),
           lwip_htonl LWIPERF_EFLAGS_REVERSE)
      | LWIPERF_DUAL \<Rightarrow> (lwip_htonl (LWIPERF_FLAGS_ANSWER_TEST OR LWIPERF_FLAGS_ANSWER_NOW), 0)
      | LWIPERF_TRADEOFF \<Rightarrow> (lwip_htonl LWIPERF_FLAGS_ANSWER_TEST, 0))"

definition lwiperf_start_udp_client ::
  "ptr \<Rightarrow> u32 \<Rightarrow> u16 \<Rightarrow> ip_addr \<Rightarrow> u16 \<Rightarrow> lwiperf_client_type \<Rightarrow> s32 \<Rightarrow> u32 \<Rightarrow> s32 \<Rightarrow> ptr \<Rightarrow> ptr
   \<Rightarrow> fault + lwiperf_state" where
  "lwiperf_start_udp_client newpcb now sport remote_addr' remote_port' t amount' buffer_len' rate'
       report_fn' report_arg' =
     (let (flags', eflags') = udp_client_type_flags t;
          c = lwiperf_udp_tx_new newpcb now None;
          c = c\<lparr>report_fn := report_fn', report_arg := report_arg',
                 remote_addr := remote_addr', remote_port := remote_port',
                 have_settings_buf := 1\<rparr>;
          c = c\<lparr>settings := (settings c)\<lparr>base := (base (settings c))\<lparr>amount := lwip_htonl amount'\<rparr>\<rparr>\<rparr>;
          buf_len = (if buffer_len' \<noteq> 0
                     then min (if IP_IS_V6 remote_addr' then 1450 else 1470) buffer_len'
                     else (if IP_IS_V6 remote_addr' then 1450 else 1470));
          c = c\<lparr>settings := (settings c)\<lparr>base := (base (settings c))\<lparr>buffer_len := lwip_htonl buf_len\<rparr>\<rparr>\<rparr>;
          c = (if rate' \<noteq> 1024 * 1024
               then c\<lparr>settings := (settings c)
                        \<lparr>rate := lwip_htonl rate',
                         base := (base (settings c))
                           \<lparr>flags := flags (base (settings c)) OR lwip_htonl LWIPERF_FLAGS_EXTEND,
                            win_band := lwip_htonl rate'\<rparr>\<rparr>\<rparr>
               else c);
          c = c\<lparr>settings := (settings c)
                   \<lparr>eflags := eflags (settings c) OR eflags',
                    base := (base (settings c))\<lparr>flags := flags (base (settings c)) OR flags'\<rparr>\<rparr>\<rparr>;
          c = (if sport \<noteq> 0
               then c\<lparr>settings := (settings c)
                        \<lparr>base := (base (settings c))
                           \<lparr>lwiperf_settings.remote_port := lwip_htonl (ucast sport)\<rparr>\<rparr>\<rparr>
               else c)
      in if t = LWIPERF_REVERSE then Inr (c\<lparr>frames_per_delay := 1\<rparr>)
         else lwiperf_udp_set_client_rate c rate' buf_len)"

text \<open>
  \<^verbatim>\<open>lwiperf_udp_tx_start\<close> up to the pacing delay (lines 1345-1365), where
  \<^verbatim>\<open>lwiperf_udp_tx_new\<close> succeeds: the session \<^verbatim>\<open>cc\<close> that sends back to the peer of \<^verbatim>\<open>conn\<close>. With
  extended settings the rate is the \<^verbatim>\<open>rate\<close> field the peer sent, as it is.
\<close>

definition lwiperf_udp_tx_start :: "ptr \<Rightarrow> u32 \<Rightarrow> lwiperf_state \<Rightarrow> fault + lwiperf_state" where
  "lwiperf_udp_tx_start newpcb now conn =
     (let cc = lwiperf_udp_tx_new newpcb now (Some conn);
          cc = cc\<lparr>remote_port := ucast (lwip_htonl (lwiperf_settings.remote_port (base (settings cc))))\<rparr>;
          buf_len = (if IP_IS_V6 (remote_addr cc) then 1450 else 1470);
          cc = cc\<lparr>settings := (settings cc)\<lparr>base := (base (settings cc))\<lparr>buffer_len := lwip_htonl buf_len\<rparr>\<rparr>\<rparr>
      in if flags (base (settings conn)) AND lwip_htonl LWIPERF_FLAGS_EXTEND \<noteq> 0
         then lwiperf_udp_set_client_rate cc (lwip_ntohl (rate (settings conn))) buf_len
         else if win_band (base (settings cc)) \<noteq> 0
         then lwiperf_udp_set_client_rate cc (lwip_ntohl (win_band (base (settings cc)))) buf_len
         else lwiperf_udp_set_client_rate cc (1024 * 1024) buf_len)"

text \<open>
  \<^verbatim>\<open>lwiperf_udp_tx_reverse_start\<close> up to the pacing delay (lines 1401-1414), where \<^verbatim>\<open>udp_new\<close>
  succeeds. This sibling of the two callers above asserts that the rate is not zero
  before it computes the delay.
\<close>

definition lwiperf_udp_tx_reverse_start :: "ptr \<Rightarrow> u32 \<Rightarrow> lwiperf_state \<Rightarrow> fault + lwiperf_state" where
  "lwiperf_udp_tx_reverse_start newpcb now conn =
     (let conn = conn\<lparr>server := 0, pcb := newpcb, time_started := now, bytes_transferred := 0\<rparr>;
          conn = conn\<lparr>settings := (settings conn)
                   \<lparr>eflags := eflags (settings conn) AND NOT (lwip_htonl LWIPERF_EFLAGS_REVERSE),
                    base := (base (settings conn))\<lparr>flags := 0\<rparr>\<rparr>\<rparr>;
          buf_len = (if IP_IS_V6 (remote_addr conn) then 1450 else 1470);
          conn = conn\<lparr>settings := (settings conn)\<lparr>base := (base (settings conn))\<lparr>buffer_len := lwip_htonl buf_len\<rparr>\<rparr>\<rparr>
      in if lwip_ntohl (rate (settings conn)) = 0 then Inl AssertionFailed
         else lwiperf_udp_set_client_rate conn (lwip_ntohl (rate (settings conn))) buf_len)"

section \<open>Reports\<close>

text \<open>
  A call of the report callback \<^verbatim>\<open>report_fn(arg, report_type, local_addr, local_port,
  remote_addr, remote_port, bytes_transferred, ms_duration, bandwidth_kbitpsec)\<close>. The two
  endpoints are given by where the code takes them from.
\<close>

datatype endpoint =
    NoEndpoint
  | LocalOf ptr
  | RemoteOf ptr
  | ListenerRemote ptr
  | Remote ip_addr u16

record report_call =
  rc_arg :: ptr
  rc_report_type :: lwiperf_report_type
  rc_local :: endpoint
  rc_remote :: endpoint
  rc_bytes_transferred :: u64
  rc_ms_duration :: u32
  rc_bandwidth_kbitpsec :: u32

text \<open>
  \<^verbatim>\<open>lwip_tcp_conn_report\<close> at the tick \<^verbatim>\<open>now\<close>: the call it makes, if it makes one. \<^verbatim>\<open>conn\<close> is
  \<^verbatim>\<open>None\<close> for the pointer \<^verbatim>\<open>NULL\<close>. A session that holds neither a connection nor a listener
  reports zeros, not the values computed before.
\<close>

definition lwip_tcp_conn_report ::
  "u32 \<Rightarrow> lwiperf_state option \<Rightarrow> lwiperf_report_type \<Rightarrow> report_call option" where
  "lwip_tcp_conn_report now conn report_type =
     (case conn of
        None \<Rightarrow> None
      | Some c \<Rightarrow>
          if report_fn c = NULL then None
          else
            (let duration_ms = now - time_started c;
                 bandwidth_kbitpsec =
                   (if duration_ms = 0 then 0
                    else (ucast ((bytes_transferred c * 8) div ucast duration_ms) :: u32))
             in if conn_pcb c \<noteq> NULL
                then Some \<lparr>rc_arg = report_arg c, rc_report_type = report_type,
                           rc_local = LocalOf (conn_pcb c), rc_remote = RemoteOf (conn_pcb c),
                           rc_bytes_transferred = bytes_transferred c,
                           rc_ms_duration = duration_ms,
                           rc_bandwidth_kbitpsec = bandwidth_kbitpsec\<rparr>
                else if server_pcb c \<noteq> NULL
                then Some \<lparr>rc_arg = report_arg c, rc_report_type = report_type,
                           rc_local = LocalOf (server_pcb c),
                           rc_remote = ListenerRemote (server_pcb c),
                           rc_bytes_transferred = bytes_transferred c,
                           rc_ms_duration = duration_ms,
                           rc_bandwidth_kbitpsec = bandwidth_kbitpsec\<rparr>
                else Some \<lparr>rc_arg = report_arg c, rc_report_type = report_type,
                           rc_local = NoEndpoint, rc_remote = NoEndpoint,
                           rc_bytes_transferred = 0, rc_ms_duration = 0,
                           rc_bandwidth_kbitpsec = 0\<rparr>))"

text \<open>
  \<^verbatim>\<open>lwip_udp_conn_report\<close>. \<^verbatim>\<open>master\<close> is the session \<^verbatim>\<open>conn->base.related_master_state\<close> points
  to, \<^verbatim>\<open>None\<close> when that pointer is \<^verbatim>\<open>NULL\<close>; a session without a socket of its own reports
  the local endpoint of its master's socket.
\<close>

definition lwip_udp_conn_report ::
  "u32 \<Rightarrow> lwiperf_state option \<Rightarrow> lwiperf_state option \<Rightarrow> lwiperf_report_type
   \<Rightarrow> report_call option" where
  "lwip_udp_conn_report now conn master report_type =
     (case conn of
        None \<Rightarrow> None
      | Some c \<Rightarrow>
          if report_fn c = NULL then None
          else
            (let duration_ms = now - time_started c;
                 bandwidth_kbitpsec =
                   (if duration_ms = 0 then 0
                    else (ucast ((8 * bytes_transferred c) div ucast duration_ms) :: u32));
                 local =
                   (if pcb c \<noteq> NULL then LocalOf (pcb c)
                    else (case master of
                            None \<Rightarrow> NoEndpoint
                          | Some s \<Rightarrow> if pcb s \<noteq> NULL then LocalOf (pcb s) else NoEndpoint))
             in Some \<lparr>rc_arg = report_arg c, rc_report_type = report_type,
                       rc_local = local, rc_remote = Remote (remote_addr c) (remote_port c),
                       rc_bytes_transferred = bytes_transferred c,
                       rc_ms_duration = duration_ms,
                       rc_bandwidth_kbitpsec = bandwidth_kbitpsec\<rparr>))"

section \<open>Sending on a TCP session\<close>

definition TCP_WRITE_FLAG_COPY :: u8 where
  "TCP_WRITE_FLAG_COPY = 0x01"

definition TCP_WRITE_FLAG_MORE :: u8 where
  "TCP_WRITE_FLAG_MORE = 0x02"

text \<open>
  What the transport stack answers during one run of \<^verbatim>\<open>lwiperf_tcp_client_send_more\<close>: the
  tick \<^verbatim>\<open>sys_now()\<close> returns (taken as the same on every read within the run), and the
  result of the \<^verbatim>\<open>n\<close>-th call of \<^verbatim>\<open>tcp_write\<close> for the length and flags it is given.
\<close>

record tcp_env =
  tcp_sys_now :: u32
  tcp_write :: "nat \<Rightarrow> u16 \<Rightarrow> u8 \<Rightarrow> err_t"

text \<open>
  The test at the top of the send loop (lines 432-452): has the session reached its
  target? The sign bit of \<^verbatim>\<open>amount\<close> marks a time limit in units of 10 ms; otherwise
  \<^verbatim>\<open>amount\<close> is a number of bytes, compared with the 64-bit counter.
\<close>

definition tcp_send_target_reached :: "u32 \<Rightarrow> lwiperf_state \<Rightarrow> bool" where
  "tcp_send_target_reached now conn =
     (if amount (base (settings conn)) AND lwip_htonl 0x80000000 \<noteq> 0
      then (let diff_ms = now - time_started conn;
                time = - lwip_ntohl (amount (base (settings conn)));
                time_ms = time * 10
            in time_ms \<le> diff_ms)
      else (let amount_bytes = lwip_ntohl (amount (base (settings conn)))
            in ucast amount_bytes \<le> bytes_transferred conn))"

text \<open>
  The choice of what to write next (lines 454-485): the longest length \<^verbatim>\<open>txlen_max\<close>, the
  flags for \<^verbatim>\<open>tcp_write\<close>, and \<^verbatim>\<open>send_more\<close>. \<^verbatim>\<open>mss\<close> is \<^verbatim>\<open>tcp_mss(conn->conn_pcb)\<close>.
\<close>

definition tcp_send_chunk :: "bool \<Rightarrow> u16 \<Rightarrow> lwiperf_state \<Rightarrow> u16 \<times> u8 \<times> bool" where
  "tcp_send_chunk primary_a_client mss conn =
     (if primary_a_client \<and> bytes_transferred conn < of_nat sizeof_settings_ext
      then (ucast (of_nat sizeof_settings_ext - bytes_transferred conn), TCP_WRITE_FLAG_COPY, False)
      else
        (let block_pos :: u32 =
               (if primary_a_client
                then ucast ((bytes_transferred conn - of_nat sizeof_settings_ext) mod ucast BLOCK_SIZE)
                else ucast (bytes_transferred conn mod ucast BLOCK_SIZE))
         in if primary_a_client \<and> block_pos < of_nat sizeof_settings_ext
            then (ucast (of_nat sizeof_settings_ext - block_pos),
                  TCP_WRITE_FLAG_COPY OR TCP_WRITE_FLAG_MORE, True)
            else
              (let txlen_max = mss;
                   txlen_max = (if block_pos = of_nat sizeof_settings_ext
                                then txlen_max - of_nat sizeof_settings_ext else txlen_max);
                   txlen_max = (if BLOCK_SIZE < block_pos + ucast txlen_max
                                then ucast (BLOCK_SIZE - block_pos) else txlen_max)
               in (txlen_max, 0, True))))"

text \<open>
  The inner loop (lines 487-492): \<^verbatim>\<open>tcp_write\<close> is tried again with half the length for as
  long as it answers \<^verbatim>\<open>ERR_MEM\<close> and the length is at least half a segment. The result is
  the last answer, the last length and the number of calls made so far. Nothing bounds
  the number of rounds when \<^verbatim>\<open>mss\<close> is below 2, so the loop is a partial function.
\<close>

partial_function (option) tcp_write_retry ::
  "tcp_env \<Rightarrow> u16 \<Rightarrow> u8 \<Rightarrow> nat \<Rightarrow> u16 \<Rightarrow> (err_t \<times> u16 \<times> nat) option" where
  "tcp_write_retry env mss apiflags n txlen =
     (let err = tcp_write env n txlen apiflags;
          txlen' = (if err = ERR_MEM then txlen div 2 else txlen)
      in if err = ERR_MEM \<and> mss div 2 \<le> txlen'
         then tcp_write_retry env mss apiflags (Suc n) txlen'
         else Some (err, txlen', Suc n))"

text \<open>
  How a run of the send routine ends: the session was closed with a reason (and its
  memory released), or it is still open.
\<close>

datatype tcp_send_result =
    TcpClosed lwiperf_report_type lwiperf_state
  | TcpOpen lwiperf_state

text \<open>
  Lines 494-497: a successful write is added to the byte counter, unless this side is a
  client in a reverse test.
\<close>

definition tcp_send_account :: "u16 \<Rightarrow> lwiperf_state \<Rightarrow> lwiperf_state" where
  "tcp_send_account txlen conn =
     (if server conn \<noteq> 0 \<or> reverse conn = 0
      then conn\<lparr>bytes_transferred := bytes_transferred conn + ucast txlen\<rparr>
      else conn)"

text \<open>The outer loop (lines 430-501).\<close>

partial_function (option) tcp_client_send_loop ::
  "tcp_env \<Rightarrow> bool \<Rightarrow> u16 \<Rightarrow> nat \<Rightarrow> lwiperf_state \<Rightarrow> tcp_send_result option" where
  "tcp_client_send_loop env primary_a_client mss n conn =
     (if tcp_send_target_reached (tcp_sys_now env) conn
      then Some (TcpClosed (if reverse conn \<noteq> 0 then LWIPERF_TCP_DONE_SERVER_TX
                            else LWIPERF_TCP_DONE_CLIENT_TX) conn)
      else
        (case tcp_send_chunk primary_a_client mss conn of
           (txlen_max, apiflags, send_more) \<Rightarrow>
             do {
               (err, txlen, n') \<leftarrow> tcp_write_retry env mss apiflags n txlen_max;
               if err = ERR_OK
               then (let conn' = tcp_send_account txlen conn
                     in if send_more then tcp_client_send_loop env primary_a_client mss n' conn'
                        else Some (TcpOpen conn'))
               else Some (TcpOpen conn)
             }))"

text \<open>
  \<^verbatim>\<open>lwiperf_tcp_client_send_more\<close>. \<^verbatim>\<open>master_server\<close> is the field \<^verbatim>\<open>server\<close> of the session
  \<^verbatim>\<open>conn->base.related_master_state\<close> points to (read only when that pointer is not
  \<^verbatim>\<open>NULL\<close>), and \<^verbatim>\<open>mss\<close> is \<^verbatim>\<open>conn->conn_pcb->mss\<close> on entry.
\<close>

definition lwiperf_tcp_client_send_more ::
  "tcp_env \<Rightarrow> u8 \<Rightarrow> u16 \<Rightarrow> lwiperf_state \<Rightarrow> tcp_send_result option" where
  "lwiperf_tcp_client_send_more env master_server mss conn =
     (let buffer_len' = lwip_ntohl (buffer_len (base (settings conn)));
          mss' = (if buffer_len' \<noteq> 0 \<and> buffer_len' < ucast mss then ucast buffer_len' else mss);
          primary_a_client = (related_master_state conn = NULL \<or> master_server = 0)
      in tcp_client_send_loop env primary_a_client mss' 0 conn)"

declare tcp_write_retry.simps [code]
declare tcp_client_send_loop.simps [code]

section \<open>Sending on a UDP session\<close>

text \<open>
  What the surroundings answer during one run of \<^verbatim>\<open>lwiperf_udp_client_send_more\<close>: the
  tick of \<^verbatim>\<open>sys_now()\<close> (the same on both reads of the run), whether \<^verbatim>\<open>pbuf_alloc\<close> succeeds
  for the frame \<^verbatim>\<open>i\<close> of the run, and what \<^verbatim>\<open>udp_send\<close> returns for it.
\<close>

record udp_env =
  udp_sys_now :: u32
  pbuf_alloc :: "u32 \<Rightarrow> bool"
  udp_send :: "u32 \<Rightarrow> err_t"

text \<open>
  What a run does to the outside: buffers allocated and released, and datagrams handed
  to \<^verbatim>\<open>udp_send\<close>, each with the three header words the routine writes (\<^verbatim>\<open>id\<close>, \<^verbatim>\<open>tv_sec\<close>,
  \<^verbatim>\<open>tv_usec\<close>, as on the wire), its length and the answer of \<^verbatim>\<open>udp_send\<close>.
\<close>

datatype udp_tx_event =
    PbufAlloc
  | PbufAllocFailed
  | UdpSend s32 u32 u32 u16 err_t
  | PbufFree

text \<open>
  How a run ends: \<^verbatim>\<open>UdpClosed\<close> when the routine called \<^verbatim>\<open>lwiperf_udp_close\<close> (which reports,
  takes the session off the list and releases its memory), \<^verbatim>\<open>UdpOpen\<close> when it returned
  without, the session still registered.
\<close>

datatype udp_send_result =
    UdpClosed lwiperf_report_type lwiperf_state
  | UdpOpen lwiperf_state

text \<open>
  Lines 1198-1217: the local \<^verbatim>\<open>ending\<close> is 0 before the target, 1 from the target on, and 2
  once the target is passed by more than 500 ms or by 4096 bytes.
\<close>

definition udp_send_ending :: "u32 \<Rightarrow> lwiperf_state \<Rightarrow> nat" where
  "udp_send_ending now conn =
     (if amount (base (settings conn)) AND lwip_htonl 0x80000000 \<noteq> 0
      then (let diff_ms = now - time_started conn;
                time = - lwip_ntohl (amount (base (settings conn)));
                time_ms = time * 10
            in if time_ms \<le> diff_ms then (if time_ms + 500 < diff_ms then 2 else 1) else 0)
      else (let amount_bytes = lwip_ntohl (amount (base (settings conn)))
            in if ucast amount_bytes \<le> bytes_transferred conn
               then (if ucast (amount_bytes + 4096) \<le> bytes_transferred conn then 2 else 1)
               else 0))"

text \<open>
  Lines 1256-1260: a datagram that was sent counts, unless this side is the sender of a
  reverse test on the server.
\<close>

definition udp_send_account :: "u16 \<Rightarrow> lwiperf_state \<Rightarrow> lwiperf_state" where
  "udp_send_account len' conn =
     (if server conn = 0 \<or> reverse conn = 0
      then conn\<lparr>udp_seq := udp_seq conn + 1,
                 bytes_transferred := bytes_transferred conn + ucast len'\<rparr>
      else conn)"

text \<open>
  The loop over the frames of one tick (lines 1232-1281), from the frame \<^verbatim>\<open>i\<close> on. When
  \<^verbatim>\<open>udp_send\<close> fails the buffer is released and the routine returns; nothing else is done.
\<close>

function udp_send_frames ::
  "udp_env \<Rightarrow> nat \<Rightarrow> timespec \<Rightarrow> u32 \<Rightarrow> lwiperf_state \<Rightarrow> lwiperf_state \<times> udp_tx_event list" where
  "udp_send_frames env ending ts i conn =
     (if i < frames_per_delay conn
      then
        (if pbuf_alloc env i
         then
           (let p_tot_len = (ucast (lwip_ntohl (buffer_len (base (settings conn)))) :: u16);
                pkt_id = lwip_htonl (if ending \<noteq> 0 then - udp_seq conn else udp_seq conn);
                pkt_tv_sec = lwip_htonl (timespec.tv_sec ts);
                pkt_tv_usec = lwip_htonl (long_div (timespec.tv_nsec ts) 1000);
                conn1 = conn\<lparr>udp_lastpkt := ts\<rparr>;
                err = udp_send env i
            in if err = ERR_OK
               then
                 (let conn2 = udp_send_account p_tot_len conn1;
                      conn3 = (if ending \<noteq> 0
                               then conn2\<lparr>delay_target := 50000, frames_per_delay := 10\<rparr>
                               else conn2);
                      (c, evs) = udp_send_frames env ending ts (i + 1) conn3
                  in (c, [PbufAlloc, UdpSend pkt_id pkt_tv_sec pkt_tv_usec p_tot_len err, PbufFree]
                         @ evs))
               else (conn1, [PbufAlloc, UdpSend pkt_id pkt_tv_sec pkt_tv_usec p_tot_len err,
                             PbufFree]))
         else (conn, [PbufAllocFailed]))
      else (conn, []))"
  by pat_completeness auto
termination
proof (relation "measure (\<lambda>(env, ending, ts, i, conn).
          (if ending \<noteq> 0 then max (unat (frames_per_delay conn)) 10
           else unat (frames_per_delay conn)) - unat i)", goal_cases)
  case 1
  then show ?case by simp
next
  case (2 env ending ts i conn)
  from 2(1) have lt: "unat i < unat (frames_per_delay conn)"
    by (simp add: word_less_nat_alt)
  then have "unat i + 1 < 2 ^ 32"
    using unsigned_less [of "frames_per_delay conn", where 'a = nat] by simp
  then have suc: "unat (i + 1) = unat i + 1"
    by (simp add: unat_word_ariths)
  show ?case
    using 2 lt suc by (auto simp: udp_send_account_def)
qed

declare udp_send_frames.simps [simp del]

text \<open>\<^verbatim>\<open>lwiperf_udp_client_send_more\<close>.\<close>

definition lwiperf_udp_client_send_more ::
  "udp_env \<Rightarrow> lwiperf_state \<Rightarrow> udp_send_result \<times> udp_tx_event list" where
  "lwiperf_udp_client_send_more env conn =
     (let ending = udp_send_ending (udp_sys_now env) conn
      in if ending \<noteq> 0 \<and> (1 < ending \<or> 0 < report_count conn)
         then (UdpClosed (if reverse conn \<noteq> 0 then LWIPERF_UDP_DONE_SERVER_TX
                          else LWIPERF_UDP_DONE_CLIENT_TX) conn, [])
         else
           (let ts = clock_gettime (udp_sys_now env)
            in if udp_transit (udp_lastpkt conn) ts < delay_target conn
               then (UdpOpen conn, [])
               else (let (c, evs) = udp_send_frames env ending ts 0 conn
                     in (UdpOpen c, evs))))"

section \<open>Receiving on a TCP session\<close>

text \<open>
  What the surroundings answer during one run of \<^verbatim>\<open>lwiperf_tcp_recv\<close>: the answers for the
  send routine (which the handshake of a reverse test calls), the settings record held
  by the first 60 bytes of the segment, the number of bytes \<^verbatim>\<open>pbuf_copy_partial\<close> copies,
  and what \<^verbatim>\<open>lwiperf_tx_start_passive\<close> returns; the session that call creates is another
  one and is not followed here.
\<close>

record tcp_recv_env =
  recv_tcp_env :: tcp_env
  recv_settings :: lwiperf_settings_ext
  recv_copied :: u16
  recv_tx_start_passive :: err_t

text \<open>
  How a run of the callback ends. \<^verbatim>\<open>RecvClosedInSend\<close>: the send routine that the handshake
  called has closed the session and released its memory; the callback goes on to use the
  released session, and the model stops there.
\<close>

datatype tcp_recv_result =
    RecvClosed lwiperf_report_type
  | RecvOpen lwiperf_state
  | RecvClosedInSend lwiperf_report_type

text \<open>Lines 714-717 and 723-725: what a data sink adds to its byte counter.\<close>

definition tcp_recv_account_settings :: "u32 \<Rightarrow> lwiperf_state \<Rightarrow> lwiperf_state" where
  "tcp_recv_account_settings now conn =
     (if server conn = 0 \<or> reverse conn = 0
      then conn\<lparr>bytes_transferred := bytes_transferred conn + of_nat sizeof_settings_ext,
                 time_started := now\<rparr>
      else conn)"

definition tcp_recv_account_data :: "u16 \<Rightarrow> lwiperf_state \<Rightarrow> lwiperf_state" where
  "tcp_recv_account_data p_tot_len conn =
     (if server conn = 0 \<or> reverse conn = 0
      then conn\<lparr>bytes_transferred := bytes_transferred conn + ucast p_tot_len\<rparr>
      else conn)"

text \<open>\<^verbatim>\<open>lwiperf_tx_start_reverse\<close>: the session turns into a sender and sends at once.\<close>

definition lwiperf_tx_start_reverse ::
  "tcp_env \<Rightarrow> u8 \<Rightarrow> u16 \<Rightarrow> lwiperf_state \<Rightarrow> tcp_send_result option" where
  "lwiperf_tx_start_reverse env master_server mss conn =
     lwiperf_tcp_client_send_more env master_server mss
       (conn\<lparr>reverse := 1, poll_count := 0, time_started := tcp_sys_now env\<rparr>)"

text \<open>
  \<^verbatim>\<open>lwiperf_tcp_recv\<close>. \<^verbatim>\<open>p\<close> is \<^verbatim>\<open>p->tot_len\<close>, or \<^verbatim>\<open>None\<close> for the pbuf \<^verbatim>\<open>NULL\<close> (the peer has
  closed the connection); \<^verbatim>\<open>master_server\<close> and \<^verbatim>\<open>mss\<close> are as for the send routine.
\<close>

definition lwiperf_tcp_recv ::
  "tcp_recv_env \<Rightarrow> u8 \<Rightarrow> u16 \<Rightarrow> lwiperf_state \<Rightarrow> u16 option \<Rightarrow> err_t \<Rightarrow> tcp_recv_result option" where
  "lwiperf_tcp_recv env master_server mss conn p err =
     (if err \<noteq> ERR_OK then Some (RecvClosed LWIPERF_TCP_ABORTED_REMOTE)
      else
        (case p of
           None \<Rightarrow>
             Some (RecvClosed (if reverse conn \<noteq> 0 then LWIPERF_TCP_DONE_CLIENT_RX
                               else LWIPERF_TCP_DONE_SERVER_RX))
         | Some p_tot_len \<Rightarrow>
             (let now = tcp_sys_now (recv_tcp_env env);
                  conn = conn\<lparr>poll_count := 0\<rparr>;
                  primary_a_client = (related_master_state conn = NULL \<or> master_server = 0)
              in if \<not> primary_a_client \<and> have_settings_buf conn = 0
                 then
                   (if p_tot_len < of_nat sizeof_settings_ext
                    then Some (RecvClosed LWIPERF_TCP_ABORTED_LOCAL_DATAERROR)
                    else if recv_copied env \<noteq> of_nat sizeof_settings_ext
                    then Some (RecvClosed LWIPERF_TCP_ABORTED_LOCAL)
                    else
                      (let conn = conn\<lparr>settings := recv_settings env, have_settings_buf := 1\<rparr>;
                           p_tot_len' = p_tot_len - of_nat sizeof_settings_ext
                       in if flags (base (settings conn)) AND lwip_htonl LWIPERF_FLAGS_EXTEND \<noteq> 0
                             \<and> eflags (settings conn) AND lwip_htonl LWIPERF_EFLAGS_REVERSE \<noteq> 0
                          then
                            do {
                              r \<leftarrow> lwiperf_tx_start_reverse (recv_tcp_env env) master_server
                                     mss conn;
                              (case r of
                                 TcpClosed t c \<Rightarrow> Some (RecvClosedInSend t)
                               | TcpOpen c \<Rightarrow>
                                   Some (RecvOpen (tcp_recv_account_data p_tot_len'
                                           (tcp_recv_account_settings now c))))
                            }
                          else if flags (base (settings conn))
                                    AND lwip_htonl LWIPERF_FLAGS_ANSWER_TEST \<noteq> 0
                                  \<and> flags (base (settings conn))
                                    AND lwip_htonl LWIPERF_FLAGS_ANSWER_NOW \<noteq> 0
                                  \<and> recv_tx_start_passive env \<noteq> ERR_OK
                          then Some (RecvClosed LWIPERF_TCP_ABORTED_LOCAL_TXERROR)
                          else Some (RecvOpen (tcp_recv_account_data p_tot_len'
                                       (tcp_recv_account_settings now conn)))))
                 else Some (RecvOpen (tcp_recv_account_data p_tot_len conn)))))"

section \<open>The list of active sessions\<close>

text \<open>
  The calls the engine makes on its surroundings when it closes a session: the report
  callback; on a TCP connection the five calls that clear its callbacks (\<^verbatim>\<open>tcp_arg\<close>,
  \<^verbatim>\<open>tcp_poll\<close>, \<^verbatim>\<open>tcp_sent\<close>, \<^verbatim>\<open>tcp_recv\<close> and \<^verbatim>\<open>tcp_err\<close> with \<^verbatim>\<open>NULL\<close>, lines 393-397, as one
  event), \<^verbatim>\<open>tcp_close\<close> and \<^verbatim>\<open>tcp_abort\<close>; \<^verbatim>\<open>pbuf_free\<close> on a held report; \<^verbatim>\<open>udp_remove\<close> on a
  UDP socket; and \<^verbatim>\<open>LWIPERF_FREE\<close> on the session.
\<close>

datatype lwiperf_call =
    ReportFn report_call
  | TcpCallbacksCleared ptr
  | TcpClose ptr
  | TcpAbort ptr
  | PbufFreeReported ptr
  | UdpRemove ptr
  | MemFree ptr

text \<open>
  The state of the engine: the head of the list (\<^verbatim>\<open>lwiperf_all_connections\<close>), the sessions
  that are allocated, by address, and the calls made so far. Two things are given by the
  surroundings: the tick of \<^verbatim>\<open>sys_now()\<close> and what \<^verbatim>\<open>tcp_close\<close> returns for a handle.

  A function on this state returns \<^verbatim>\<open>None\<close> when the C code would read or write through a
  pointer to no allocated session, when an assertion fails, or when a loop over the list
  does not end.
\<close>

record lwiperf_globals =
  lwiperf_all_connections :: ptr
  sessions :: "ptr \<Rightarrow> lwiperf_state option"
  calls :: "lwiperf_call list"
  sys_now :: u32
  tcp_close_result :: "ptr \<Rightarrow> err_t"

text \<open>\<^verbatim>\<open>lwiperf_list_add\<close>: the item becomes the head of the list.\<close>

definition lwiperf_list_add :: "ptr \<Rightarrow> lwiperf_globals \<Rightarrow> lwiperf_globals option" where
  "lwiperf_list_add item g =
     (case sessions g item of
        None \<Rightarrow> None
      | Some c \<Rightarrow>
          Some (g\<lparr>sessions := (sessions g)(item \<mapsto> c\<lparr>nxt := lwiperf_all_connections g\<rparr>),
                  lwiperf_all_connections := item\<rparr>))"

text \<open>
  The loop of \<^verbatim>\<open>lwiperf_list_remove\<close> (lines 323-340), at the node \<^verbatim>\<open>iter\<close> with the node
  \<^verbatim>\<open>prev\<close> before it. Every node visited whose master is \<^verbatim>\<open>item\<close> loses that reference and
  remembers the address; the node \<^verbatim>\<open>item\<close> itself is unlinked; the loop goes on to the end
  of the list.
\<close>

partial_function (option) list_remove_loop ::
  "ptr \<Rightarrow> bool \<Rightarrow> ptr \<Rightarrow> ptr \<Rightarrow> lwiperf_globals \<Rightarrow> lwiperf_globals option" where
  "list_remove_loop item found prev iter g =
     (if iter = NULL then Some g
      else
        (case sessions g iter of
           None \<Rightarrow> None
         | Some c \<Rightarrow>
             (let g1 = (if related_master_state c = item
                        then g\<lparr>sessions := (sessions g)
                                 (iter \<mapsto> c\<lparr>related_master_state := NULL,
                                            deallocated_master_state_address := item\<rparr>)\<rparr>
                        else g)
              in if iter = item
                 then
                   (if found then None
                    else if prev = NULL
                    then list_remove_loop item True iter (nxt c)
                           (g1\<lparr>lwiperf_all_connections := nxt c\<rparr>)
                    else
                      (case sessions g1 prev of
                         None \<Rightarrow> None
                       | Some pc \<Rightarrow>
                           list_remove_loop item True iter (nxt c)
                             (g1\<lparr>sessions := (sessions g1)(prev \<mapsto> pc\<lparr>nxt := nxt c\<rparr>)\<rparr>)))
                 else list_remove_loop item found iter (nxt c) g1)))"

declare list_remove_loop.simps [code]

definition lwiperf_list_remove :: "ptr \<Rightarrow> lwiperf_globals \<Rightarrow> lwiperf_globals option" where
  "lwiperf_list_remove item g =
     list_remove_loop item False NULL (lwiperf_all_connections g) g"

text \<open>\<^verbatim>\<open>lwiperf_list_find\<close>: the item when it is on the list, \<^verbatim>\<open>NULL\<close> when it is not.\<close>

partial_function (option) list_find_loop :: "ptr \<Rightarrow> ptr \<Rightarrow> lwiperf_globals \<Rightarrow> ptr option" where
  "list_find_loop item iter g =
     (if iter = NULL then Some NULL
      else if iter = item then Some item
      else (case sessions g iter of
              None \<Rightarrow> None
            | Some c \<Rightarrow> list_find_loop item (nxt c) g))"

declare list_find_loop.simps [code]

definition lwiperf_list_find :: "ptr \<Rightarrow> lwiperf_globals \<Rightarrow> ptr option" where
  "lwiperf_list_find item g = list_find_loop item (lwiperf_all_connections g) g"

text \<open>
  \<^verbatim>\<open>lwiperf_tcp_close\<close>: the session leaves the list, reports, gives its handle back (a
  connection loses its callbacks and is closed, or aborted when the close fails; a
  listener is closed, and the close must succeed), and is released.
\<close>

definition add_call :: "lwiperf_call \<Rightarrow> lwiperf_globals \<Rightarrow> lwiperf_globals" where
  "add_call e g = g\<lparr>calls := calls g @ [e]\<rparr>"

definition lwiperf_tcp_close ::
  "ptr \<Rightarrow> lwiperf_report_type \<Rightarrow> lwiperf_globals \<Rightarrow> lwiperf_globals option" where
  "lwiperf_tcp_close conn report_type g =
     do {
       g1 \<leftarrow> lwiperf_list_remove conn g;
       c \<leftarrow> sessions g1 conn;
       let g2 = (case lwip_tcp_conn_report (sys_now g1) (Some c) report_type of
                   None \<Rightarrow> g1
                 | Some r \<Rightarrow> add_call (ReportFn r) g1);
       g3 \<leftarrow> (if conn_pcb c \<noteq> NULL
               then (let g2 = add_call (TcpCallbacksCleared (conn_pcb c)) g2
                     in if tcp_close_result g2 (conn_pcb c) \<noteq> ERR_OK
                        then Some (add_call (TcpAbort (conn_pcb c))
                                     (add_call (TcpClose (conn_pcb c)) g2))
                        else Some (add_call (TcpClose (conn_pcb c)) g2))
               else if server_pcb c \<noteq> NULL
               then (if tcp_close_result g2 (server_pcb c) \<noteq> ERR_OK then None
                     else Some (add_call (TcpClose (server_pcb c)) g2))
               else Some g2);
       Some (add_call (MemFree conn) (g3\<lparr>sessions := (sessions g3)(conn := None)\<rparr>))
     }"

text \<open>
  \<^verbatim>\<open>lwiperf_udp_close\<close>: the session reports, leaves the list, releases a held report,
  removes its socket, and is released. The report of a session without a socket reads
  the socket of its master, through \<^verbatim>\<open>related_master_state\<close>. Leaving the multicast group
  of the socket (lines 1097-1109) is not recorded among the calls.
\<close>

definition lwiperf_udp_close ::
  "ptr \<Rightarrow> lwiperf_report_type \<Rightarrow> lwiperf_globals \<Rightarrow> lwiperf_globals option" where
  "lwiperf_udp_close conn report_type g =
     do {
       c \<leftarrow> sessions g conn;
       master \<leftarrow> (if report_fn c \<noteq> NULL \<and> pcb c = NULL \<and> related_master_state c \<noteq> NULL
                  then (case sessions g (related_master_state c) of
                          None \<Rightarrow> None
                        | Some s \<Rightarrow> Some (Some s))
                  else Some None);
       let g1 = (case lwip_udp_conn_report (sys_now g) (Some c) master report_type of
                   None \<Rightarrow> g
                 | Some r \<Rightarrow> add_call (ReportFn r) g);
       g2 \<leftarrow> lwiperf_list_remove conn g1;
       c2 \<leftarrow> sessions g2 conn;
       let g3 = (if reported c2 \<noteq> NULL then add_call (PbufFreeReported (reported c2)) g2 else g2);
       let g4 = (if pcb c2 \<noteq> NULL then add_call (UdpRemove (pcb c2)) g3 else g3);
       Some (add_call (MemFree conn) (g4\<lparr>sessions := (sessions g4)(conn := None)\<rparr>))
     }"

text \<open>
  The loop of \<^verbatim>\<open>lwiperf_abort\<close> (lines 1900-1917), at the node \<^verbatim>\<open>i\<close> with \<^verbatim>\<open>last'\<close> (the C variable \<^verbatim>\<open>last\<close>) the last
  node that was kept. A node is closed when it is the session given, when its master is,
  or when the master it remembers as deallocated is.
\<close>

partial_function (option) abort_loop ::
  "ptr \<Rightarrow> ptr \<Rightarrow> ptr \<Rightarrow> lwiperf_globals \<Rightarrow> lwiperf_globals option" where
  "abort_loop lwiperf_session last' i g =
     (if i = NULL then Some g
      else
        (case sessions g i of
           None \<Rightarrow> None
         | Some c \<Rightarrow>
             if i = lwiperf_session \<or> related_master_state c = lwiperf_session
                \<or> deallocated_master_state_address c = lwiperf_session
             then
               (let dealloc = i; i' = nxt c
                in do {
                     g1 \<leftarrow> (if last' \<noteq> NULL
                             then (case sessions g last' of
                                     None \<Rightarrow> None
                                   | Some lc \<Rightarrow>
                                       Some (g\<lparr>sessions := (sessions g)(last' \<mapsto> lc\<lparr>nxt := i'\<rparr>)\<rparr>))
                             else Some g);
                     g2 \<leftarrow> (if tcp c \<noteq> 0
                             then lwiperf_tcp_close dealloc LWIPERF_TCP_ABORTED_LOCAL g1
                             else lwiperf_udp_close dealloc LWIPERF_UDP_ABORTED_LOCAL g1);
                     abort_loop lwiperf_session last' i' g2
                   })
             else abort_loop lwiperf_session i (nxt c) g))"

declare abort_loop.simps [code]

definition lwiperf_abort :: "ptr \<Rightarrow> lwiperf_globals \<Rightarrow> lwiperf_globals option" where
  "lwiperf_abort lwiperf_session g =
     abort_loop lwiperf_session NULL (lwiperf_all_connections g) g"

text \<open>
  \<^verbatim>\<open>registered g xs\<close>: following \<^verbatim>\<open>next\<close> from the head of the list visits the allocated
  sessions \<^verbatim>\<open>xs\<close>, in this order, and then reaches \<^verbatim>\<open>NULL\<close>.
\<close>

fun list_path :: "(ptr \<Rightarrow> lwiperf_state option) \<Rightarrow> ptr \<Rightarrow> ptr list \<Rightarrow> ptr \<Rightarrow> bool" where
  "list_path m p [] q = (p = q)"
| "list_path m p (x # xs) q =
     (p = x \<and> x \<noteq> NULL \<and> (case m x of None \<Rightarrow> False | Some c \<Rightarrow> list_path m (nxt c) xs q))"

definition registered :: "lwiperf_globals \<Rightarrow> ptr list \<Rightarrow> bool" where
  "registered g xs = list_path (sessions g) (lwiperf_all_connections g) xs NULL"

text \<open>
  The notions below are not functions of lwiperf.c: they describe what its list functions
  do to the sessions. \<^verbatim>\<open>clear_master item c\<close> is the session \<^verbatim>\<open>c\<close> after the \<^verbatim>\<open>if\<close> of lines
  324-328, \<^verbatim>\<open>clear_masters\<close> applies it to the sessions of a set of addresses, and \<^verbatim>\<open>set_nxt\<close>
  writes the \<^verbatim>\<open>next\<close> of one session.
\<close>

definition clear_master :: "ptr \<Rightarrow> lwiperf_state \<Rightarrow> lwiperf_state" where
  "clear_master item c =
     (if related_master_state c = item
      then c\<lparr>related_master_state := NULL, deallocated_master_state_address := item\<rparr>
      else c)"

definition clear_masters ::
  "ptr \<Rightarrow> ptr set \<Rightarrow> (ptr \<Rightarrow> lwiperf_state option) \<Rightarrow> ptr \<Rightarrow> lwiperf_state option" where
  "clear_masters item S m = (\<lambda>p. if p \<in> S then map_option (clear_master item) (m p) else m p)"

definition set_nxt ::
  "ptr \<Rightarrow> ptr \<Rightarrow> (ptr \<Rightarrow> lwiperf_state option) \<Rightarrow> ptr \<Rightarrow> lwiperf_state option" where
  "set_nxt p n m = (case m p of None \<Rightarrow> m | Some c \<Rightarrow> m(p \<mapsto> c\<lparr>nxt := n\<rparr>))"

text \<open>
  \<^verbatim>\<open>unlink pred n g\<close>: lines 334-338, the head of the list or the \<^verbatim>\<open>next\<close> of the node before
  the item becomes \<^verbatim>\<open>n\<close>. \<^verbatim>\<open>relink last' n g\<close>: lines 1905-1907 of \<^verbatim>\<open>lwiperf_abort\<close>, which
  write only when a node was kept before.
\<close>

definition unlink :: "ptr \<Rightarrow> ptr \<Rightarrow> lwiperf_globals \<Rightarrow> lwiperf_globals" where
  "unlink pred n g =
     (if pred = NULL then g\<lparr>lwiperf_all_connections := n\<rparr>
      else g\<lparr>sessions := set_nxt pred n (sessions g)\<rparr>)"

definition relink :: "ptr \<Rightarrow> ptr \<Rightarrow> lwiperf_globals \<Rightarrow> lwiperf_globals" where
  "relink last' n g = (if last' \<noteq> NULL then g\<lparr>sessions := set_nxt last' n (sessions g)\<rparr> else g)"

text \<open>The sessions released by a sequence of calls, in order.\<close>

fun freed :: "lwiperf_call list \<Rightarrow> ptr list" where
  "freed [] = []"
| "freed (MemFree p # cs) = p # freed cs"
| "freed (e # cs) = freed cs"

text \<open>
  The fields of a session that its close and its report read; they are untouched when
  \<^verbatim>\<open>lwiperf_list_remove\<close> clears the master of a session and rewrites its \<^verbatim>\<open>next\<close>.
\<close>

definition same_handles :: "lwiperf_state \<Rightarrow> lwiperf_state \<Rightarrow> bool" where
  "same_handles c c' =
     (tcp c' = tcp c \<and> conn_pcb c' = conn_pcb c \<and> server_pcb c' = server_pcb c
      \<and> pcb c' = pcb c \<and> reported c' = reported c \<and> report_fn c' = report_fn c
      \<and> report_arg c' = report_arg c \<and> time_started c' = time_started c
      \<and> bytes_transferred c' = bytes_transferred c
      \<and> remote_addr c' = remote_addr c \<and> remote_port c' = remote_port c)"

text \<open>The close that \<^verbatim>\<open>lwiperf_abort\<close> chooses for a session (lines 1908-1912).\<close>

definition close_of :: "lwiperf_state \<Rightarrow> ptr \<Rightarrow> lwiperf_globals \<Rightarrow> lwiperf_globals option" where
  "close_of c r g =
     (if tcp c \<noteq> 0 then lwiperf_tcp_close r LWIPERF_TCP_ABORTED_LOCAL g
      else lwiperf_udp_close r LWIPERF_UDP_ABORTED_LOCAL g)"

text \<open>
  \<^verbatim>\<open>session_matches h g p\<close>: the test of lines 1901-1902 on the allocated session at \<^verbatim>\<open>p\<close>.
\<close>

definition session_matches :: "ptr \<Rightarrow> lwiperf_globals \<Rightarrow> ptr \<Rightarrow> bool" where
  "session_matches h g p =
     (case sessions g p of
        None \<Rightarrow> False
      | Some c \<Rightarrow> p = h \<or> related_master_state c = h \<or> deallocated_master_state_address c = h)"

text \<open>
  A well-formed list: \<^verbatim>\<open>next\<close> leads from the head through allocated sessions to \<^verbatim>\<open>NULL\<close>, and
  every session on it
  \<^item> that has a master has an allocated one and remembers no deallocated master
    (\<^verbatim>\<open>lwiperf_list_remove\<close> is the only writer of \<^verbatim>\<open>deallocated_master_state_address\<close>, and it
    clears the master in the same step);
  \<^item> that is a UDP session with a master has a UDP session as its master (the master of
    a UDP session is set in \<^verbatim>\<open>lwiperf_udp_new_client\<close> and \<^verbatim>\<open>lwiperf_start_udp_client\<close>, or copied
    from a UDP session in \<^verbatim>\<open>lwiperf_udp_tx_new\<close>, and is a UDP session each time; the report
    of a UDP session reads its master as one);
  \<^item> that is a TCP listener has a handle that \<^verbatim>\<open>tcp_close\<close> accepts (the assertion of
    line 406).
\<close>

definition session_ok :: "lwiperf_globals \<Rightarrow> lwiperf_state \<Rightarrow> bool" where
  "session_ok g c =
     ((related_master_state c \<noteq> NULL
         \<longrightarrow> deallocated_master_state_address c = NULL
             \<and> (case sessions g (related_master_state c) of
                   None \<Rightarrow> False
                 | Some s \<Rightarrow> tcp c = 0 \<longrightarrow> tcp s = 0))
      \<and> (tcp c \<noteq> 0 \<and> conn_pcb c = NULL \<and> server_pcb c \<noteq> NULL
         \<longrightarrow> tcp_close_result g (server_pcb c) = ERR_OK))"

definition well_formed :: "lwiperf_globals \<Rightarrow> ptr list \<Rightarrow> bool" where
  "well_formed g xs =
     (registered g xs
      \<and> (\<forall>p\<in>set xs. case sessions g p of None \<Rightarrow> False | Some c \<Rightarrow> session_ok g c))"


text \<open>
  The calls that \<^verbatim>\<open>lwiperf_abort\<close> makes when it closes the session at \<^verbatim>\<open>p\<close>, read off the
  state \<^verbatim>\<open>g\<close> in which \<^verbatim>\<open>lwiperf_abort\<close> starts; \<^verbatim>\<open>earlier\<close> are the sessions it has closed
  before. A TCP session (\<^verbatim>\<open>lwiperf_tcp_close\<close>, lines 390-408) reports
  \<^verbatim>\<open>LWIPERF_TCP_ABORTED_LOCAL\<close> if it has a callback, clears the callbacks of its
  connection and closes it (and aborts it when the close fails) or else closes its
  listener, and is released. A UDP session
  (\<^verbatim>\<open>lwiperf_udp_close\<close>, lines 1090-1113) reports \<^verbatim>\<open>LWIPERF_UDP_ABORTED_LOCAL\<close> if it has a
  callback, frees a held report, removes its socket, and is released. The report of a
  UDP session without a socket names the socket of its master, unless the master was
  closed earlier in the traversal: then \<^verbatim>\<open>lwiperf_list_remove\<close> has cleared the reference.
\<close>

definition master_of :: "lwiperf_globals \<Rightarrow> ptr set \<Rightarrow> lwiperf_state \<Rightarrow> lwiperf_state option" where
  "master_of g earlier c =
     (if related_master_state c \<noteq> NULL \<and> related_master_state c \<notin> earlier
      then sessions g (related_master_state c)
      else None)"

definition close_calls :: "lwiperf_globals \<Rightarrow> ptr set \<Rightarrow> ptr \<Rightarrow> lwiperf_call list" where
  "close_calls g earlier p =
     (case sessions g p of
        None \<Rightarrow> []
      | Some c \<Rightarrow>
          if tcp c \<noteq> 0
          then (case lwip_tcp_conn_report (sys_now g) (Some c) LWIPERF_TCP_ABORTED_LOCAL of
                  None \<Rightarrow> []
                | Some r \<Rightarrow> [ReportFn r])
               @ (if conn_pcb c \<noteq> NULL
                  then TcpCallbacksCleared (conn_pcb c) # TcpClose (conn_pcb c)
                       # (if tcp_close_result g (conn_pcb c) \<noteq> ERR_OK
                          then [TcpAbort (conn_pcb c)] else [])
                  else if server_pcb c \<noteq> NULL then [TcpClose (server_pcb c)]
                  else [])
               @ [MemFree p]
          else (case lwip_udp_conn_report (sys_now g) (Some c) (master_of g earlier c)
                       LWIPERF_UDP_ABORTED_LOCAL of
                  None \<Rightarrow> []
                | Some r \<Rightarrow> [ReportFn r])
               @ (if reported c \<noteq> NULL then [PbufFreeReported (reported c)] else [])
               @ (if pcb c \<noteq> NULL then [UdpRemove (pcb c)] else [])
               @ [MemFree p])"

text \<open>
  The calls of the closes of the sessions of a list that match the handle \<^verbatim>\<open>h\<close>, in the
  order of the list.
\<close>

fun abort_calls :: "ptr \<Rightarrow> lwiperf_globals \<Rightarrow> ptr set \<Rightarrow> ptr list \<Rightarrow> lwiperf_call list" where
  "abort_calls h g earlier [] = []"
| "abort_calls h g earlier (p # ps) =
     (if session_matches h g p
      then close_calls g earlier p @ abort_calls h g (insert p earlier) ps
      else abort_calls h g earlier ps)"

section \<open>Sample inputs\<close>

text \<open>
  Concrete sessions and datagrams, used where a statement is evaluated on an input.
  \<^verbatim>\<open>sample_datagram k s us\<close> is a datagram of 1470 bytes that carries the sequence number
  \<^verbatim>\<open>k\<close> and the send time \<^verbatim>\<open>s\<close> seconds and \<^verbatim>\<open>us\<close> microseconds. \<^verbatim>\<open>sample_receiver\<close> is a
  server-side UDP session that holds settings and has all its counters at zero.
\<close>

definition report_zero :: lwiperf_udp_report where
  "report_zero =
     \<lparr>lwiperf_udp_report.flags = 0, total_len1 = 0, total_len2 = 0, stop_sec = 0,
      stop_usec = 0, error_cnt = 0, outorder_cnt = 0, datagrams = 0, jitter1 = 0,
      jitter2 = 0\<rparr>"

definition sample_datagram :: "u32 \<Rightarrow> u32 \<Rightarrow> u32 \<Rightarrow> udp_pbuf" where
  "sample_datagram k s us =
     \<lparr>pkt = \<lparr>dgram_id = lwip_htonl k, tv_sec = lwip_htonl s, tv_usec = lwip_htonl us,
             dgram_id2 = 0\<rparr>,
      hdr = report_zero, tot_len = 1470\<rparr>"

definition sample_receiver :: lwiperf_state where
  "sample_receiver = lwiperf_state_zero\<lparr>server := 1, have_settings_buf := 1\<rparr>"

text \<open>
  A UDP server on the socket 7, at the address 64, and the session that
  \<^verbatim>\<open>lwiperf_udp_new_client\<close> creates at the tick 5 for a new peer of it: \<^verbatim>\<open>fresh_receiver\<close> has
  no settings yet, so the first datagram of the peer is its handshake.
\<close>

definition sample_udp_server :: lwiperf_state where
  "sample_udp_server = lwiperf_state_zero\<lparr>server := 1, pcb := 7, report_fn := 5\<rparr>"

definition fresh_receiver :: lwiperf_state where
  "fresh_receiver = lwiperf_udp_new_client 5 64 sample_udp_server"

text \<open>
  The surroundings of a plain test: the peer 192.168.0.2, port 50000, sends a settings
  record without flags, and both copies out of the datagram are complete.
  \<^verbatim>\<open>reverse_request_env\<close> is the same with a peer that asks for a reverse test.
\<close>

definition sample_recv_env :: udp_recv_env where
  "sample_recv_env =
     \<lparr>recv_arg_server = 1, recv_addr = IPv4 0xC0A80002, recv_port = 50000, recv_sys_now = 10,
      recv_udp_settings = settings_zero,
      recv_copied_settings = 24, recv_copied_ext = 36,
      recv_tx_reverse_start = Inr ERR_OK, recv_tx_start = Inr ERR_OK\<rparr>"

definition reverse_request_env :: udp_recv_env where
  "reverse_request_env =
     sample_recv_env\<lparr>recv_udp_settings := settings_zero
       \<lparr>base := (base settings_zero)\<lparr>flags := lwip_htonl LWIPERF_FLAGS_EXTEND\<rparr>,
        eflags := lwip_htonl LWIPERF_EFLAGS_REVERSE,
        rate := lwip_htonl 1000000\<rparr>\<rparr>"

text \<open>A datagram of 20 bytes with the sequence number 0: too short for a settings record.\<close>

definition short_datagram :: udp_pbuf where
  "short_datagram = (sample_datagram 0 0 0)\<lparr>tot_len := 20\<rparr>"

text \<open>The transit time the callback computes for the datagram \<^verbatim>\<open>p\<close> that arrives at \<^verbatim>\<open>now\<close>.\<close>

definition datagram_transit :: "u32 \<Rightarrow> udp_pbuf \<Rightarrow> u32" where
  "datagram_transit now p =
     udp_transit \<lparr>timespec.tv_sec = lwip_ntohl (UDP_datagram.tv_sec (pkt p)),
                  tv_nsec = lwip_ntohl (tv_usec (pkt p)) * 1000\<rparr> (clock_gettime now)"

text \<open>Five datagrams with the sequence numbers 0, 1, 3, 2, 4.\<close>

definition out_of_order_run :: "(u32 \<times> udp_pbuf) list" where
  "out_of_order_run =
     [(10, sample_datagram 0 0 0), (20, sample_datagram 1 0 0), (30, sample_datagram 3 0 0),
      (40, sample_datagram 2 0 0), (50, sample_datagram 4 0 0)]"

text \<open>
  Three datagrams in order: sent at 0.999 s, 1.000 s and 1.002 s, arriving at the ticks
  1000, 1002 and 1004 (milliseconds), so in transit for 1000, 2000 and 2000 microseconds.
\<close>

definition jitter_run :: "(u32 \<times> udp_pbuf) list" where
  "jitter_run =
     [(1000, sample_datagram 0 0 999000), (1002, sample_datagram 1 1 0),
      (1004, sample_datagram 2 1 2000)]"

text \<open>
  A server-side UDP session whose peer asked for a simultaneous return test with extended
  settings and sent the rate 0.
\<close>

definition peer_rate_zero_session :: lwiperf_state where
  "peer_rate_zero_session =
     sample_receiver\<lparr>settings := settings_zero
       \<lparr>base := (base settings_zero)
          \<lparr>flags := lwip_htonl (LWIPERF_FLAGS_EXTEND OR LWIPERF_FLAGS_ANSWER_TEST
                                   OR LWIPERF_FLAGS_ANSWER_NOW)\<rparr>\<rparr>\<rparr>"

text \<open>
  Three sessions with 1000 bytes transferred since the tick 0: a TCP session on the
  connection 9 with a report callback, the same session after the error callback of the
  transport has cleared its handles, and the first one without a callback.
\<close>

definition connected_tcp_session :: lwiperf_state where
  "connected_tcp_session =
     lwiperf_state_zero\<lparr>tcp := 1, conn_pcb := 9, report_fn := 5, bytes_transferred := 1000\<rparr>"

definition errored_tcp_session :: lwiperf_state where
  "errored_tcp_session = connected_tcp_session\<lparr>conn_pcb := NULL, server_pcb := NULL\<rparr>"

definition silent_tcp_session :: lwiperf_state where
  "silent_tcp_session = connected_tcp_session\<lparr>report_fn := NULL\<rparr>"

text \<open>
  A TCP client whose target is 1048576 bytes, one byte short of it, and a transport that
  takes three writes and then answers \<^verbatim>\<open>ERR_MEM\<close>.
\<close>

definition near_target_tcp_client :: lwiperf_state where
  "near_target_tcp_client =
     lwiperf_state_zero\<lparr>tcp := 1, conn_pcb := 9, have_settings_buf := 1,
       bytes_transferred := 1048575,
       settings := settings_zero
         \<lparr>base := (base settings_zero)\<lparr>amount := lwip_htonl 1048576\<rparr>\<rparr>\<rparr>"

definition three_writes_env :: tcp_env where
  "three_writes_env =
     \<lparr>tcp_sys_now = 0, tcp_write = (\<lambda>n l f. if n < 3 then ERR_OK else ERR_MEM)\<rparr>"

text \<open>
  A UDP client that paces three frames of 1470 bytes per tick for 10 s, at the tick 5000,
  and surroundings where \<^verbatim>\<open>udp_send\<close> fails for the second frame of the run.
\<close>

definition failing_udp_env :: udp_env where
  "failing_udp_env =
     \<lparr>udp_sys_now = 5000, pbuf_alloc = (\<lambda>i. True),
      udp_send = (\<lambda>i. if i = 1 then ERR_MEM else ERR_OK)\<rparr>"

definition sample_udp_client :: lwiperf_state where
  "sample_udp_client =
     lwiperf_state_zero\<lparr>pcb := 7, have_settings_buf := 1, frames_per_delay := 3,
       delay_target := 1000,
       settings := settings_zero
         \<lparr>base := (base settings_zero)
            \<lparr>amount := lwip_htonl (- 1000), buffer_len := lwip_htonl 1470\<rparr>\<rparr>\<rparr>"

text \<open>
  A UDP client that has sent 147000 bytes, and the report of a server that has counted
  100000 of them.
\<close>

definition udp_client_after_send :: lwiperf_state where
  "udp_client_after_send =
     lwiperf_state_zero\<lparr>pcb := 7, have_settings_buf := 1, bytes_transferred := 147000\<rparr>"

definition server_report_datagram :: udp_pbuf where
  "server_report_datagram =
     \<lparr>pkt = \<lparr>dgram_id = lwip_htonl (- 100), tv_sec = 0, tv_usec = 0, dgram_id2 = 0\<rparr>,
      hdr = report_zero\<lparr>lwiperf_udp_report.flags := lwip_htonl LWIPERF_FLAGS_ANSWER_TEST,
                         total_len2 := lwip_htonl 100000\<rparr>,
      tot_len = 128\<rparr>"

text \<open>
  A list of four sessions: the UDP session 1 has the TCP session 2 as its master, session 3
  stands alone, and the UDP session 4 remembers session 2 as a deallocated master.
\<close>

definition sample_session :: "u8 \<Rightarrow> ptr \<Rightarrow> ptr \<Rightarrow> ptr \<Rightarrow> ptr \<Rightarrow> lwiperf_state" where
  "sample_session t n master gone cp =
     lwiperf_state_zero\<lparr>tcp := t, nxt := n, related_master_state := master,
       deallocated_master_state_address := gone, conn_pcb := cp, report_fn := 99\<rparr>"

definition sample_registry :: lwiperf_globals where
  "sample_registry =
     \<lparr>lwiperf_all_connections = 1,
      sessions = (\<lambda>p. if p = 1 then Some (sample_session 0 2 2 0 0)
                     else if p = 2 then Some (sample_session 1 3 0 0 17)
                     else if p = 3 then Some (sample_session 0 4 0 0 0)
                     else if p = 4 then Some (sample_session 0 0 0 2 0)
                     else None),
      calls = [],
      sys_now = 100,
      tcp_close_result = (\<lambda>p. ERR_OK)\<rparr>"


text \<open>
  A list of five sessions at the tick 100. Session 2 is a TCP client on the connection 17
  that has sent 1000 bytes since the tick 0, and session 1 is the listener 40 that it
  opened for the return direction of a dual test. Session 3 is a UDP server on the socket
  23 and session 4 a peer of it. Session 5 is a UDP session on the socket 29 that holds
  the report 31 and remembers a deallocated master at the address 2. The transport
  refuses the orderly close of the connection 17.
\<close>

definition abort_registry :: lwiperf_globals where
  "abort_registry =
     \<lparr>lwiperf_all_connections = 1,
      sessions =
        (\<lambda>p. if p = 1 then Some (lwiperf_state_zero\<lparr>nxt := 2, tcp := 1, server := 1,
                                   related_master_state := 2, server_pcb := 40,
                                   specific_remote := 1, report_fn := 99, report_arg := 7\<rparr>)
             else if p = 2 then Some (lwiperf_state_zero\<lparr>nxt := 3, tcp := 1, conn_pcb := 17,
                                        bytes_transferred := 1000, report_fn := 99,
                                        report_arg := 7\<rparr>)
             else if p = 3 then Some (lwiperf_state_zero\<lparr>nxt := 4, server := 1, pcb := 23,
                                        report_fn := 98\<rparr>)
             else if p = 4 then Some (lwiperf_state_zero\<lparr>nxt := 5, server := 1,
                                        related_master_state := 3, report_fn := 98\<rparr>)
             else if p = 5 then Some (lwiperf_state_zero\<lparr>nxt := NULL, pcb := 29, reported := 31,
                                        deallocated_master_state_address := 2,
                                        report_fn := 97\<rparr>)
             else None),
      calls = [],
      sys_now = 100,
      tcp_close_result = (\<lambda>p. if p = 17 then ERR_MEM else ERR_OK)\<rparr>"

section \<open>Byte order\<close>

lemma lwip_htonl_bit:
  "n < 32 \<Longrightarrow>
   bit (lwip_htonl x) n =
   bit x (if n < 8 then n + 24 else if n < 16 then n + 8 else if n < 24 then n - 8 else n - 24)"
proof -
  have m: "(0xff :: u32) = mask 8" "(0xff00 :: u32) = push_bit 8 (mask 8)"
    "(0xff0000 :: u32) = push_bit 16 (mask 8)" "(0xff000000 :: u32) = push_bit 24 (mask 8)"
    by (simp_all add: mask_eq_exp_minus_1)
  assume "n < 32"
  then show ?thesis
    unfolding lwip_htonl_def m
    by (simp add: bit_simps) (auto simp: add.commute)
qed

lemma lwip_htonl_involution: "lwip_htonl (lwip_htonl x) = x"
proof (rule bit_word_eqI)
  fix n assume "n < LENGTH(32)"
  then have n: "n < 32" by simp
  consider "n < 8" | "8 \<le> n" "n < 16" | "16 \<le> n" "n < 24" | "24 \<le> n" by linarith
  then show "bit (lwip_htonl (lwip_htonl x)) n = bit x n"
    by cases (use n in \<open>auto simp: lwip_htonl_bit\<close>)
qed

lemma lwip_ntohl_htonl: "lwip_ntohl (lwip_htonl x) = x"
  by (simp add: lwip_ntohl_def lwip_htonl_involution)

section \<open>UDP sequence tracking\<close>

text \<open>
  A handshake that lets the datagram through has taken the settings and the address of
  the peer; the role of the session and its counters are as they were.
\<close>

lemma udp_recv_handshake_keeps:
  assumes "udp_recv_handshake env p conn = Inr c"
  shows "server c = server conn" "have_settings_buf c \<noteq> 0" "udp_seq c = udp_seq conn"
    "udp_rx_lost c = udp_rx_lost conn" "udp_rx_outorder c = udp_rx_outorder conn"
    "udp_rx_total_pkt c = udp_rx_total_pkt conn" "bytes_transferred c = bytes_transferred conn"
    "jitter c = jitter conn" "udp_last_transit c = udp_last_transit conn"
  using assms
  by (auto simp: udp_recv_handshake_def Let_def split: if_splits sum.splits)

lemma udp_recv_handshake_no_data: "udp_recv_handshake env p conn \<noteq> Inl (Data c)"
  by (auto simp: udp_recv_handshake_def Let_def split: if_splits sum.splits)

lemma udp_recv_handshake_no_report: "udp_recv_handshake env p conn \<noteq> Inl (ReportSeen c)"
  by (auto simp: udp_recv_handshake_def Let_def split: if_splits sum.splits)

lemma udp_recv_ready_settings: "have_settings_buf conn \<noteq> 0 \<Longrightarrow> udp_recv_ready env p conn"
  by (simp add: udp_recv_ready_def)

text \<open>
  \<^verbatim>\<open>udp_recv_ready\<close> is the condition under which the handshake goes on to "Update stats":
  in every other case it closes the session, turns it into a sender, or ends in a fault.
\<close>

lemma udp_recv_ready_handshake:
  "udp_recv_ready env p conn \<longleftrightarrow>
     have_settings_buf conn \<noteq> 0
     \<or> (case udp_recv_handshake env p conn of Inl out \<Rightarrow> False | Inr c \<Rightarrow> True)"
  unfolding udp_recv_ready_def udp_recv_handshake_def Let_def
  by (simp split: sum.splits if_splits)

text \<open>
  The handshake lets through every datagram of a plain test: one that holds a settings
  record without flags.
\<close>

lemma udp_recv_ready_plain:
  assumes "sizeof_UDP_datagram + sizeof_settings \<le> unat (tot_len p)"
    and "unat (recv_copied_settings env) = sizeof_settings"
    and "flags (base (recv_udp_settings env)) = 0"
  shows "udp_recv_ready env p conn"
  using assms by (simp add: udp_recv_ready_def Let_def)

lemma udp_recv_ready_cases:
  assumes "udp_recv_ready env p conn"
  obtains c where "(if have_settings_buf conn = 0 then udp_recv_handshake env p conn else Inr conn)
                   = Inr c"
    and "server c = server conn" and "have_settings_buf c \<noteq> 0" and "udp_seq c = udp_seq conn"
    and "udp_rx_lost c = udp_rx_lost conn" and "udp_rx_outorder c = udp_rx_outorder conn"
    and "udp_rx_total_pkt c = udp_rx_total_pkt conn"
proof (cases "have_settings_buf conn = 0")
  case True
  with assms obtain c where c: "udp_recv_handshake env p conn = Inr c"
    by (auto simp: udp_recv_ready_handshake split: sum.splits)
  from udp_recv_handshake_keeps [OF c] c True show thesis
    by (intro that [of c]) simp_all
next
  case False
  then show thesis
    by (intro that [of conn]) simp_all
qed

text \<open>
  One datagram with a sequence number that is not negative, at a server-side session that
  has its settings or takes them from this datagram: the datagram is counted, and the
  four counters of the sequence tracking change as follows. The lost count grows by the
  distance from the expected number to the one that came, as a 32-bit difference; any
  mismatch counts as one out-of-order event.
\<close>

lemma udp_recv_data_step:
  assumes "server conn \<noteq> 0" "udp_recv_ready env p conn"
    and "0 \<le>s lwip_ntohl (dgram_id (pkt p))"
  shows "\<exists>conn'. lwiperf_udp_recv env now p conn = Data conn'
     \<and> server conn' = server conn \<and> have_settings_buf conn' \<noteq> 0
     \<and> udp_seq conn' = lwip_ntohl (dgram_id (pkt p)) + 1
     \<and> udp_rx_lost conn' = udp_rx_lost conn + (lwip_ntohl (dgram_id (pkt p)) - udp_seq conn)
     \<and> udp_rx_outorder conn' =
         udp_rx_outorder conn + (if udp_seq conn \<noteq> lwip_ntohl (dgram_id (pkt p)) then 1 else 0)
     \<and> udp_rx_total_pkt conn' = udp_rx_total_pkt conn + 1"
proof -
  from assms(2) obtain c
    where c: "(if have_settings_buf conn = 0 then udp_recv_handshake env p conn else Inr conn)
              = Inr c"
      and keeps: "server c = server conn" "have_settings_buf c \<noteq> 0" "udp_seq c = udp_seq conn"
        "udp_rx_lost c = udp_rx_lost conn" "udp_rx_outorder c = udp_rx_outorder conn"
        "udp_rx_total_pkt c = udp_rx_total_pkt conn"
    by (rule udp_recv_ready_cases)
  let ?conn' = "udp_recv_update_jitter (clock_gettime now)
                  (udp_recv_update_stats (lwip_ntohl (dgram_id (pkt p))) p c)"
  have "lwiperf_udp_recv env now p conn = Data ?conn'"
    unfolding lwiperf_udp_recv_def Let_def c using assms(1,3) by simp
  moreover have "server ?conn' = server conn" "have_settings_buf ?conn' \<noteq> 0"
    "udp_seq ?conn' = lwip_ntohl (dgram_id (pkt p)) + 1"
    "udp_rx_lost ?conn' = udp_rx_lost conn + (lwip_ntohl (dgram_id (pkt p)) - udp_seq conn)"
    "udp_rx_outorder ?conn' =
       udp_rx_outorder conn + (if udp_seq conn \<noteq> lwip_ntohl (dgram_id (pkt p)) then 1 else 0)"
    "udp_rx_total_pkt ?conn' = udp_rx_total_pkt conn + 1"
    using keeps by (simp_all add: udp_recv_update_stats_def udp_recv_update_jitter_def Let_def)
  ultimately show ?thesis
    by blast
qed

lemma sint_of_nat_small: "k < 2 ^ 31 \<Longrightarrow> sint (of_nat k :: 32 word) = int k"
  by (simp add: signed_of_nat signed_take_bit_int_eq_self)

lemma sle_of_nat_small: "k < 2 ^ 31 \<Longrightarrow> 0 \<le>s (of_nat k :: 32 word)"
  by (simp add: word_sle_eq sint_of_nat_small)

lemma udp_recv_in_order_run:
  assumes "server conn \<noteq> 0" "have_settings_buf conn \<noteq> 0"
    and "map (\<lambda>d. lwip_ntohl (dgram_id (pkt (snd d)))) ds = map of_nat [k..<k + n]"
    and "k + n \<le> 2 ^ 31" and "udp_seq conn = of_nat k"
  shows "\<exists>conn'. udp_recv_seq env ds conn = Some conn'
     \<and> udp_rx_lost conn' = udp_rx_lost conn \<and> udp_rx_outorder conn' = udp_rx_outorder conn
     \<and> udp_rx_total_pkt conn' = udp_rx_total_pkt conn + of_nat n"
  using assms
proof (induction n arbitrary: ds conn k)
  case 0
  then show ?case by simp
next
  case (Suc n)
  have upt: "[k..<k + Suc n] = k # [Suc k..<Suc k + n]"
    by (simp add: upt_conv_Cons del: upt_Suc)
  from Suc.prems(3) obtain d ds' where ds: "ds = d # ds'"
    and d: "lwip_ntohl (dgram_id (pkt (snd d))) = of_nat k"
    and ds': "map (\<lambda>d. lwip_ntohl (dgram_id (pkt (snd d)))) ds' = map of_nat [Suc k..<Suc k + n]"
    unfolding upt by auto
  have k: "k < 2 ^ 31" using Suc.prems(4) by simp
  have nonneg: "0 \<le>s lwip_ntohl (dgram_id (pkt (snd d)))"
    using k by (simp add: d sle_of_nat_small)
  from udp_recv_data_step [OF Suc.prems(1) udp_recv_ready_settings [OF Suc.prems(2)] nonneg,
      of env "fst d"]
  obtain c where c: "lwiperf_udp_recv env (fst d) (snd d) conn = Data c"
    "server c = server conn" "have_settings_buf c \<noteq> 0"
    "udp_seq c = of_nat k + 1" "udp_rx_lost c = udp_rx_lost conn"
    "udp_rx_outorder c = udp_rx_outorder conn" "udp_rx_total_pkt c = udp_rx_total_pkt conn + 1"
    using d Suc.prems(5) by auto
  have "\<exists>conn'. udp_recv_seq env ds' c = Some conn'
     \<and> udp_rx_lost conn' = udp_rx_lost c \<and> udp_rx_outorder conn' = udp_rx_outorder c
     \<and> udp_rx_total_pkt conn' = udp_rx_total_pkt c + of_nat n"
    using Suc.IH [of c ds' "Suc k"] c Suc.prems ds' by simp
  then show ?case
    using c ds by (cases d) (auto simp: add.assoc)
qed

lemma udp_recv_seq_step:
  assumes "server conn \<noteq> 0" "udp_recv_ready env (snd d) conn"
    and "lwip_ntohl (dgram_id (pkt (snd d))) = k" and "0 \<le>s k"
  obtains conn' where "udp_recv_seq env (d # ds) conn = udp_recv_seq env ds conn'"
    and "server conn' \<noteq> 0" and "have_settings_buf conn' \<noteq> 0"
    and "udp_seq conn' = k + 1"
    and "udp_rx_lost conn' = udp_rx_lost conn + (k - udp_seq conn)"
    and "udp_rx_outorder conn' = udp_rx_outorder conn + (if udp_seq conn \<noteq> k then 1 else 0)"
    and "udp_rx_total_pkt conn' = udp_rx_total_pkt conn + 1"
proof -
  from assms(3,4) have "0 \<le>s lwip_ntohl (dgram_id (pkt (snd d)))" by simp
  from udp_recv_data_step [OF assms(1,2) this, of "fst d"] assms(1,3)
  obtain c where "lwiperf_udp_recv env (fst d) (snd d) conn = Data c"
    "server c \<noteq> 0" "have_settings_buf c \<noteq> 0" "udp_seq c = k + 1"
    "udp_rx_lost c = udp_rx_lost conn + (k - udp_seq conn)"
    "udp_rx_outorder c = udp_rx_outorder conn + (if udp_seq conn \<noteq> k then 1 else 0)"
    "udp_rx_total_pkt c = udp_rx_total_pkt conn + 1"
    by auto
  then show thesis
    by (intro that [of c]) (cases d; simp)+
qed

lemmas udp_eval_defs =
  sample_datagram_def sample_receiver_def lwiperf_state_zero_def lwiperf_udp_recv_def
  udp_recv_update_stats_def udp_recv_update_jitter_def udp_transit_def lwip_ntohl_htonl
  clock_gettime_def diff_ts_def long_div_def Let_def word_sle_eq word_sless_alt

lemmas udp_handshake_eval_defs =
  fresh_receiver_def lwiperf_udp_new_client_def sample_udp_server_def sample_recv_env_def
  udp_recv_handshake_def settings_zero_def sizeof_UDP_datagram_def sizeof_settings_def
  sizeof_settings_ext_def

lemma fresh_receiver_fresh:
  "server fresh_receiver \<noteq> 0"
  "udp_seq fresh_receiver = 0" "udp_rx_lost fresh_receiver = 0"
  "udp_rx_outorder fresh_receiver = 0" "udp_rx_total_pkt fresh_receiver = 0"
  by (simp_all add: fresh_receiver_def lwiperf_udp_new_client_def lwiperf_state_zero_def)

lemma fresh_receiver_no_settings: "have_settings_buf fresh_receiver = 0"
  by (simp add: fresh_receiver_def lwiperf_udp_new_client_def lwiperf_state_zero_def)

lemma fresh_receiver_ready: "udp_recv_ready sample_recv_env (sample_datagram k s us) fresh_receiver"
  by (rule udp_recv_ready_plain)
    (simp_all add: sample_datagram_def sample_recv_env_def settings_zero_def
      sizeof_UDP_datagram_def sizeof_settings_def)

lemma short_datagram_closes:
  "lwiperf_udp_recv sample_recv_env 10 short_datagram fresh_receiver
   = CloseSession LWIPERF_UDP_ABORTED_LOCAL_DATAERROR"
  by (simp add: short_datagram_def udp_eval_defs udp_handshake_eval_defs)

lemma reverse_request_turns_sender:
  "lwiperf_udp_recv reverse_request_env 10 (sample_datagram 0 0 0) fresh_receiver = ReverseStarted"
  by (simp add: reverse_request_env_def udp_eval_defs udp_handshake_eval_defs)
    (simp add: LWIPERF_FLAGS_EXTEND_def LWIPERF_EFLAGS_REVERSE_def lwip_htonl_def)

text \<open>
  C7, as the code has it. A fresh receiver (a server-side session with the expected
  number 0 and all counters 0, with or without settings) gets \<^verbatim>\<open>N\<close> datagrams whose
  sequence numbers are 0, 1, ..., N-1 in this order. A session without settings takes
  the first datagram as its handshake; when the handshake lets that datagram through, it
  is counted in the same run, every later one is counted too, and afterwards the loss
  count is 0, the out-of-order count is 0 and the count of received datagrams is \<^verbatim>\<open>N\<close>. The
  sequence number of a counted datagram is a non-negative signed 32-bit value, so \<^verbatim>\<open>N\<close> is
  at most \<^verbatim>\<open>2^31\<close>.
\<close>

theorem udp_in_order_no_loss:
  assumes "server conn \<noteq> 0"
    and "udp_seq conn = 0" "udp_rx_lost conn = 0" "udp_rx_outorder conn = 0"
        "udp_rx_total_pkt conn = 0"
    and "N \<le> 2 ^ 31"
    and "map (\<lambda>d. lwip_ntohl (dgram_id (pkt (snd d)))) ds = map of_nat [0..<N]"
    and "ds \<noteq> [] \<longrightarrow> udp_recv_ready env (snd (hd ds)) conn"
  shows "\<exists>conn'. udp_recv_seq env ds conn = Some conn'
     \<and> udp_rx_lost conn' = 0 \<and> udp_rx_outorder conn' = 0
     \<and> unat (udp_rx_total_pkt conn') = N"
proof (cases N)
  case 0
  with assms show ?thesis by simp
next
  case (Suc n)
  have upt: "[0..<Suc n] = 0 # [1..<1 + n]"
    by (simp add: upt_conv_Cons del: upt_Suc)
  from assms(7) obtain d ds' where ds: "ds = d # ds'"
    and d: "lwip_ntohl (dgram_id (pkt (snd d))) = 0"
    and ds': "map (\<lambda>d. lwip_ntohl (dgram_id (pkt (snd d)))) ds' = map of_nat [1..<1 + n]"
    unfolding Suc upt by auto
  have ready: "udp_recv_ready env (snd d) conn"
    using assms(8) ds by simp
  have nonneg: "0 \<le>s (0 :: 32 word)"
    by (simp add: word_sle_eq)
  from udp_recv_seq_step [OF assms(1) ready d nonneg, of ds']
  obtain c where c: "udp_recv_seq env ds conn = udp_recv_seq env ds' c"
    "server c \<noteq> 0" "have_settings_buf c \<noteq> 0" "udp_seq c = 1" "udp_rx_lost c = 0"
    "udp_rx_outorder c = 0" "udp_rx_total_pkt c = 1"
    using assms(2-5) ds by auto
  have n: "1 + n \<le> 2 ^ 31"
    using assms(6) Suc by simp
  from udp_recv_in_order_run [OF c(2,3) ds' n, of env] c(4)
  obtain conn' where conn': "udp_recv_seq env ds' c = Some conn'"
    "udp_rx_lost conn' = 0" "udp_rx_outorder conn' = 0" "udp_rx_total_pkt conn' = 1 + of_nat n"
    using c(5-7) by auto
  have "unat (of_nat (Suc n) :: 32 word) = Suc n"
    using n by (simp add: unat_of_nat del: of_nat_Suc)
  then have "unat (udp_rx_total_pkt conn') = N"
    using conn'(4) Suc by simp
  with c(1) conn' show ?thesis
    by simp
qed

theorem udp_in_order_no_loss_witness:
  "have_settings_buf fresh_receiver = 0 \<and> server fresh_receiver \<noteq> 0
   \<and> udp_seq fresh_receiver = 0 \<and> udp_rx_lost fresh_receiver = 0
   \<and> udp_rx_outorder fresh_receiver = 0 \<and> udp_rx_total_pkt fresh_receiver = 0
   \<and> (3::nat) \<le> 2 ^ 31
   \<and> map (\<lambda>d. lwip_ntohl (dgram_id (pkt (snd d))))
        [(10, sample_datagram 0 0 0), (20, sample_datagram 1 0 0), (30, sample_datagram 2 0 0)]
      = map of_nat [0..<3]
   \<and> udp_recv_ready sample_recv_env (sample_datagram 0 0 0) fresh_receiver
   \<and> (\<exists>conn'. udp_recv_seq sample_recv_env
          [(10, sample_datagram 0 0 0), (20, sample_datagram 1 0 0), (30, sample_datagram 2 0 0)]
          fresh_receiver = Some conn'
        \<and> udp_rx_lost conn' = 0 \<and> udp_rx_outorder conn' = 0
        \<and> unat (udp_rx_total_pkt conn') = 3)"
proof -
  note h = fresh_receiver_fresh
  have n: "(3::nat) \<le> 2 ^ 31" by simp
  have ids: "map (\<lambda>d. lwip_ntohl (dgram_id (pkt (snd d))))
        [(10, sample_datagram 0 0 0), (20, sample_datagram 1 0 0), (30, sample_datagram 2 0 0)]
      = map of_nat [0..<3]"
    by (simp add: sample_datagram_def lwip_ntohl_htonl upt_conv_Cons)
  have ready: "udp_recv_ready sample_recv_env (sample_datagram 0 0 0) fresh_receiver"
    by (rule fresh_receiver_ready)
  then have ready':
    "[(10 :: u32, sample_datagram 0 0 0), (20, sample_datagram 1 0 0), (30, sample_datagram 2 0 0)]
       \<noteq> []
     \<longrightarrow> udp_recv_ready sample_recv_env
          (snd (hd [(10 :: u32, sample_datagram 0 0 0), (20, sample_datagram 1 0 0),
                    (30, sample_datagram 2 0 0)])) fresh_receiver"
    by simp
  from udp_in_order_no_loss [OF h n ids ready'] h n ids ready fresh_receiver_no_settings
  show ?thesis by blast
qed

text \<open>
  C7, as the claim states it, fails where the handshake does not let the first datagram
  through. A first datagram of 20 bytes with the sequence number 0 is too short for a
  settings record: the fresh receiver is closed as a data error and has received nothing.
  A first datagram that asks for a reverse test turns the fresh receiver into a sender,
  and is not counted either.
\<close>

theorem udp_in_order_no_loss_counterexample:
  "have_settings_buf fresh_receiver = 0
   \<and> lwip_ntohl (dgram_id (pkt short_datagram)) = 0
   \<and> lwiperf_udp_recv sample_recv_env 10 short_datagram fresh_receiver
       = CloseSession LWIPERF_UDP_ABORTED_LOCAL_DATAERROR
   \<and> \<not> (\<exists>conn'. udp_recv_seq sample_recv_env [(10, short_datagram)] fresh_receiver = Some conn'
            \<and> udp_rx_lost conn' = 0 \<and> udp_rx_outorder conn' = 0
            \<and> unat (udp_rx_total_pkt conn') = 1)
   \<and> lwiperf_udp_recv reverse_request_env 10 (sample_datagram 0 0 0) fresh_receiver
       = ReverseStarted"
  using short_datagram_closes reverse_request_turns_sender fresh_receiver_no_settings
  by (simp add: short_datagram_def sample_datagram_def lwip_ntohl_htonl)

lemma out_of_order_run_ids:
  "map (\<lambda>d. lwip_ntohl (dgram_id (pkt (snd d)))) out_of_order_run = [0, 1, 3, 2, 4]"
  by (simp add: out_of_order_run_def sample_datagram_def lwip_ntohl_htonl)

lemma out_of_order_run_ready:
  "udp_recv_ready sample_recv_env (snd (hd out_of_order_run)) fresh_receiver"
  by (simp add: out_of_order_run_def fresh_receiver_ready)

lemma out_of_order_run_counts:
  "\<exists>conn'. udp_recv_seq sample_recv_env out_of_order_run fresh_receiver = Some conn'
     \<and> udp_rx_lost conn' = 0 \<and> udp_rx_outorder conn' = 3 \<and> udp_rx_total_pkt conn' = 5"
  by (simp add: out_of_order_run_def udp_eval_defs udp_handshake_eval_defs)

text \<open>
  C1, as the code has it. A fresh receiver (a server-side session with the expected
  number 0 and all counters 0, with or without settings) gets five datagrams with the
  sequence numbers 0, 1, 3, 2, 4 in this order, the first of which its handshake lets
  through. Every mismatch with the expected number counts as one out-of-order event and
  adds the 32-bit difference to the lost count: 3 comes when 2 is expected (lost 1, out
  of order 1), 2 comes when 4 is expected (lost \<^verbatim>\<open>1 + (2 - 4)\<close>, which is \<^verbatim>\<open>2^32 - 1\<close>, out of
  order 2), 4 comes when 3 is expected (lost 0 after the wrap-around, out of order 3).
  The loss count ends at 0, the out-of-order count at 3, the count of received datagrams
  at 5.
\<close>

theorem udp_out_of_order_counts:
  assumes "server conn \<noteq> 0"
    and "udp_seq conn = 0" "udp_rx_lost conn = 0" "udp_rx_outorder conn = 0"
        "udp_rx_total_pkt conn = 0"
    and "map (\<lambda>d. lwip_ntohl (dgram_id (pkt (snd d)))) ds = [0, 1, 3, 2, 4]"
    and "udp_recv_ready env (snd (hd ds)) conn"
  shows "\<exists>conn'. udp_recv_seq env ds conn = Some conn'
     \<and> udp_rx_lost conn' = 0 \<and> udp_rx_outorder conn' = 3 \<and> udp_rx_total_pkt conn' = 5"
proof -
  from assms(6) obtain d0 d1 d2 d3 d4 where ds: "ds = [d0, d1, d2, d3, d4]"
    and ids: "lwip_ntohl (dgram_id (pkt (snd d0))) = 0" "lwip_ntohl (dgram_id (pkt (snd d1))) = 1"
      "lwip_ntohl (dgram_id (pkt (snd d2))) = 3" "lwip_ntohl (dgram_id (pkt (snd d3))) = 2"
      "lwip_ntohl (dgram_id (pkt (snd d4))) = 4"
    by (auto simp: map_eq_Cons_conv)
  have nonneg: "0 \<le>s (0 :: 32 word)" "0 \<le>s (1 :: 32 word)" "0 \<le>s (3 :: 32 word)"
    "0 \<le>s (2 :: 32 word)" "0 \<le>s (4 :: 32 word)"
    by (simp_all add: word_sle_eq)
  have ready: "udp_recv_ready env (snd d0) conn"
    using assms(7) ds by simp
  from udp_recv_seq_step [OF assms(1) ready ids(1) nonneg(1), of "[d1, d2, d3, d4]"]
  obtain c1 where c1: "udp_recv_seq env ds conn = udp_recv_seq env [d1, d2, d3, d4] c1"
    "server c1 \<noteq> 0" "have_settings_buf c1 \<noteq> 0" "udp_seq c1 = 1" "udp_rx_lost c1 = 0"
    "udp_rx_outorder c1 = 0" "udp_rx_total_pkt c1 = 1"
    using assms(2-5) ds by auto
  from udp_recv_seq_step [OF c1(2) udp_recv_ready_settings [OF c1(3)] ids(2) nonneg(2),
      of env "[d2, d3, d4]"]
  obtain c2 where c2: "udp_recv_seq env ds conn = udp_recv_seq env [d2, d3, d4] c2"
    "server c2 \<noteq> 0" "have_settings_buf c2 \<noteq> 0" "udp_seq c2 = 2" "udp_rx_lost c2 = 0"
    "udp_rx_outorder c2 = 0" "udp_rx_total_pkt c2 = 2"
    using c1 by auto
  from udp_recv_seq_step [OF c2(2) udp_recv_ready_settings [OF c2(3)] ids(3) nonneg(3),
      of env "[d3, d4]"]
  obtain c3 where c3: "udp_recv_seq env ds conn = udp_recv_seq env [d3, d4] c3"
    "server c3 \<noteq> 0" "have_settings_buf c3 \<noteq> 0" "udp_seq c3 = 4" "udp_rx_lost c3 = 1"
    "udp_rx_outorder c3 = 1" "udp_rx_total_pkt c3 = 3"
    using c2 by auto
  from udp_recv_seq_step [OF c3(2) udp_recv_ready_settings [OF c3(3)] ids(4) nonneg(4),
      of env "[d4]"]
  obtain c4 where c4: "udp_recv_seq env ds conn = udp_recv_seq env [d4] c4"
    "server c4 \<noteq> 0" "have_settings_buf c4 \<noteq> 0" "udp_seq c4 = 3" "udp_rx_lost c4 = - 1"
    "udp_rx_outorder c4 = 2" "udp_rx_total_pkt c4 = 4"
    using c3 by auto
  from udp_recv_seq_step [OF c4(2) udp_recv_ready_settings [OF c4(3)] ids(5) nonneg(5),
      of env "[]"]
  obtain c5 where c5: "udp_recv_seq env ds conn = udp_recv_seq env [] c5"
    "udp_seq c5 = 5" "udp_rx_lost c5 = 0"
    "udp_rx_outorder c5 = 3" "udp_rx_total_pkt c5 = 5"
    using c4 by auto
  then show ?thesis by simp
qed

theorem udp_out_of_order_counts_witness:
  "have_settings_buf fresh_receiver = 0 \<and> server fresh_receiver \<noteq> 0
   \<and> udp_seq fresh_receiver = 0 \<and> udp_rx_lost fresh_receiver = 0
   \<and> udp_rx_outorder fresh_receiver = 0 \<and> udp_rx_total_pkt fresh_receiver = 0
   \<and> map (\<lambda>d. lwip_ntohl (dgram_id (pkt (snd d)))) out_of_order_run = [0, 1, 3, 2, 4]
   \<and> udp_recv_ready sample_recv_env (snd (hd out_of_order_run)) fresh_receiver
   \<and> (\<exists>conn'. udp_recv_seq sample_recv_env out_of_order_run fresh_receiver = Some conn'
     \<and> udp_rx_lost conn' = 0 \<and> udp_rx_outorder conn' = 3 \<and> udp_rx_total_pkt conn' = 5)"
  using udp_out_of_order_counts [OF fresh_receiver_fresh out_of_order_run_ids
      out_of_order_run_ready]
    fresh_receiver_fresh out_of_order_run_ids out_of_order_run_ready fresh_receiver_no_settings
  by blast

text \<open>
  C1, as the claim states it, fails on the fresh receiver: the run does not end with a
  loss count of 1 and an out-of-order count of 1.
\<close>

theorem udp_out_of_order_counts_counterexample:
  "\<not> (\<exists>conn'. udp_recv_seq sample_recv_env out_of_order_run fresh_receiver = Some conn'
     \<and> udp_rx_lost conn' = 1 \<and> udp_rx_outorder conn' = 1 \<and> udp_rx_total_pkt conn' = 5)"
  using out_of_order_run_counts by auto

section \<open>UDP jitter\<close>

text \<open>
  C5, evaluated on \<^verbatim>\<open>jitter_run\<close>. The three datagrams are in transit for 1000, 2000 and
  2000 microseconds. The first one seeds \<^verbatim>\<open>udp_last_transit\<close> and leaves the jitter at 0;
  the second one gives \<^verbatim>\<open>0 + ((1000 - 0) >> 4) = 62\<close>. The third one has the transit time of
  the one before it, so the update of the claim is \<^verbatim>\<open>62 + ((0 - 62) >> 4) = 58\<close>; the code,
  which never writes \<^verbatim>\<open>udp_last_transit\<close> again once it is not zero, compares with the
  first transit time and gives \<^verbatim>\<open>62 + ((1000 - 62) >> 4) = 120\<close>. The figures are the same
  for a session that holds its settings and for the fresh receiver, whose first datagram
  is its handshake.
\<close>

theorem udp_jitter_compares_with_first_transit:
  "map (\<lambda>d. datagram_transit (fst d) (snd d)) jitter_run = [1000, 2000, 2000]
   \<and> (\<exists>c. udp_recv_seq env (take 1 jitter_run) sample_receiver = Some c
        \<and> jitter c = 0 \<and> udp_last_transit c = 1000)
   \<and> (\<exists>c. udp_recv_seq env (take 2 jitter_run) sample_receiver = Some c
        \<and> jitter c = 62 \<and> udp_last_transit c = 1000)
   \<and> (\<exists>c. udp_recv_seq env jitter_run sample_receiver = Some c
        \<and> jitter c = 120 \<and> udp_last_transit c = 1000)
   \<and> (\<exists>c. udp_recv_seq sample_recv_env (take 1 jitter_run) fresh_receiver = Some c
        \<and> jitter c = 0 \<and> udp_last_transit c = 1000)
   \<and> (\<exists>c. udp_recv_seq sample_recv_env (take 2 jitter_run) fresh_receiver = Some c
        \<and> jitter c = 62 \<and> udp_last_transit c = 1000)
   \<and> (\<exists>c. udp_recv_seq sample_recv_env jitter_run fresh_receiver = Some c
        \<and> jitter c = 120 \<and> udp_last_transit c = 1000)
   \<and> (62 :: long) + signed_drop_bit 4 (0 - 62) = 58"
  by (simp add: jitter_run_def datagram_transit_def udp_eval_defs udp_handshake_eval_defs)

section \<open>UDP pacing delay\<close>

lemma set_client_rate_zero: "lwiperf_udp_set_client_rate c 0 buf_len = Inl DivisionByZero"
  by (simp add: lwiperf_udp_set_client_rate_def)

lemma start_udp_client_rate_zero:
  "t \<noteq> LWIPERF_REVERSE \<Longrightarrow>
   lwiperf_start_udp_client newpcb now sport ra rp t am bl 0 fn arg = Inl DivisionByZero"
  by (simp add: lwiperf_start_udp_client_def lwiperf_udp_set_client_rate_def Let_def
      split: prod.splits)

lemma udp_tx_start_rate_zero:
  "flags (base (settings conn)) AND lwip_htonl LWIPERF_FLAGS_EXTEND \<noteq> 0
   \<Longrightarrow> rate (settings conn) = 0
   \<Longrightarrow> lwiperf_udp_tx_start newpcb now conn = Inl DivisionByZero"
  by (simp add: lwiperf_udp_tx_start_def lwiperf_udp_set_client_rate_def Let_def
      lwip_ntohl_def lwip_htonl_def)

text \<open>
  C10, evaluated. A client started with the rate 0 and a return session started for a
  peer that sent the rate 0 both reach the first division of
  \<^verbatim>\<open>lwiperf_udp_set_client_rate\<close> with the divisor 0. Of the three callers only
  \<^verbatim>\<open>lwiperf_udp_tx_reverse_start\<close> tests the rate before, by an assertion. A rate above
  \<^verbatim>\<open>buf_len * 8000000\<close> makes the second divisor 0.
\<close>

theorem udp_rate_zero_divides_by_zero:
  "lwiperf_start_udp_client 7 0 0 (IPv4 1) 5001 LWIPERF_CLIENT (- 1000) 0 0 0 0
     = Inl DivisionByZero
   \<and> lwiperf_udp_tx_start 7 0 peer_rate_zero_session = Inl DivisionByZero
   \<and> lwiperf_udp_tx_reverse_start 7 0 peer_rate_zero_session = Inl AssertionFailed
   \<and> lwiperf_start_udp_client 7 0 0 (IPv4 1) 5001 LWIPERF_CLIENT (- 1000) 100 2000000000 0 0
     = Inl DivisionByZero"
  by (simp add: lwiperf_start_udp_client_def lwiperf_udp_tx_start_def
      lwiperf_udp_tx_reverse_start_def lwiperf_udp_tx_new_def udp_client_type_flags_def
      lwiperf_udp_set_client_rate_def ideal_frame_delay_def CLOCK_RESOLUTION_US_def
      peer_rate_zero_session_def sample_receiver_def lwiperf_state_zero_def settings_zero_def
      LWIPERF_FLAGS_EXTEND_def LWIPERF_FLAGS_ANSWER_TEST_def LWIPERF_FLAGS_ANSWER_NOW_def
      LWIPERF_EFLAGS_REVERSE_def lwip_ntohl_def lwip_htonl_def Let_def)

section \<open>Reports\<close>

text \<open>
  C9, as the code has it. With a callback registered, every UDP session, and every TCP
  session that holds a connection or a listener, reports its byte count, the duration
  \<^verbatim>\<open>now - time_started\<close> (32-bit) and the bandwidth: 0 when the duration is 0, else
  \<^verbatim>\<open>bytes * 8 / duration\<close> (a 64-bit product and quotient, cut to 32 bits). A TCP session
  that holds neither handle reports 0 bytes, the duration 0 and the bandwidth 0. Without
  a callback, and for the session \<^verbatim>\<open>NULL\<close>, no call is made.
\<close>

theorem report_duration_and_bandwidth:
  "(report_fn c \<noteq> NULL \<longrightarrow>
      (\<exists>r. lwip_udp_conn_report now (Some c) master t = Some r
         \<and> rc_report_type r = t \<and> rc_bytes_transferred r = bytes_transferred c
         \<and> rc_ms_duration r = now - time_started c
         \<and> rc_bandwidth_kbitpsec r =
             (if now - time_started c = 0 then 0
              else ucast ((bytes_transferred c * 8) div ucast (now - time_started c)))))
   \<and> (report_fn c \<noteq> NULL \<and> (conn_pcb c \<noteq> NULL \<or> server_pcb c \<noteq> NULL) \<longrightarrow>
      (\<exists>r. lwip_tcp_conn_report now (Some c) t = Some r
         \<and> rc_report_type r = t \<and> rc_bytes_transferred r = bytes_transferred c
         \<and> rc_ms_duration r = now - time_started c
         \<and> rc_bandwidth_kbitpsec r =
             (if now - time_started c = 0 then 0
              else ucast ((bytes_transferred c * 8) div ucast (now - time_started c)))))
   \<and> (report_fn c \<noteq> NULL \<and> conn_pcb c = NULL \<and> server_pcb c = NULL \<longrightarrow>
      (\<exists>r. lwip_tcp_conn_report now (Some c) t = Some r
         \<and> rc_report_type r = t \<and> rc_bytes_transferred r = 0
         \<and> rc_ms_duration r = 0 \<and> rc_bandwidth_kbitpsec r = 0))
   \<and> (report_fn c = NULL \<longrightarrow>
        lwip_udp_conn_report now (Some c) master t = None
        \<and> lwip_tcp_conn_report now (Some c) t = None)
   \<and> lwip_udp_conn_report now None master t = None
   \<and> lwip_tcp_conn_report now None t = None"
  by (simp add: lwip_udp_conn_report_def lwip_tcp_conn_report_def Let_def mult.commute)

lemmas report_eval_defs =
  connected_tcp_session_def errored_tcp_session_def silent_tcp_session_def
  lwiperf_state_zero_def

lemma sample_tcp_sessions:
  "report_fn connected_tcp_session \<noteq> NULL" "conn_pcb connected_tcp_session \<noteq> NULL"
  "time_started connected_tcp_session = 0" "bytes_transferred connected_tcp_session = 1000"
  "report_fn errored_tcp_session \<noteq> NULL" "conn_pcb errored_tcp_session = NULL"
  "server_pcb errored_tcp_session = NULL" "report_fn silent_tcp_session = NULL"
  by (simp_all add: report_eval_defs)

theorem report_duration_and_bandwidth_witness:
  "report_fn connected_tcp_session \<noteq> NULL \<and> conn_pcb connected_tcp_session \<noteq> NULL
   \<and> (\<exists>r. lwip_udp_conn_report 10 (Some connected_tcp_session) None LWIPERF_UDP_ABORTED_LOCAL
             = Some r
          \<and> rc_ms_duration r = 10 \<and> rc_bandwidth_kbitpsec r = 800)
   \<and> (\<exists>r. lwip_tcp_conn_report 10 (Some connected_tcp_session) LWIPERF_TCP_ABORTED_LOCAL = Some r
          \<and> rc_bytes_transferred r = 1000 \<and> rc_ms_duration r = 10
          \<and> rc_bandwidth_kbitpsec r = 800)
   \<and> report_fn errored_tcp_session \<noteq> NULL \<and> conn_pcb errored_tcp_session = NULL
   \<and> server_pcb errored_tcp_session = NULL
   \<and> (\<exists>r. lwip_tcp_conn_report 10 (Some errored_tcp_session) LWIPERF_TCP_ABORTED_REMOTE = Some r
          \<and> rc_bytes_transferred r = 0 \<and> rc_ms_duration r = 0 \<and> rc_bandwidth_kbitpsec r = 0)
   \<and> report_fn silent_tcp_session = NULL
   \<and> lwip_tcp_conn_report 10 (Some silent_tcp_session) LWIPERF_TCP_ABORTED_LOCAL = None"
proof -
  note s = sample_tcp_sessions
  have bw: "(ucast ((1000 * 8 :: u64) div ucast (10 :: u32)) :: u32) = 800" by simp
  from report_duration_and_bandwidth
      [of connected_tcp_session 10 None LWIPERF_UDP_ABORTED_LOCAL] s(1)
  have a: "\<exists>r. lwip_udp_conn_report 10 (Some connected_tcp_session) None LWIPERF_UDP_ABORTED_LOCAL
             = Some r \<and> rc_ms_duration r = 10 \<and> rc_bandwidth_kbitpsec r = 800"
    by (auto simp: s(3,4))
  from report_duration_and_bandwidth
      [of connected_tcp_session 10 None LWIPERF_TCP_ABORTED_LOCAL] s(1,2)
  have b: "\<exists>r. lwip_tcp_conn_report 10 (Some connected_tcp_session) LWIPERF_TCP_ABORTED_LOCAL = Some r
          \<and> rc_bytes_transferred r = 1000 \<and> rc_ms_duration r = 10
          \<and> rc_bandwidth_kbitpsec r = 800"
    by (auto simp: s(3,4))
  from report_duration_and_bandwidth
      [of errored_tcp_session 10 None LWIPERF_TCP_ABORTED_REMOTE] s(5,6,7)
  have c: "\<exists>r. lwip_tcp_conn_report 10 (Some errored_tcp_session) LWIPERF_TCP_ABORTED_REMOTE = Some r
          \<and> rc_bytes_transferred r = 0 \<and> rc_ms_duration r = 0 \<and> rc_bandwidth_kbitpsec r = 0"
    by auto
  from report_duration_and_bandwidth
      [of silent_tcp_session 10 None LWIPERF_TCP_ABORTED_LOCAL] s(8)
  have d: "lwip_tcp_conn_report 10 (Some silent_tcp_session) LWIPERF_TCP_ABORTED_LOCAL = None"
    by auto
  from a b c d s show ?thesis by blast
qed

text \<open>
  C9, as the claim states it, fails for the TCP session whose handles the error callback
  has cleared: 10 ms after the start and with 1000 bytes transferred the claim gives the
  duration 10 and the bandwidth 800, and the report carries neither.
\<close>

theorem report_duration_and_bandwidth_counterexample:
  "\<not> (\<exists>r. lwip_tcp_conn_report 10 (Some errored_tcp_session) LWIPERF_TCP_ABORTED_REMOTE = Some r
         \<and> rc_ms_duration r = 10 - time_started errored_tcp_session
         \<and> rc_bandwidth_kbitpsec r =
             ucast ((bytes_transferred errored_tcp_session * 8) div ucast (10 :: u32)))"
  by (simp add: lwip_tcp_conn_report_def report_eval_defs)

section \<open>The byte limit of a TCP sender\<close>

lemma tcp_send_loop_closed:
  assumes "tcp_client_send_loop env pac mss n conn = Some y"
  shows "\<forall>r c. y = TcpClosed r c \<longrightarrow>
           settings c = settings conn \<and> tcp_send_target_reached (tcp_sys_now env) c
           \<and> r = (if reverse conn \<noteq> 0 then LWIPERF_TCP_DONE_SERVER_TX
                  else LWIPERF_TCP_DONE_CLIENT_TX)"
proof (rule tcp_client_send_loop.raw_induct
    [where P = "\<lambda>env pac mss n conn y. \<forall>r c. y = TcpClosed r c \<longrightarrow>
           settings c = settings conn \<and> tcp_send_target_reached (tcp_sys_now env) c
           \<and> r = (if reverse conn \<noteq> 0 then LWIPERF_TCP_DONE_SERVER_TX
                  else LWIPERF_TCP_DONE_CLIENT_TX)", OF _ assms], goal_cases)
  case (1 loop env pac mss n conn y)
  show ?case
  proof (cases "tcp_send_target_reached (tcp_sys_now env) conn")
    case True
    with 1(2) show ?thesis by auto
  next
    case False
    obtain txlen_max apiflags send_more
      where ch: "tcp_send_chunk pac mss conn = (txlen_max, apiflags, send_more)"
      by (cases "tcp_send_chunk pac mss conn")
    from 1(2) False ch obtain err and txlen :: u16 and n'
      where rest: "(if err = ERR_OK
               then (let conn' = tcp_send_account txlen conn
                     in if send_more then loop env pac mss n' conn'
                        else Some (TcpOpen conn'))
               else Some (TcpOpen conn)) = Some y"
      by (auto split: Option.bind_splits)
    show ?thesis
    proof (cases "err = ERR_OK \<and> send_more")
      case True
      have "loop env pac mss n' (tcp_send_account txlen conn) = Some y"
        using rest True by simp
      from 1(1) [OF this] show ?thesis
        by (auto simp: tcp_send_account_def)
    next
      case False
      then have "\<exists>c. y = TcpOpen c"
        using rest by (auto simp: Let_def split: if_splits)
      then show ?thesis by auto
    qed
  qed
qed

lemma tcp_byte_limit_reached: "amount (base (settings conn)) = lwip_htonl 1048576 \<Longrightarrow>
   tcp_send_target_reached now conn \<longleftrightarrow> 1048576 \<le> bytes_transferred conn"
  by (simp add: tcp_send_target_reached_def lwip_ntohl_htonl Let_def) (simp add: lwip_htonl_def)

text \<open>
  C6. A TCP session whose \<^verbatim>\<open>amount\<close> field holds 1048576 (in network byte order) is
  byte-limited. Whenever a run of the send routine closes it, the byte counter of the
  closed session is at least 1048576 and the reason is one of the two "done" reasons of
  a sender; a run that starts at or above the target closes at once; and at 1048575 bytes
  or fewer the test at the top of the loop does not ask for a close.
\<close>

theorem tcp_byte_limit_close:
  assumes "amount (base (settings conn)) = lwip_htonl 1048576"
  shows "(\<forall>r c. lwiperf_tcp_client_send_more env master_server mss conn = Some (TcpClosed r c)
           \<longrightarrow> 1048576 \<le> bytes_transferred c
               \<and> (r = LWIPERF_TCP_DONE_SERVER_TX \<or> r = LWIPERF_TCP_DONE_CLIENT_TX))
     \<and> (1048576 \<le> bytes_transferred conn
           \<longrightarrow> (\<exists>r. lwiperf_tcp_client_send_more env master_server mss conn
                      = Some (TcpClosed r conn)))
     \<and> (bytes_transferred conn \<le> 1048575
           \<longrightarrow> \<not> tcp_send_target_reached (tcp_sys_now env) conn)"
proof (intro conjI allI impI)
  fix r c
  assume "lwiperf_tcp_client_send_more env master_server mss conn = Some (TcpClosed r c)"
  then obtain pac mss' where "tcp_client_send_loop env pac mss' 0 conn = Some (TcpClosed r c)"
    by (auto simp: lwiperf_tcp_client_send_more_def Let_def)
  from tcp_send_loop_closed [OF this] assms
  have "amount (base (settings c)) = lwip_htonl 1048576"
    "tcp_send_target_reached (tcp_sys_now env) c"
    "r = LWIPERF_TCP_DONE_SERVER_TX \<or> r = LWIPERF_TCP_DONE_CLIENT_TX"
    by auto
  then show "1048576 \<le> bytes_transferred c" 
    "r = LWIPERF_TCP_DONE_SERVER_TX \<or> r = LWIPERF_TCP_DONE_CLIENT_TX"
    by (simp_all add: tcp_byte_limit_reached)
next
  assume "1048576 \<le> bytes_transferred conn"
  then have "tcp_send_target_reached (tcp_sys_now env) conn"
    using assms by (simp add: tcp_byte_limit_reached)
  then show "\<exists>r. lwiperf_tcp_client_send_more env master_server mss conn = Some (TcpClosed r conn)"
    by (simp add: lwiperf_tcp_client_send_more_def Let_def tcp_client_send_loop.simps)
next
  assume "bytes_transferred conn \<le> 1048575"
  then have "\<not> 1048576 \<le> bytes_transferred conn"
    by (simp add: word_le_nat_alt)
  then show "\<not> tcp_send_target_reached (tcp_sys_now env) conn"
    using assms by (simp add: tcp_byte_limit_reached)
qed


lemma near_target_tcp_run:
  "lwiperf_tcp_client_send_more three_writes_env 0 1460 near_target_tcp_client
     = Some (TcpClosed LWIPERF_TCP_DONE_CLIENT_TX
              (near_target_tcp_client\<lparr>bytes_transferred := 1048636\<rparr>))"
  by code_simp

theorem tcp_byte_limit_close_witness:
  "amount (base (settings near_target_tcp_client)) = lwip_htonl 1048576
   \<and> bytes_transferred near_target_tcp_client \<le> 1048575
   \<and> \<not> tcp_send_target_reached (tcp_sys_now three_writes_env) near_target_tcp_client
   \<and> lwiperf_tcp_client_send_more three_writes_env 0 1460 near_target_tcp_client
       = Some (TcpClosed LWIPERF_TCP_DONE_CLIENT_TX
                (near_target_tcp_client\<lparr>bytes_transferred := 1048636\<rparr>))
   \<and> 1048576 \<le> bytes_transferred (near_target_tcp_client\<lparr>bytes_transferred := 1048636\<rparr>)"
proof -
  have a: "amount (base (settings near_target_tcp_client)) = lwip_htonl 1048576"
    by (simp add: near_target_tcp_client_def settings_zero_def)
  have b: "bytes_transferred near_target_tcp_client \<le> 1048575"
    by (simp add: near_target_tcp_client_def)
  from tcp_byte_limit_close [OF a, of three_writes_env 0 1460] near_target_tcp_run a b
  show ?thesis by blast
qed

section \<open>A failed send on a UDP session\<close>

lemma udp_send_frames_failure:
  assumes "udp_send_frames env ending ts i conn = (c, evs)"
    and "UdpSend pid s us l err \<in> set evs" and "err \<noteq> ERR_OK"
  shows "tcp c = tcp conn \<and> server c = server conn
     \<and> (\<exists>evs'. evs = evs' @ [PbufAlloc, UdpSend pid s us l err, PbufFree])"
  using assms
proof (induction env ending ts i conn arbitrary: c evs rule: udp_send_frames.induct)
  case (1 env ending ts i conn)
  show ?case
  proof (cases "i < frames_per_delay conn \<and> pbuf_alloc env i")
    case False
    with "1.prems" show ?thesis
      by (auto simp: udp_send_frames.simps [of env ending ts i conn] split: if_splits)
  next
    case True
    show ?thesis
    proof (cases "udp_send env i = ERR_OK")
      case False
      with True "1.prems" show ?thesis
        by (auto simp: udp_send_frames.simps [of env ending ts i conn] Let_def)
    next
      case ok: True
      define conn3 where "conn3 =
         (if ending \<noteq> 0
          then (udp_send_account (ucast (lwip_ntohl (buffer_len (base (settings conn)))))
                  (conn\<lparr>udp_lastpkt := ts\<rparr>))\<lparr>delay_target := 50000, frames_per_delay := 10\<rparr>
          else udp_send_account (ucast (lwip_ntohl (buffer_len (base (settings conn)))))
                  (conn\<lparr>udp_lastpkt := ts\<rparr>))"
      obtain c' evs' where rec: "udp_send_frames env ending ts (i + 1) conn3 = (c', evs')"
        by (cases "udp_send_frames env ending ts (i + 1) conn3")
      have flags3: "tcp conn3 = tcp conn" "server conn3 = server conn"
        by (simp_all add: conn3_def udp_send_account_def)
      from True ok rec "1.prems"(1) have c: "c = c'"
        and evs: "evs = [PbufAlloc,
            UdpSend (lwip_htonl (if ending \<noteq> 0 then - udp_seq conn else udp_seq conn))
              (lwip_htonl (timespec.tv_sec ts)) (lwip_htonl (long_div (timespec.tv_nsec ts) 1000))
              (ucast (lwip_ntohl (buffer_len (base (settings conn))))) ERR_OK, PbufFree] @ evs'"
        by (simp_all add: udp_send_frames.simps [of env ending ts i conn] Let_def conn3_def
            split: if_splits)
      from evs "1.prems"(2,3) have mem: "UdpSend pid s us l err \<in> set evs'"
        by auto
      have "tcp c' = tcp conn3 \<and> server c' = server conn3
         \<and> (\<exists>evs''. evs' = evs'' @ [PbufAlloc, UdpSend pid s us l err, PbufFree])"
        using True ok rec mem "1.prems"(3)
        by (intro "1.IH" [where ?x = "ucast (lwip_ntohl (buffer_len (base (settings conn))))"])
           (auto simp: conn3_def Let_def)
      then show ?thesis
        using c evs flags3 by auto
    qed
  qed
qed

text \<open>
  C8. In a run of the pacing send routine in which \<^verbatim>\<open>udp_send\<close> returns an error for a
  datagram, \<^verbatim>\<open>lwiperf_udp_close\<close> is not called: the run ends with the session open (still
  a UDP client for the next poll), and the last things it does are the failed send and the
  release of the buffer of that datagram.
\<close>

theorem udp_send_failure_keeps_session:
  assumes "lwiperf_udp_client_send_more env conn = (res, evs)"
    and "UdpSend pid s us l err \<in> set evs" and "err \<noteq> ERR_OK"
  shows "(\<exists>conn'. res = UdpOpen conn' \<and> tcp conn' = tcp conn \<and> server conn' = server conn)
     \<and> (\<exists>evs'. evs = evs' @ [PbufAlloc, UdpSend pid s us l err, PbufFree])"
proof -
  from assms(1,2) obtain c where res: "res = UdpOpen c"
    and fr: "udp_send_frames env (udp_send_ending (udp_sys_now env) conn)
               (clock_gettime (udp_sys_now env)) 0 conn = (c, evs)"
    by (auto simp: lwiperf_udp_client_send_more_def Let_def split: if_splits prod.splits)
  from udp_send_frames_failure [OF fr assms(2,3)] res show ?thesis
    by simp
qed

lemma failing_udp_run:
  "lwiperf_udp_client_send_more failing_udp_env sample_udp_client =
     (UdpOpen (sample_udp_client\<lparr>udp_lastpkt := \<lparr>timespec.tv_sec = 5, tv_nsec = 0\<rparr>,
                 udp_seq := 1, bytes_transferred := 1470\<rparr>),
      [PbufAlloc, UdpSend 0 83886080 0 1470 ERR_OK, PbufFree,
       PbufAlloc, UdpSend 16777216 83886080 0 1470 ERR_MEM, PbufFree])"
  by code_simp

theorem udp_send_failure_keeps_session_witness:
  "(\<exists>res evs. lwiperf_udp_client_send_more failing_udp_env sample_udp_client = (res, evs)
      \<and> UdpSend 16777216 83886080 0 1470 ERR_MEM \<in> set evs \<and> ERR_MEM \<noteq> ERR_OK
      \<and> (\<exists>conn'. res = UdpOpen conn' \<and> tcp conn' = tcp sample_udp_client
            \<and> server conn' = server sample_udp_client)
      \<and> (\<exists>evs'. evs = evs' @ [PbufAlloc, UdpSend 16777216 83886080 0 1470 ERR_MEM, PbufFree]))"
proof -
  have m: "UdpSend 16777216 83886080 0 1470 ERR_MEM
      \<in> set [PbufAlloc, UdpSend 0 83886080 0 1470 ERR_OK, PbufFree,
       PbufAlloc, UdpSend 16777216 83886080 0 1470 ERR_MEM, PbufFree]"
    by simp
  have e: "ERR_MEM \<noteq> ERR_OK" by simp
  from udp_send_failure_keeps_session [OF failing_udp_run m e] failing_udp_run m e
  show ?thesis by blast
qed


section \<open>Writes of the byte counter\<close>

lemma word64_add_u16_le:
  fixes b :: u64 and k :: u16
  assumes "unat b + 2 ^ 16 < 2 ^ 64"
  shows "b \<le> b + ucast k"
proof -
  have "unat (ucast k :: u64) = unat k"
    by (simp add: unsigned_ucast_eq take_bit_nat_eq_self
        less_trans [OF unsigned_less [of k, where 'a = nat]])
  moreover have "unat k < 2 ^ 16"
    using unsigned_less [of k, where 'a = nat] by simp
  ultimately have "unat b + unat (ucast k :: u64) < 2 ^ 64"
    using assms by simp
  then show ?thesis
    by (simp add: no_olen_add_nat)
qed

lemma word64_add_60_le:
  fixes b :: u64
  assumes "unat b + 2 ^ 16 < 2 ^ 64"
  shows "b \<le> b + of_nat sizeof_settings_ext"
proof -
  have "of_nat sizeof_settings_ext = (ucast (60 :: u16) :: u64)"
    by (simp add: sizeof_settings_ext_def)
  then show ?thesis
    using word64_add_u16_le [OF assms, of 60] by simp
qed

text \<open>
  C2, as the code has it. Short of an overflow of the 64-bit counter, the writes of
  \<^verbatim>\<open>bytes_transferred\<close> by the TCP send loop (line 496), the TCP receive callback (lines 715 and
  724), the UDP pacing send (line 1259) and the data branch of the UDP receive callback
  (lines 1579 and 1582) add a length and so do not lower the counter. The branch of the
  UDP receive callback that handles the report of the server is different: the first
  report with the answer flag replaces the counter of the client by the total in the
  report, \<^verbatim>\<open>(total_len1 << 32) + total_len2\<close>, whatever the counter was.
\<close>

theorem bytes_transferred_writes:
  assumes "unat (bytes_transferred conn) + 2 ^ 16 < 2 ^ 64"
  shows "bytes_transferred conn \<le> bytes_transferred (tcp_send_account txlen conn)
     \<and> bytes_transferred conn \<le> bytes_transferred (tcp_recv_account_settings now conn)
     \<and> bytes_transferred conn \<le> bytes_transferred (tcp_recv_account_data p_tot_len conn)
     \<and> bytes_transferred conn \<le> bytes_transferred (udp_send_account p_tot_len conn)
     \<and> (\<forall>conn'. lwiperf_udp_recv env now p conn = Data conn'
           \<longrightarrow> bytes_transferred conn \<le> bytes_transferred conn')
     \<and> (\<forall>conn'. lwiperf_udp_recv env now p conn = ReportSeen conn'
           \<longrightarrow> bytes_transferred conn' =
               (if report_count conn = 0
                   \<and> lwiperf_udp_report.flags (hdr p) AND lwip_htonl LWIPERF_FLAGS_ANSWER_TEST \<noteq> 0
                then push_bit 32 (ucast (lwip_ntohl (total_len1 (hdr p))))
                     + ucast (lwip_ntohl (total_len2 (hdr p)))
                else bytes_transferred conn))"
proof -
  have data: "bytes_transferred conn \<le> bytes_transferred conn'"
    if "lwiperf_udp_recv env now p conn = Data conn'" for conn'
  proof -
    from that obtain c
      where c: "(if have_settings_buf conn = 0 then udp_recv_handshake env p conn else Inr conn)
                = Inr c"
        and conn': "conn' = udp_recv_update_jitter (clock_gettime now)
                      (udp_recv_update_stats (lwip_ntohl (dgram_id (pkt p))) p c)"
      using udp_recv_handshake_no_data [of env p conn conn']
      by (auto simp: lwiperf_udp_recv_def Let_def split: if_splits sum.splits)
    have "bytes_transferred c = bytes_transferred conn"
      using c udp_recv_handshake_keeps(7) [of env p conn c] by (simp split: if_splits)
    then have "bytes_transferred conn' = bytes_transferred conn + ucast (tot_len p)"
      unfolding conn' by (simp add: udp_recv_update_stats_def udp_recv_update_jitter_def Let_def)
    then show ?thesis
      using word64_add_u16_le [OF assms, of "tot_len p"] by simp
  qed
  have report: "bytes_transferred conn' =
               (if report_count conn = 0
                   \<and> lwiperf_udp_report.flags (hdr p) AND lwip_htonl LWIPERF_FLAGS_ANSWER_TEST \<noteq> 0
                then push_bit 32 (ucast (lwip_ntohl (total_len1 (hdr p))))
                     + ucast (lwip_ntohl (total_len2 (hdr p)))
                else bytes_transferred conn)"
    if "lwiperf_udp_recv env now p conn = ReportSeen conn'" for conn'
    using that udp_recv_handshake_no_report [of env p conn conn']
    by (auto simp: lwiperf_udp_recv_def udp_recv_server_report_def Let_def
        split: if_splits sum.splits)
  have "bytes_transferred conn \<le> bytes_transferred (tcp_send_account txlen conn)"
    "bytes_transferred conn \<le> bytes_transferred (tcp_recv_account_settings now conn)"
    "bytes_transferred conn \<le> bytes_transferred (tcp_recv_account_data p_tot_len conn)"
    "bytes_transferred conn \<le> bytes_transferred (udp_send_account p_tot_len conn)"
    using word64_add_u16_le [OF assms] word64_add_60_le [OF assms]
    by (auto simp: tcp_send_account_def tcp_recv_account_settings_def
        tcp_recv_account_data_def udp_send_account_def)
  with data report show ?thesis
    by blast
qed

lemma udp_client_after_send_fields:
  "unat (bytes_transferred udp_client_after_send) + 2 ^ 16 < 2 ^ 64"
  "bytes_transferred udp_client_after_send = 147000"
  by (simp_all add: udp_client_after_send_def lwiperf_state_zero_def)

lemma server_report_run:
  "\<exists>conn'. lwiperf_udp_recv env 6000 server_report_datagram udp_client_after_send
            = ReportSeen conn'
      \<and> bytes_transferred conn' = 100000"
  by (simp add: lwiperf_udp_recv_def udp_recv_server_report_def server_report_datagram_def
      udp_client_after_send_def lwiperf_state_zero_def report_zero_def lwip_ntohl_htonl Let_def)
     (simp add: lwip_ntohl_def lwip_htonl_def LWIPERF_FLAGS_ANSWER_TEST_def)

theorem bytes_transferred_writes_witness:
  "unat (bytes_transferred udp_client_after_send) + 2 ^ 16 < 2 ^ 64
   \<and> bytes_transferred udp_client_after_send
       \<le> bytes_transferred (tcp_send_account 1460 udp_client_after_send)
   \<and> bytes_transferred udp_client_after_send
       \<le> bytes_transferred (udp_send_account 1470 udp_client_after_send)
   \<and> (\<exists>conn'. lwiperf_udp_recv sample_recv_env 6000 server_report_datagram
                  udp_client_after_send
                = ReportSeen conn'
          \<and> bytes_transferred conn' = 100000)"
  using bytes_transferred_writes [OF udp_client_after_send_fields(1),
      where txlen = 1460 and p_tot_len = 1470 and now = 6000 and p = server_report_datagram
        and env = sample_recv_env]
    udp_client_after_send_fields(1) server_report_run [of sample_recv_env]
  by blast

text \<open>
  C2, as the claim states it, fails where a client takes the report of its server: the
  client has counted 147000 bytes, the report says 100000, and the callback writes
  100000 over the counter.
\<close>

theorem bytes_transferred_writes_counterexample:
  "\<exists>conn'. lwiperf_udp_recv sample_recv_env 6000 server_report_datagram udp_client_after_send
            = ReportSeen conn'
      \<and> bytes_transferred conn' < bytes_transferred udp_client_after_send"
  using server_report_run [of sample_recv_env] by (auto simp: udp_client_after_send_fields(2))

section \<open>The list of active sessions\<close>

subsection \<open>Paths\<close>

lemma list_path_cong:
  assumes "\<And>p. p \<in> set xs \<Longrightarrow> map_option nxt (m' p) = map_option nxt (m p)"
  shows "list_path m' p xs q = list_path m p xs q"
  using assms
proof (induction xs arbitrary: p)
  case Nil
  then show ?case by simp
next
  case (Cons x xs)
  have "map_option nxt (m' x) = map_option nxt (m x)"
    using Cons.prems by simp
  moreover have "\<And>r. list_path m' r xs q = list_path m r xs q"
    using Cons.IH Cons.prems by simp
  ultimately show ?case
    by (cases "m x"; cases "m' x") auto
qed

lemma list_path_append:
  "list_path m p (xs @ ys) q = (\<exists>r. list_path m p xs r \<and> list_path m r ys q)"
  by (induction xs arbitrary: p) (auto split: option.splits)

lemma list_path_unique:
  "list_path m p xs NULL \<Longrightarrow> list_path m p ys NULL \<Longrightarrow> xs = ys"
proof (induction xs arbitrary: p ys)
  case Nil
  then show ?case by (cases ys) auto
next
  case (Cons x xs)
  then show ?case by (cases ys) (auto split: option.splits)
qed

lemma list_path_hd_notin:
  assumes "m x = Some c" and "list_path m (nxt c) xs NULL"
  shows "x \<notin> set xs"
proof
  assume "x \<in> set xs"
  then obtain as bs where xs: "xs = as @ x # bs"
    by (auto simp: in_set_conv_decomp)
  with assms have "list_path m (nxt c) bs NULL"
    by (auto simp: list_path_append)
  from list_path_unique [OF assms(2) this] xs have "length bs = length as + Suc (length bs)"
    by (auto dest: arg_cong [where f = length])
  then show False by simp
qed

lemma list_path_distinct: "list_path m p xs NULL \<Longrightarrow> distinct xs"
  by (induction xs arbitrary: p) (auto split: option.splits dest: list_path_hd_notin)

lemma list_path_not_NULL: "list_path m p xs q \<Longrightarrow> NULL \<notin> set xs"
  by (induction xs arbitrary: p) (auto split: option.splits)

lemma list_path_allocated: "list_path m p xs q \<Longrightarrow> x \<in> set xs \<Longrightarrow> m x \<noteq> None"
  by (induction xs arbitrary: p) (auto split: option.splits)

subsection \<open>Removing a session from the list\<close>

lemma clear_master_idem: "clear_master item (clear_master item c) = clear_master item c"
  by (simp add: clear_master_def)

lemma nxt_clear_master [simp]: "nxt (clear_master item c) = nxt c"
  by (simp add: clear_master_def)

lemma clear_masters_empty [simp]: "clear_masters item {} m = m"
  by (simp add: clear_masters_def)

lemma clear_masters_insert:
  "m y = Some c \<Longrightarrow>
   clear_masters item S (m(y \<mapsto> clear_master item c)) = clear_masters item (insert y S) m"
  by (auto simp: clear_masters_def fun_eq_iff clear_master_idem)

lemma list_path_clear_masters [simp]:
  "list_path (clear_masters item S m) p xs q = list_path m p xs q"
  by (rule list_path_cong) (auto simp: clear_masters_def option.map_comp comp_def)

text \<open>The body of the loop writes the cleared master back to the node it visits.\<close>

lemma visit_node:
  assumes "sessions g y = Some c"
  shows "(if related_master_state c = item
          then g\<lparr>sessions := (sessions g)
                   (y \<mapsto> c\<lparr>related_master_state := NULL,
                            deallocated_master_state_address := item\<rparr>)\<rparr>
          else g) = g\<lparr>sessions := (sessions g)(y \<mapsto> clear_master item c)\<rparr>"
  using assms by (auto simp: clear_master_def fun_upd_idem)

text \<open>After the item has been passed (or when it is not on the list) the loop only clears masters.\<close>

lemma list_remove_loop_rest:
  assumes "list_path (sessions g) iter ys NULL" and "item \<notin> set ys"
  shows "list_remove_loop item found prev iter g
         = Some (g\<lparr>sessions := clear_masters item (set ys) (sessions g)\<rparr>)"
  using assms
proof (induction ys arbitrary: iter prev g)
  case Nil
  then show ?case
    by (simp add: list_remove_loop.simps)
next
  case (Cons y ys)
  from Cons.prems obtain c where y: "iter = y" "y \<noteq> NULL" "sessions g y = Some c"
    and rest: "list_path (sessions g) (nxt c) ys NULL" and ne: "y \<noteq> item" "item \<notin> set ys"
    by (auto split: option.splits)
  let ?g1 = "g\<lparr>sessions := (sessions g)(y \<mapsto> clear_master item c)\<rparr>"
  have path1: "list_path (sessions ?g1) (nxt c) ys NULL"
    using rest y(3) by (subst list_path_cong [where m = "sessions g"]) auto
  have "list_remove_loop item found prev iter g = list_remove_loop item found y (nxt c) ?g1"
    using y ne by (subst list_remove_loop.simps) (simp add: visit_node Let_def)
  also have "\<dots> = Some (?g1\<lparr>sessions := clear_masters item (set ys) (sessions ?g1)\<rparr>)"
    by (rule Cons.IH [OF path1 ne(2)])
  also have "\<dots> = Some (g\<lparr>sessions := clear_masters item (set (y # ys)) (sessions g)\<rparr>)"
    using y(3) by (simp add: clear_masters_insert)
  finally show ?case .
qed

lemma list_remove_loop_item:
  assumes "list_path (sessions g) iter (as @ item # bs) NULL"
    and "sessions g item = Some ci"
    and "prev \<notin> set (as @ item # bs)"
    and "prev = NULL \<or> sessions g prev \<noteq> None"
  shows "list_remove_loop item False prev iter g
         = Some (unlink (last (prev # as)) (nxt ci)
                  (g\<lparr>sessions := clear_masters item (set (as @ item # bs)) (sessions g)\<rparr>))"
  using assms
proof (induction as arbitrary: iter prev g)
  case Nil
  from Nil.prems have it: "iter = item" "item \<noteq> NULL"
    and rest: "list_path (sessions g) (nxt ci) bs NULL"
    by (auto split: option.splits)
  have notin: "item \<notin> set bs"
    using list_path_hd_notin [OF Nil.prems(2) rest] .
  have prev: "prev \<noteq> item" "prev \<notin> set bs"
    using Nil.prems(3) by auto
  let ?g1 = "g\<lparr>sessions := (sessions g)(item \<mapsto> clear_master item ci)\<rparr>"
  show ?case
  proof (cases "prev = NULL")
    case True
    let ?g2 = "?g1\<lparr>lwiperf_all_connections := nxt ci\<rparr>"
    have path2: "list_path (sessions ?g2) (nxt ci) bs NULL"
      using rest notin by (subst list_path_cong [where m = "sessions g"]) auto
    have "list_remove_loop item False prev iter g = list_remove_loop item True item (nxt ci) ?g2"
      using it True Nil.prems(2)
      by (subst list_remove_loop.simps) (simp add: visit_node Let_def)
    also have "\<dots> = Some (?g2\<lparr>sessions := clear_masters item (set bs) (sessions ?g2)\<rparr>)"
      by (rule list_remove_loop_rest [OF path2 notin])
    finally show ?thesis
      using True Nil.prems(2) by (simp add: unlink_def clear_masters_insert)
  next
    case False
    with Nil.prems(4) obtain pc where pc: "sessions g prev = Some pc"
      by auto
    let ?g2 = "?g1\<lparr>sessions := (sessions ?g1)(prev \<mapsto> pc\<lparr>nxt := nxt ci\<rparr>)\<rparr>"
    have path2: "list_path (sessions ?g2) (nxt ci) bs NULL"
      using rest notin prev by (subst list_path_cong [where m = "sessions g"]) auto
    have "list_remove_loop item False prev iter g = list_remove_loop item True item (nxt ci) ?g2"
      using it False Nil.prems(2) pc prev
      by (subst list_remove_loop.simps) (simp add: visit_node Let_def)
    also have "\<dots> = Some (?g2\<lparr>sessions := clear_masters item (set bs) (sessions ?g2)\<rparr>)"
      by (rule list_remove_loop_rest [OF path2 notin])
    also have "clear_masters item (set bs) (sessions ?g2)
        = set_nxt prev (nxt ci) (clear_masters item (set ([] @ item # bs)) (sessions g))"
      using pc prev notin Nil.prems(2)
      by (auto simp: clear_masters_def set_nxt_def fun_eq_iff)
    finally show ?thesis
      using False by (simp add: unlink_def)
  qed
next
  case (Cons a as)
  from Cons.prems(1) obtain ca where a: "iter = a" "a \<noteq> NULL" "sessions g a = Some ca"
    and rest: "list_path (sessions g) (nxt ca) (as @ item # bs) NULL"
    by (auto split: option.splits)
  have notin: "a \<notin> set (as @ item # bs)"
    using list_path_hd_notin [OF a(3) rest] .
  then have ne: "a \<noteq> item" by auto
  let ?g1 = "g\<lparr>sessions := (sessions g)(a \<mapsto> clear_master item ca)\<rparr>"
  have path1: "list_path (sessions ?g1) (nxt ca) (as @ item # bs) NULL"
    using rest a(3) by (subst list_path_cong [where m = "sessions g"]) auto
  have item1: "sessions ?g1 item = Some ci"
    using Cons.prems(2) ne by simp
  have "list_remove_loop item False prev iter g = list_remove_loop item False a (nxt ca) ?g1"
    using a ne by (subst list_remove_loop.simps) (simp add: visit_node Let_def)
  also have "\<dots> = Some (unlink (last (a # as)) (nxt ci)
                  (?g1\<lparr>sessions := clear_masters item (set (as @ item # bs)) (sessions ?g1)\<rparr>))"
    by (rule Cons.IH [OF path1 item1 notin]) simp
  also have "clear_masters item (set (as @ item # bs)) (sessions ?g1)
      = clear_masters item (set ((a # as) @ item # bs)) (sessions g)"
    using a(3) by (simp add: clear_masters_insert)
  finally show ?case
    by simp
qed

lemma list_path_unlink:
  assumes "list_path m p (as @ l # item # bs) NULL" and "m item = Some ci"
  shows "list_path (set_nxt l (nxt ci) m) p (as @ l # bs) NULL"
proof -
  from assms(1) have d: "distinct (as @ l # item # bs)"
    by (rule list_path_distinct)
  from assms(1) obtain cl where l: "list_path m p as l" "l \<noteq> NULL" "m l = Some cl"
    and rest: "list_path m (nxt ci) bs NULL"
    using assms(2) by (auto simp: list_path_append split: option.splits)
  let ?m = "set_nxt l (nxt ci) m"
  have m': "?m = m(l \<mapsto> cl\<lparr>nxt := nxt ci\<rparr>)"
    using l(3) by (simp add: set_nxt_def)
  have "list_path ?m p as l"
    using l(1) d unfolding m' by (subst list_path_cong [where m = m]) auto
  moreover have "list_path ?m (nxt ci) bs NULL"
    using rest d unfolding m' by (subst list_path_cong [where m = m]) auto
  ultimately show ?thesis
    using l(2) unfolding m' by (auto simp: list_path_append)
qed

lemma nxt_self: "\<exists>n. c = c\<lparr>nxt := n\<rparr>"
  by (rule exI [where x = "nxt c"]) simp

lemma sessions_unlink_cases:
  "sessions (unlink pred n g) p
   = (if pred \<noteq> NULL \<and> p = pred then map_option (\<lambda>c. c\<lparr>nxt := n\<rparr>) (sessions g p)
      else sessions g p)"
  by (auto simp: unlink_def set_nxt_def split: option.splits)

text \<open>
  What \<^verbatim>\<open>lwiperf_list_remove\<close> does to a well-formed list: it returns, the list is the old
  one without the item, no call is made, the sessions off the list are untouched, and a
  session on the list keeps every field but \<^verbatim>\<open>next\<close>, with its master cleared if it was
  the item.
\<close>

lemma lwiperf_list_remove_effect:
  assumes "registered g xs"
  shows "\<exists>g'. lwiperf_list_remove item g = Some g'
     \<and> registered g' (remove1 item xs)
     \<and> calls g' = calls g \<and> sys_now g' = sys_now g
     \<and> tcp_close_result g' = tcp_close_result g
     \<and> (\<forall>p. p \<notin> set xs \<longrightarrow> sessions g' p = sessions g p)
     \<and> (\<forall>p c. p \<in> set xs \<and> sessions g p = Some c
           \<longrightarrow> (\<exists>n. sessions g' p = Some ((clear_master item c)\<lparr>nxt := n\<rparr>)))"
proof (cases "item \<in> set xs")
  case False
  let ?g' = "g\<lparr>sessions := clear_masters item (set xs) (sessions g)\<rparr>"
  have "lwiperf_list_remove item g = Some ?g'"
    using assms False
    by (simp add: lwiperf_list_remove_def registered_def list_remove_loop_rest)
  moreover have "registered ?g' (remove1 item xs)"
    using assms False by (simp add: registered_def remove1_idem)
  moreover have "\<forall>p c. p \<in> set xs \<and> sessions g p = Some c
           \<longrightarrow> (\<exists>n. sessions ?g' p = Some ((clear_master item c)\<lparr>nxt := n\<rparr>))"
    by (auto simp: clear_masters_def nxt_self)
  ultimately show ?thesis
    by (auto simp: clear_masters_def)
next
  case True
  then obtain as bs where xs: "xs = as @ item # bs"
    by (auto simp: in_set_conv_decomp)
  from assms have path: "list_path (sessions g) (lwiperf_all_connections g) (as @ item # bs) NULL"
    by (simp add: registered_def xs)
  then have d: "distinct (as @ item # bs)"
    by (rule list_path_distinct)
  from list_path_allocated [OF path, of item] obtain ci where ci: "sessions g item = Some ci"
    by auto
  from list_path_not_NULL [OF path] have nn: "NULL \<notin> set (as @ item # bs)" .
  let ?gc = "g\<lparr>sessions := clear_masters item (set xs) (sessions g)\<rparr>"
  let ?g' = "unlink (last (NULL # as)) (nxt ci) ?gc"
  have run: "lwiperf_list_remove item g = Some ?g'"
    unfolding lwiperf_list_remove_def xs
    by (rule list_remove_loop_item [OF path ci nn]) simp
  have rem: "remove1 item xs = as @ bs"
    using d by (simp add: xs remove1_append)
  have reg: "registered ?g' (as @ bs)"
  proof (cases as rule: rev_cases)
    case Nil
    with path ci show ?thesis
      by (simp add: registered_def unlink_def xs)
  next
    case (snoc as' l)
    have "l \<noteq> NULL" using nn snoc by auto
    moreover have "list_path (clear_masters item (set xs) (sessions g))
        (lwiperf_all_connections g) (as' @ l # item # bs) NULL"
      using path snoc by simp
    moreover have "clear_masters item (set xs) (sessions g) item = Some (clear_master item ci)"
      using ci by (simp add: clear_masters_def xs)
    ultimately have "l \<noteq> NULL" and "list_path
        (set_nxt l (nxt (clear_master item ci)) (clear_masters item (set xs) (sessions g)))
        (lwiperf_all_connections g) (as' @ l # bs) NULL"
      by (simp_all add: list_path_unlink del: list_path_clear_masters nxt_clear_master)
    then have "l \<noteq> NULL" and "list_path
        (set_nxt l (nxt ci) (clear_masters item (set xs) (sessions g)))
        (lwiperf_all_connections g) (as' @ l # bs) NULL"
      by simp_all
    then show ?thesis
      using snoc by (simp add: registered_def unlink_def)
  qed
  have frame: "\<forall>p. p \<notin> set xs \<longrightarrow> sessions ?g' p = sessions g p"
  proof (intro allI impI)
    fix p assume "p \<notin> set xs"
    moreover from this have "p \<noteq> last (NULL # as) \<or> last (NULL # as) = NULL"
      by (cases as rule: rev_cases) (auto simp: xs)
    ultimately show "sessions ?g' p = sessions g p"
      by (auto simp: sessions_unlink_cases clear_masters_def)
  qed
  have content: "\<forall>p c. p \<in> set xs \<and> sessions g p = Some c
           \<longrightarrow> (\<exists>n. sessions ?g' p = Some ((clear_master item c)\<lparr>nxt := n\<rparr>))"
  proof (intro allI impI, elim conjE)
    fix p c assume p: "p \<in> set xs" "sessions g p = Some c"
    show "\<exists>n. sessions ?g' p = Some ((clear_master item c)\<lparr>nxt := n\<rparr>)"
    proof (cases "last (NULL # as) \<noteq> NULL \<and> p = last (NULL # as)")
      case True
      with p show ?thesis
        by (auto simp: sessions_unlink_cases clear_masters_def)
    next
      case False
      with p have "sessions ?g' p = Some ((clear_master item c)\<lparr>nxt := nxt c\<rparr>)"
        by (auto simp: sessions_unlink_cases clear_masters_def)
      then show ?thesis by blast
    qed
  qed
  have "calls ?g' = calls g" "sys_now ?g' = sys_now g"
    "tcp_close_result ?g' = tcp_close_result g"
    by (simp_all add: unlink_def)
  with run reg frame content show ?thesis
    unfolding rem by blast
qed

lemma related_clear_master:
  "item \<noteq> NULL \<Longrightarrow> related_master_state (clear_master item c) \<noteq> item"
  by (simp add: clear_master_def)

text \<open>
  Claim C4. On a well-formed list and for a session \<^verbatim>\<open>item\<close> other than \<^verbatim>\<open>NULL\<close>,
  \<^verbatim>\<open>lwiperf_list_remove\<close> returns after a scan of the whole list; the list is the old one
  without the item; every session of the old list whose \<^verbatim>\<open>related_master_state\<close> was the item
  has it set to \<^verbatim>\<open>NULL\<close> and has the item in \<^verbatim>\<open>deallocated_master_state_address\<close>; and no
  session left on the list has the item as its \<^verbatim>\<open>related_master_state\<close>.
\<close>

theorem list_remove_clears_masters:
  assumes "registered g xs" and "item \<noteq> NULL"
  shows "\<exists>g'. lwiperf_list_remove item g = Some g'
     \<and> registered g' (remove1 item xs)
     \<and> (\<forall>p\<in>set xs. \<forall>c. sessions g p = Some c \<and> related_master_state c = item
           \<longrightarrow> (\<exists>c'. sessions g' p = Some c' \<and> related_master_state c' = NULL
                  \<and> deallocated_master_state_address c' = item))
     \<and> (\<forall>p\<in>set (remove1 item xs). \<forall>c'. sessions g' p = Some c'
           \<longrightarrow> related_master_state c' \<noteq> item)"
proof -
  from lwiperf_list_remove_effect [OF assms(1), of item]
  obtain g' where g': "lwiperf_list_remove item g = Some g'"
    "registered g' (remove1 item xs)"
    and content: "\<And>p c. p \<in> set xs \<Longrightarrow> sessions g p = Some c
           \<Longrightarrow> \<exists>n. sessions g' p = Some ((clear_master item c)\<lparr>nxt := n\<rparr>)"
    by blast
  have a: "\<forall>p\<in>set xs. \<forall>c. sessions g p = Some c \<and> related_master_state c = item
           \<longrightarrow> (\<exists>c'. sessions g' p = Some c' \<and> related_master_state c' = NULL
                  \<and> deallocated_master_state_address c' = item)"
  proof (intro ballI allI impI, elim conjE)
    fix p c assume "p \<in> set xs" "sessions g p = Some c" "related_master_state c = item"
    with content [of p c] show "\<exists>c'. sessions g' p = Some c' \<and> related_master_state c' = NULL
                  \<and> deallocated_master_state_address c' = item"
      by (auto simp: clear_master_def)
  qed
  have b: "\<forall>p\<in>set (remove1 item xs). \<forall>c'. sessions g' p = Some c'
           \<longrightarrow> related_master_state c' \<noteq> item"
  proof (intro ballI allI impI)
    fix p c' assume p: "p \<in> set (remove1 item xs)" "sessions g' p = Some c'"
    then have px: "p \<in> set xs" using set_remove1_subset [of item xs] by blast
    from assms(1) have "sessions g p \<noteq> None"
      unfolding registered_def by (rule list_path_allocated) (rule px)
    then obtain c where "sessions g p = Some c" by auto
    with content [OF px this] p(2) related_clear_master [OF assms(2), of c]
    show "related_master_state c' \<noteq> item" by auto
  qed
  from g' a b show ?thesis by blast
qed

theorem list_remove_clears_masters_witness:
  "registered sample_registry [1, 2, 3, 4] \<and> (2::nat) \<noteq> NULL
   \<and> (\<exists>g' c'. lwiperf_list_remove 2 sample_registry = Some g'
        \<and> registered g' [1, 3, 4]
        \<and> sessions g' 1 = Some c'
        \<and> related_master_state c' = NULL \<and> deallocated_master_state_address c' = 2)"
proof -
  have reg: "registered sample_registry [1, 2, 3, 4]"
    by code_simp
  have s1: "sessions sample_registry 1 = Some (sample_session 0 2 2 0 0)"
    by (simp add: sample_registry_def)
  have r1: "related_master_state (sample_session 0 2 2 0 0) = 2"
    by (simp add: sample_session_def)
  from list_remove_clears_masters [OF reg, of 2]
  obtain g' where g': "lwiperf_list_remove 2 sample_registry = Some g'"
    "registered g' (remove1 2 [1, 2, 3, 4])"
    and cl: "\<forall>p\<in>set [1, 2, 3, 4]. \<forall>c. sessions sample_registry p = Some c \<and> related_master_state c = 2
                \<longrightarrow> (\<exists>c'. sessions g' p = Some c' \<and> related_master_state c' = NULL
                          \<and> deallocated_master_state_address c' = 2)"
    by auto
  from cl s1 r1 obtain c' where "sessions g' 1 = Some c'" "related_master_state c' = NULL"
    "deallocated_master_state_address c' = 2"
    by auto
  with g' reg show ?thesis
    by auto
qed

section \<open>Closing a session\<close>

lemma freed_append: "freed (as @ bs) = freed as @ freed bs"
  by (induction as rule: freed.induct) simp_all

lemma add_call_fields [simp]:
  "sessions (add_call e g) = sessions g"
  "lwiperf_all_connections (add_call e g) = lwiperf_all_connections g"
  "sys_now (add_call e g) = sys_now g"
  "tcp_close_result (add_call e g) = tcp_close_result g"
  "calls (add_call e g) = calls g @ [e]"
  by (simp_all add: add_call_def)

lemma registered_add_call [simp]: "registered (add_call e g) xs = registered g xs"
  by (simp add: registered_def)

lemma registered_free:
  assumes "registered g xs" and "r \<notin> set xs"
  shows "registered (g\<lparr>sessions := (sessions g)(r := None)\<rparr>) xs"
  using assms unfolding registered_def
  by (subst list_path_cong [where m = "sessions g"]) auto

lemma same_handles_clear [simp]:
  "same_handles c ((clear_master item c)\<lparr>nxt := n\<rparr>)" "same_handles c c"
  by (simp_all add: same_handles_def clear_master_def)

text \<open>A report reads the session through the fields that \<^verbatim>\<open>same_handles\<close> names.\<close>

lemma tcp_report_same:
  "same_handles c c' \<Longrightarrow>
   lwip_tcp_conn_report now (Some c') t = lwip_tcp_conn_report now (Some c) t"
  by (simp add: same_handles_def lwip_tcp_conn_report_def Let_def)

lemma udp_report_same:
  assumes "same_handles c c'" and "map_option pcb m' = map_option pcb m"
  shows "lwip_udp_conn_report now (Some c') m' t = lwip_udp_conn_report now (Some c) m t"
proof -
  have "(case m' of None \<Rightarrow> NoEndpoint
         | Some s \<Rightarrow> if pcb s \<noteq> NULL then LocalOf (pcb s) else NoEndpoint)
      = (case m of None \<Rightarrow> NoEndpoint
         | Some s \<Rightarrow> if pcb s \<noteq> NULL then LocalOf (pcb s) else NoEndpoint)"
    using assms(2) by (cases m; cases m') auto
  then show ?thesis
    using assms(1) by (simp add: same_handles_def lwip_udp_conn_report_def Let_def)
qed

text \<open>
  \<^verbatim>\<open>lwiperf_udp_close\<close> looks the master up only when the report will read it; the report is
  the same when it is looked up whenever there is one.
\<close>

lemma udp_report_master:
  "lwip_udp_conn_report now (Some c)
     (if report_fn c \<noteq> NULL \<and> pcb c = NULL \<and> related_master_state c \<noteq> NULL
      then m else None) t
   = lwip_udp_conn_report now (Some c) (if related_master_state c \<noteq> NULL then m else None) t"
  by (simp add: lwip_udp_conn_report_def)

lemma master_of_empty:
  "master_of g {} c
   = (if related_master_state c \<noteq> NULL then sessions g (related_master_state c) else None)"
  by (simp add: master_of_def)

text \<open>
  The calls of a close are the same in two states that agree on the tick, on the answers
  of \<^verbatim>\<open>tcp_close\<close>, on the fields of the session that the close reads, and on the socket
  of its master.
\<close>

lemma close_calls_cong:
  assumes "sys_now g' = sys_now g" and "tcp_close_result g' = tcp_close_result g"
    and "sessions g p = Some c" and "sessions g' p = Some c'" and "same_handles c c'"
    and "map_option pcb (master_of g' E' c') = map_option pcb (master_of g E c)"
  shows "close_calls g' E' p = close_calls g E p"
proof -
  have "lwip_udp_conn_report (sys_now g) (Some c') (master_of g' E' c') LWIPERF_UDP_ABORTED_LOCAL
        = lwip_udp_conn_report (sys_now g) (Some c) (master_of g E c) LWIPERF_UDP_ABORTED_LOCAL"
    using assms(5,6) by (rule udp_report_same)
  moreover have "lwip_tcp_conn_report (sys_now g) (Some c') LWIPERF_TCP_ABORTED_LOCAL
        = lwip_tcp_conn_report (sys_now g) (Some c) LWIPERF_TCP_ABORTED_LOCAL"
    using assms(5) by (rule tcp_report_same)
  ultimately show ?thesis
    using assms(1-5) by (simp add: close_calls_def same_handles_def)
qed

lemma freed_close_calls: "sessions g p \<noteq> None \<Longrightarrow> freed (close_calls g E p) = [p]"
  by (auto simp: close_calls_def freed_append split: option.splits)

lemma removed_session:
  assumes "registered g xs" and "sessions g r = Some c"
    and "lwiperf_list_remove r g = Some g'"
  shows "\<exists>c'. sessions g' r = Some c' \<and> same_handles c c'"
proof -
  from lwiperf_list_remove_effect [OF assms(1), of r] assms(3)
  have frame: "\<forall>p. p \<notin> set xs \<longrightarrow> sessions g' p = sessions g p"
    and content: "\<forall>p c. p \<in> set xs \<and> sessions g p = Some c
           \<longrightarrow> (\<exists>n. sessions g' p = Some ((clear_master r c)\<lparr>nxt := n\<rparr>))"
    by auto
  show ?thesis
  proof (cases "r \<in> set xs")
    case True
    with content assms(2) obtain n where "sessions g' r = Some ((clear_master r c)\<lparr>nxt := n\<rparr>)"
      by blast
    then show ?thesis by simp
  next
    case False
    with frame assms(2) show ?thesis by simp
  qed
qed

lemma close_effect:
  assumes reg: "registered g xs" and c: "sessions g r = Some c"
    and listener: "tcp c \<noteq> 0 \<and> conn_pcb c = NULL \<and> server_pcb c \<noteq> NULL
                   \<longrightarrow> tcp_close_result g (server_pcb c) = ERR_OK"
    and master: "related_master_state c \<noteq> NULL \<longrightarrow> sessions g (related_master_state c) \<noteq> None"
  shows "\<exists>g'. close_of c r g = Some g'
     \<and> registered g' (remove1 r xs)
     \<and> sessions g' r = None
     \<and> (\<forall>p. p \<noteq> r \<and> p \<notin> set xs \<longrightarrow> sessions g' p = sessions g p)
     \<and> (\<forall>p d. p \<noteq> r \<and> p \<in> set xs \<and> sessions g p = Some d
           \<longrightarrow> (\<exists>n. sessions g' p = Some ((clear_master r d)\<lparr>nxt := n\<rparr>)))
     \<and> calls g' = calls g @ close_calls g {} r
     \<and> sys_now g' = sys_now g \<and> tcp_close_result g' = tcp_close_result g"
proof -
  have d: "distinct xs"
    using reg unfolding registered_def by (rule list_path_distinct)
  then have notin: "r \<notin> set (remove1 r xs)"
    by simp
  show ?thesis
  proof (cases "tcp c \<noteq> 0")
    case True
    from lwiperf_list_remove_effect [OF reg, of r]
    obtain g1 where g1: "lwiperf_list_remove r g = Some g1" "registered g1 (remove1 r xs)"
      "calls g1 = calls g" "sys_now g1 = sys_now g" "tcp_close_result g1 = tcp_close_result g"
      and frame: "\<forall>p. p \<notin> set xs \<longrightarrow> sessions g1 p = sessions g p"
      and content: "\<forall>p c. p \<in> set xs \<and> sessions g p = Some c
           \<longrightarrow> (\<exists>n. sessions g1 p = Some ((clear_master r c)\<lparr>nxt := n\<rparr>))"
      by blast
    from removed_session [OF reg c g1(1)] obtain c1
      where c1: "sessions g1 r = Some c1" "same_handles c c1"
      by blast
    define g2 where "g2 = (case lwip_tcp_conn_report (sys_now g1) (Some c1) LWIPERF_TCP_ABORTED_LOCAL of
                   None \<Rightarrow> g1
                 | Some rc \<Rightarrow> add_call (ReportFn rc) g1)"
    have g2: "sessions g2 = sessions g1" "lwiperf_all_connections g2 = lwiperf_all_connections g1"
      "sys_now g2 = sys_now g1" "tcp_close_result g2 = tcp_close_result g1"
      by (simp_all add: g2_def split: option.splits)
    define g3 where "g3 =
       (if conn_pcb c1 \<noteq> NULL
        then (if tcp_close_result g2 (conn_pcb c1) \<noteq> ERR_OK
              then add_call (TcpAbort (conn_pcb c1))
                     (add_call (TcpClose (conn_pcb c1))
                        (add_call (TcpCallbacksCleared (conn_pcb c1)) g2))
              else add_call (TcpClose (conn_pcb c1))
                     (add_call (TcpCallbacksCleared (conn_pcb c1)) g2))
        else if server_pcb c1 \<noteq> NULL then add_call (TcpClose (server_pcb c1)) g2
        else g2)"
    have g3: "sessions g3 = sessions g1" "lwiperf_all_connections g3 = lwiperf_all_connections g1"
      "sys_now g3 = sys_now g1" "tcp_close_result g3 = tcp_close_result g1"
      by (simp_all add: g3_def g2)
    define g' where "g' = add_call (MemFree r) (g3\<lparr>sessions := (sessions g3)(r := None)\<rparr>)"
    have ok: "tcp_close_result g2 (server_pcb c1) = ERR_OK"
      if "conn_pcb c1 = NULL" "server_pcb c1 \<noteq> NULL"
      using that listener True c1(2) g1(5) g2(4) by (simp add: same_handles_def)
    have run: "close_of c r g = Some g'"
      using True g1(1) c1(1) ok
      by (auto simp: close_of_def lwiperf_tcp_close_def g'_def g3_def g2_def Let_def)
    have reg': "registered g' (remove1 r xs)"
      unfolding g'_def using g1(2) notin g3(1,2)
      by (simp add: registered_def) (subst list_path_cong [where m = "sessions g1"]; auto)
    have "sessions g' r = None"
      by (simp add: g'_def)
    moreover have "\<forall>p. p \<noteq> r \<and> p \<notin> set xs \<longrightarrow> sessions g' p = sessions g p"
      using frame by (simp add: g'_def g3)
    moreover have "\<forall>p d. p \<noteq> r \<and> p \<in> set xs \<and> sessions g p = Some d
           \<longrightarrow> (\<exists>n. sessions g' p = Some ((clear_master r d)\<lparr>nxt := n\<rparr>))"
      using content by (simp add: g'_def g3)
    moreover have "calls g' = calls g @ close_calls g {} r"
      using c True c1(2) tcp_report_same [OF c1(2)]
      by (simp add: g'_def g3_def g2_def close_calls_def g1 same_handles_def
          split: option.splits)
    moreover have "sys_now g' = sys_now g" "tcp_close_result g' = tcp_close_result g"
      by (simp_all add: g'_def g3 g1)
    ultimately show ?thesis
      using run reg' by blast
  next
    case False
    define ms where "ms = (if report_fn c \<noteq> NULL \<and> pcb c = NULL \<and> related_master_state c \<noteq> NULL
                  then sessions g (related_master_state c) else None)"
    define g0 where "g0 = (case lwip_udp_conn_report (sys_now g) (Some c) ms LWIPERF_UDP_ABORTED_LOCAL of
                   None \<Rightarrow> g
                 | Some rc \<Rightarrow> add_call (ReportFn rc) g)"
    have g0: "sessions g0 = sessions g" "lwiperf_all_connections g0 = lwiperf_all_connections g"
      "sys_now g0 = sys_now g" "tcp_close_result g0 = tcp_close_result g"
      by (simp_all add: g0_def split: option.splits)
    have reg0: "registered g0 xs"
      using reg by (simp add: registered_def g0)
    from lwiperf_list_remove_effect [OF reg0, of r]
    obtain g1 where g1: "lwiperf_list_remove r g0 = Some g1" "registered g1 (remove1 r xs)"
      "calls g1 = calls g0" "sys_now g1 = sys_now g0" "tcp_close_result g1 = tcp_close_result g0"
      and frame: "\<forall>p. p \<notin> set xs \<longrightarrow> sessions g1 p = sessions g0 p"
      and content: "\<forall>p c. p \<in> set xs \<and> sessions g0 p = Some c
           \<longrightarrow> (\<exists>n. sessions g1 p = Some ((clear_master r c)\<lparr>nxt := n\<rparr>))"
      by blast
    have c0: "sessions g0 r = Some c"
      using c by (simp add: g0)
    from removed_session [OF reg0 c0 g1(1)] obtain c1
      where c1: "sessions g1 r = Some c1" "same_handles c c1"
      by blast
    define g3 where "g3 = (if reported c1 \<noteq> NULL then add_call (PbufFreeReported (reported c1)) g1 else g1)"
    define g4 where "g4 = (if pcb c1 \<noteq> NULL then add_call (UdpRemove (pcb c1)) g3 else g3)"
    have g4: "sessions g4 = sessions g1" "lwiperf_all_connections g4 = lwiperf_all_connections g1"
      "sys_now g4 = sys_now g1" "tcp_close_result g4 = tcp_close_result g1"
      by (simp_all add: g4_def g3_def)
    define g' where "g' = add_call (MemFree r) (g4\<lparr>sessions := (sessions g4)(r := None)\<rparr>)"
    have run: "close_of c r g = Some g'"
    proof -
      have "(if report_fn c \<noteq> NULL \<and> pcb c = NULL \<and> related_master_state c \<noteq> NULL
                  then (case sessions g (related_master_state c) of
                          None \<Rightarrow> None
                        | Some s \<Rightarrow> Some (Some s))
                  else Some None) = Some ms"
        using master by (auto simp: ms_def)
      then show ?thesis
        using False c g1(1) c1(1)
        by (simp add: close_of_def lwiperf_udp_close_def g'_def g4_def g3_def g0_def Let_def)
    qed
    have reg': "registered g' (remove1 r xs)"
      unfolding g'_def using g1(2) notin g4(1,2)
      by (simp add: registered_def) (subst list_path_cong [where m = "sessions g1"]; auto)
    have "sessions g' r = None"
      by (simp add: g'_def)
    moreover have "\<forall>p. p \<noteq> r \<and> p \<notin> set xs \<longrightarrow> sessions g' p = sessions g p"
      using frame by (simp add: g'_def g4 g0)
    moreover have "\<forall>p d. p \<noteq> r \<and> p \<in> set xs \<and> sessions g p = Some d
           \<longrightarrow> (\<exists>n. sessions g' p = Some ((clear_master r d)\<lparr>nxt := n\<rparr>))"
      using content by (simp add: g'_def g4 g0)
    moreover have "calls g' = calls g @ close_calls g {} r"
    proof -
      have "lwip_udp_conn_report (sys_now g) (Some c) ms LWIPERF_UDP_ABORTED_LOCAL
            = lwip_udp_conn_report (sys_now g) (Some c) (master_of g {} c)
                LWIPERF_UDP_ABORTED_LOCAL"
        unfolding ms_def master_of_empty by (rule udp_report_master)
      then show ?thesis
        using c False c1(2)
        by (simp add: g'_def g4_def g3_def g0_def close_calls_def g1 same_handles_def
            split: option.splits)
    qed
    moreover have "sys_now g' = sys_now g" "tcp_close_result g' = tcp_close_result g"
      by (simp_all add: g'_def g4 g1 g0)
    ultimately show ?thesis
      using run reg' by blast
  qed
qed

section \<open>Aborting a session\<close>

lemma list_path_start: "list_path m p xs NULL \<Longrightarrow> p = hd (xs @ [NULL])"
  by (cases xs) simp_all

lemma relink_fields [simp]:
  "lwiperf_all_connections (relink l n g) = lwiperf_all_connections g"
  "calls (relink l n g) = calls g"
  "sys_now (relink l n g) = sys_now g"
  "tcp_close_result (relink l n g) = tcp_close_result g"
  by (simp_all add: relink_def)

lemma sessions_relink:
  "sessions (relink l n g) p
   = (if l \<noteq> NULL \<and> p = l then map_option (\<lambda>c. c\<lparr>nxt := n\<rparr>) (sessions g p) else sessions g p)"
  by (auto simp: relink_def set_nxt_def split: option.splits)

lemma relink_step:
  assumes "sessions g l \<noteq> None \<or> l = NULL"
  shows "(if l \<noteq> NULL
          then (case sessions g l of
                  None \<Rightarrow> None
                | Some lc \<Rightarrow> Some (g\<lparr>sessions := (sessions g)(l \<mapsto> lc\<lparr>nxt := n\<rparr>)\<rparr>))
          else Some g) = Some (relink l n g)"
  using assms by (auto simp: relink_def set_nxt_def)

lemma registered_relink:
  assumes "registered g (ks @ r # rs)" and "sessions g r = Some c"
  shows "registered (relink (last (NULL # ks)) (nxt c) g) (if ks = [] then r # rs else ks @ rs)"
proof (cases ks rule: rev_cases)
  case Nil
  with assms show ?thesis by (simp add: relink_def)
next
  case (snoc ks0 l)
  from assms(1) have "NULL \<notin> set (ks @ r # rs)"
    unfolding registered_def by (rule list_path_not_NULL)
  with snoc have l: "l \<noteq> NULL" by auto
  from assms(1) snoc
  have "list_path (sessions g) (lwiperf_all_connections g) (ks0 @ l # r # rs) NULL"
    by (simp add: registered_def)
  from list_path_unlink [OF this assms(2)] show ?thesis
    using snoc l by (simp add: registered_def relink_def)
qed

lemma clear_master_nxt [simp]:
  "(clear_master r (d\<lparr>nxt := n\<rparr>))\<lparr>nxt := n'\<rparr> = (clear_master r d)\<lparr>nxt := n'\<rparr>"
  by (simp add: clear_master_def)

lemma matches_stable:
  assumes "sessions g p = Some d" and "sessions g' p = Some ((clear_master r d)\<lparr>nxt := n\<rparr>)"
    and "related_master_state d \<noteq> NULL \<longrightarrow> deallocated_master_state_address d = NULL"
    and "r \<noteq> NULL"
  shows "session_matches h g' p = session_matches h g p"
  using assms by (auto simp: session_matches_def clear_master_def)

text \<open>One step of the loop at a session that matches the handle.\<close>

lemma abort_step:
  assumes wf: "well_formed g (ks @ r # rs)" and c: "sessions g r = Some c"
  shows "\<exists>g'. close_of c r (relink (last (NULL # ks)) (nxt c) g) = Some g'
     \<and> well_formed g' (ks @ rs)
     \<and> sessions g' r = None
     \<and> (\<forall>p. p \<notin> set (ks @ r # rs) \<longrightarrow> sessions g' p = sessions g p)
     \<and> (\<forall>p\<in>set (ks @ rs). session_matches h g' p = session_matches h g p)
     \<and> (\<forall>E. \<forall>p\<in>set (ks @ rs). close_calls g' E p = close_calls g (insert r E) p)
     \<and> calls g' = calls g @ close_calls g {} r"
proof -
  let ?l = "last (NULL # ks)"
  let ?g1 = "relink ?l (nxt c) g"
  let ?L = "if ks = [] then r # rs else ks @ rs"
  from wf have reg: "registered g (ks @ r # rs)"
    and ok: "\<And>p. p \<in> set (ks @ r # rs) \<Longrightarrow> \<exists>d. sessions g p = Some d \<and> session_ok g d"
    by (auto simp: well_formed_def split: option.splits)
  from reg have d: "distinct (ks @ r # rs)" and nn: "NULL \<notin> set (ks @ r # rs)"
    unfolding registered_def by (rule list_path_distinct, rule list_path_not_NULL)
  have r: "r \<noteq> NULL" "r \<notin> set ks" "r \<notin> set rs"
    using d nn by auto
  have l: "?l \<noteq> r"
    using r by (cases ks rule: rev_cases) auto
  have lin: "?l = NULL \<or> ?l \<in> set ks"
    by (cases ks rule: rev_cases) auto
  have reg1: "registered ?g1 ?L"
    using reg c by (rule registered_relink)
  have c1: "sessions ?g1 r = Some c"
    using c l by (simp add: sessions_relink)
  have same: "\<And>p e. sessions g p = Some e \<Longrightarrow> \<exists>n. sessions ?g1 p = Some (e\<lparr>nxt := n\<rparr>)"
    by (auto simp: sessions_relink nxt_self)
  have off: "\<And>p. p \<notin> set ks \<Longrightarrow> sessions ?g1 p = sessions g p"
    using lin by (auto simp: sessions_relink)
  have alloc: "\<And>p. sessions g p \<noteq> None \<Longrightarrow> sessions ?g1 p \<noteq> None"
    by (auto simp: sessions_relink)
  from ok [of r] c have okc: "session_ok g c"
    by simp
  have listener: "tcp c \<noteq> 0 \<and> conn_pcb c = NULL \<and> server_pcb c \<noteq> NULL
                   \<longrightarrow> tcp_close_result ?g1 (server_pcb c) = ERR_OK"
    using okc by (simp add: session_ok_def)
  have master: "related_master_state c \<noteq> NULL \<longrightarrow> sessions ?g1 (related_master_state c) \<noteq> None"
    using okc alloc [of "related_master_state c"]
    by (auto simp: session_ok_def split: option.splits)
  from close_effect [OF reg1 c1 listener master]
  obtain g' where run: "close_of c r ?g1 = Some g'"
    and reg': "registered g' (remove1 r ?L)"
    and gone: "sessions g' r = None"
    and frame: "\<forall>p. p \<noteq> r \<and> p \<notin> set ?L \<longrightarrow> sessions g' p = sessions ?g1 p"
    and content: "\<forall>p e. p \<noteq> r \<and> p \<in> set ?L \<and> sessions ?g1 p = Some e
           \<longrightarrow> (\<exists>n. sessions g' p = Some ((clear_master r e)\<lparr>nxt := n\<rparr>))"
    and fr: "calls g' = calls ?g1 @ close_calls ?g1 {} r"
    and now: "sys_now g' = sys_now ?g1"
    and env: "tcp_close_result g' = tcp_close_result ?g1"
    by blast
  have rem: "remove1 r ?L = ks @ rs"
    using r by (simp add: remove1_append remove1_idem)
  have kept: "\<exists>n. sessions g' p = Some ((clear_master r e)\<lparr>nxt := n\<rparr>)"
    if "p \<in> set (ks @ rs)" "sessions g p = Some e" for p e
  proof -
    from same [OF that(2)] obtain n1 where "sessions ?g1 p = Some (e\<lparr>nxt := n1\<rparr>)" ..
    moreover have "p \<noteq> r" "p \<in> set ?L"
      using that(1) r by auto
    ultimately obtain n where "sessions g' p = Some ((clear_master r (e\<lparr>nxt := n1\<rparr>))\<lparr>nxt := n\<rparr>)"
      using content by blast
    then have "sessions g' p = Some ((clear_master r e)\<lparr>nxt := n\<rparr>)"
      by simp
    then show ?thesis ..
  qed
  have outside: "sessions g' p = sessions g p" if "p \<notin> set (ks @ r # rs)" for p
  proof -
    have "p \<noteq> r" "p \<notin> set ?L" "p \<notin> set ks"
      using that by auto
    with frame off show ?thesis by simp
  qed
  have alloc': "sessions g' p \<noteq> None" if "sessions g p \<noteq> None" "p \<noteq> r" for p
  proof (cases "p \<in> set (ks @ rs)")
    case True
    from that(1) obtain e where "sessions g p = Some e"
      by auto
    from kept [OF True this] show ?thesis
      by auto
  next
    case False
    with that outside show ?thesis by simp
  qed
  have kinds: "map_option tcp (sessions g' q) = map_option tcp (sessions g q)"
    if "q \<noteq> r" for q
  proof (cases "q \<in> set (ks @ rs)")
    case True
    with ok [of q] obtain e where e: "sessions g q = Some e"
      by auto
    from kept [OF True e] obtain n where "sessions g' q = Some ((clear_master r e)\<lparr>nxt := n\<rparr>)" ..
    with e show ?thesis
      by (simp add: clear_master_def)
  next
    case False
    with that outside [of q] show ?thesis by simp
  qed
  have ok': "case sessions g' p of None \<Rightarrow> False | Some e \<Rightarrow> session_ok g' e"
    if p: "p \<in> set (ks @ rs)" for p
  proof -
    from ok [of p] p obtain e where e: "sessions g p = Some e" "session_ok g e"
      by auto
    from kept [OF p e(1)] obtain n where n: "sessions g' p = Some ((clear_master r e)\<lparr>nxt := n\<rparr>)" ..
    have "session_ok g' ((clear_master r e)\<lparr>nxt := n\<rparr>)"
    proof (cases "related_master_state e = r \<or> related_master_state e = NULL")
      case True
      with e(2) env r(1) show ?thesis
        by (auto simp: session_ok_def clear_master_def)
    next
      case False
      with e(2) obtain s where s: "sessions g (related_master_state e) = Some s"
        "tcp e = 0 \<longrightarrow> tcp s = 0" "deallocated_master_state_address e = NULL"
        by (auto simp: session_ok_def split: option.splits)
      from kinds [of "related_master_state e"] False s(1)
      obtain s' where s': "sessions g' (related_master_state e) = Some s'" "tcp s' = tcp s"
        by (cases "sessions g' (related_master_state e)") auto
      from e(2) have "tcp e \<noteq> 0 \<and> conn_pcb e = NULL \<and> server_pcb e \<noteq> NULL
                       \<longrightarrow> tcp_close_result g (server_pcb e) = ERR_OK"
        by (simp add: session_ok_def)
      with False s s' env show ?thesis
        by (simp add: session_ok_def clear_master_def)
    qed
    with n show ?thesis by simp
  qed
  have stable: "session_matches h g' p = session_matches h g p" if p: "p \<in> set (ks @ rs)" for p
  proof -
    from ok [of p] p obtain e where e: "sessions g p = Some e" "session_ok g e"
      by auto
    from kept [OF p e(1)] obtain n where n: "sessions g' p = Some ((clear_master r e)\<lparr>nxt := n\<rparr>)" ..
    from e(2) have "related_master_state e \<noteq> NULL \<longrightarrow> deallocated_master_state_address e = NULL"
      by (auto simp: session_ok_def)
    from matches_stable [OF e(1) n this r(1)] show ?thesis .
  qed
  have sockets: "map_option pcb (sessions g' q) = map_option pcb (sessions g q)"
    if "q \<noteq> r" for q
  proof (cases "q \<in> set (ks @ rs)")
    case True
    with ok [of q] obtain e where e: "sessions g q = Some e"
      by auto
    from kept [OF True e] obtain n where "sessions g' q = Some ((clear_master r e)\<lparr>nxt := n\<rparr>)" ..
    with e show ?thesis
      by (simp add: clear_master_def)
  next
    case False
    with that outside [of q] show ?thesis by simp
  qed
  have shift: "close_calls g' E p = close_calls g (insert r E) p"
    if p: "p \<in> set (ks @ rs)" for E p
  proof -
    from ok [of p] p obtain e where e: "sessions g p = Some e"
      by auto
    from kept [OF p e] obtain n where n: "sessions g' p = Some ((clear_master r e)\<lparr>nxt := n\<rparr>)" ..
    have "map_option pcb (master_of g' E ((clear_master r e)\<lparr>nxt := n\<rparr>))
          = map_option pcb (master_of g (insert r E) e)"
      using sockets [of "related_master_state e"] r(1)
      by (simp add: master_of_def clear_master_def)
    with now env e n show ?thesis
      by (intro close_calls_cong) simp_all
  qed
  have "map_option pcb (master_of ?g1 {} c) = map_option pcb (master_of g {} c)"
    by (simp add: master_of_def sessions_relink option.map_comp comp_def)
  with c c1 have "close_calls ?g1 {} r = close_calls g {} r"
    by (intro close_calls_cong) simp_all
  with fr have calls': "calls g' = calls g @ close_calls g {} r"
    by simp
  have "well_formed g' (ks @ rs)"
    using reg' ok' unfolding rem well_formed_def by blast
  with run gone outside stable shift calls' show ?thesis
    by simp
qed

text \<open>A traversal that meets no matching session changes nothing.\<close>

lemma abort_loop_no_match:
  assumes "list_path (sessions g) i rs NULL" and "\<forall>p\<in>set rs. \<not> session_matches h g p"
  shows "abort_loop h last' i g = Some g"
  using assms
proof (induction rs arbitrary: i last')
  case Nil
  then show ?case by (simp add: abort_loop.simps)
next
  case (Cons r rs)
  from Cons.prems(1) obtain c where c: "i = r" "r \<noteq> NULL" "sessions g r = Some c"
    "list_path (sessions g) (nxt c) rs NULL"
    by (auto split: option.splits)
  from Cons.prems(2) c(3)
  have no: "\<not> (r = h \<or> related_master_state c = h \<or> deallocated_master_state_address c = h)"
    by (simp add: session_matches_def)
  have "abort_loop h last' r g = abort_loop h r (nxt c) g"
    using c(2,3) no by (subst abort_loop.simps) simp
  also have "\<dots> = Some g"
    using c(4) Cons.prems(2) by (intro Cons.IH) simp_all
  finally show ?case using c(1) by simp
qed

text \<open>
  After the close of \<^verbatim>\<open>r\<close>, the calls of the closes still to come are those read off the
  state before it, with \<^verbatim>\<open>r\<close> among the sessions closed earlier.
\<close>

lemma abort_calls_shift:
  assumes "\<forall>p\<in>set ps. session_matches h g' p = session_matches h g p"
    and "\<forall>E. \<forall>p\<in>set ps. close_calls g' E p = close_calls g (insert r E) p"
  shows "abort_calls h g' E ps = abort_calls h g (insert r E) ps"
  using assms by (induction ps arbitrary: E) (auto simp: insert_commute)

lemma freed_abort_calls:
  assumes "\<forall>p\<in>set ps. sessions g p \<noteq> None"
  shows "freed (abort_calls h g E ps) = filter (session_matches h g) ps"
  using assms by (induction ps arbitrary: E) (simp_all add: freed_append freed_close_calls)

lemma abort_loop_effect:
  assumes "well_formed g (ks @ rs)" and "\<forall>k\<in>set ks. \<not> session_matches h g k"
  shows "\<exists>g'. abort_loop h (last (NULL # ks)) (hd (rs @ [NULL])) g = Some g'
     \<and> well_formed g' (ks @ filter (\<lambda>p. \<not> session_matches h g p) rs)
     \<and> (\<forall>p\<in>set (ks @ rs). \<not> session_matches h g' p)
     \<and> (\<forall>p\<in>set (filter (session_matches h g) rs). sessions g' p = None)
     \<and> (\<forall>p. p \<notin> set (ks @ rs) \<longrightarrow> sessions g' p = sessions g p)
     \<and> calls g' = calls g @ abort_calls h g {} rs"
  using assms
proof (induction rs arbitrary: g ks)
  case Nil
  then show ?case by (simp add: abort_loop.simps)
next
  case (Cons r rs)
  from Cons.prems(1) have reg: "registered g (ks @ r # rs)"
    by (simp add: well_formed_def)
  then obtain c where c: "r \<noteq> NULL" "sessions g r = Some c"
    "list_path (sessions g) (nxt c) rs NULL"
    by (auto simp: registered_def list_path_append split: option.splits)
  from c(3) have nx: "nxt c = hd (rs @ [NULL])"
    by (rule list_path_start)
  from reg have d: "distinct (ks @ r # rs)"
    unfolding registered_def by (rule list_path_distinct)
  show ?case
  proof (cases "session_matches h g r")
    case False
    then have no: "\<not> (r = h \<or> related_master_state c = h \<or> deallocated_master_state_address c = h)"
      using c(2) by (simp add: session_matches_def)
    have step: "abort_loop h (last (NULL # ks)) r g = abort_loop h r (nxt c) g"
      using c(1,2) no by (subst abort_loop.simps) simp
    have "well_formed g ((ks @ [r]) @ rs)" "\<forall>k\<in>set (ks @ [r]). \<not> session_matches h g k"
      using Cons.prems False by simp_all
    from Cons.IH [OF this] show ?thesis
      using step nx False by simp
  next
    case True
    then have yes: "r = h \<or> related_master_state c = h \<or> deallocated_master_state_address c = h"
      using c(2) by (simp add: session_matches_def)
    let ?l = "last (NULL # ks)"
    from abort_step [OF Cons.prems(1) c(2), of h]
    obtain g1 where run: "close_of c r (relink ?l (nxt c) g) = Some g1"
      and wf1: "well_formed g1 (ks @ rs)"
      and gone: "sessions g1 r = None"
      and frame: "\<forall>p. p \<notin> set (ks @ r # rs) \<longrightarrow> sessions g1 p = sessions g p"
      and stable: "\<forall>p\<in>set (ks @ rs). session_matches h g1 p = session_matches h g p"
      and shift: "\<forall>E. \<forall>p\<in>set (ks @ rs). close_calls g1 E p = close_calls g (insert r E) p"
      and fr: "calls g1 = calls g @ close_calls g {} r"
      by blast
    have lalloc: "sessions g ?l \<noteq> None \<or> ?l = NULL"
    proof (cases ks rule: rev_cases)
      case Nil
      then show ?thesis by simp
    next
      case (snoc ks0 l)
      with reg have "sessions g l \<noteq> None"
        unfolding registered_def by (intro list_path_allocated [where x = l]) auto
      with snoc show ?thesis by simp
    qed
    have step: "abort_loop h ?l r g = abort_loop h ?l (nxt c) g1"
      using c(1,2) yes run relink_step [OF lalloc, of "nxt c"]
      by (subst abort_loop.simps) (simp add: close_of_def Let_def)
    have "\<forall>k\<in>set ks. \<not> session_matches h g1 k"
      using Cons.prems(2) stable by simp
    from Cons.IH [OF wf1 this]
    obtain g' where loop: "abort_loop h ?l (hd (rs @ [NULL])) g1 = Some g'"
      and wf': "well_formed g' (ks @ filter (\<lambda>p. \<not> session_matches h g1 p) rs)"
      and none: "\<forall>p\<in>set (ks @ rs). \<not> session_matches h g' p"
      and freed': "\<forall>p\<in>set (filter (session_matches h g1) rs). sessions g' p = None"
      and frame': "\<forall>p. p \<notin> set (ks @ rs) \<longrightarrow> sessions g' p = sessions g1 p"
      and fr': "calls g' = calls g1 @ abort_calls h g1 {} rs"
      by blast
    have "abort_calls h g1 {} rs = abort_calls h g (insert r {}) rs"
      using stable shift by (intro abort_calls_shift) simp_all
    with fr fr' True have calls': "calls g' = calls g @ abort_calls h g {} (r # rs)"
      by simp
    have f1: "filter (\<lambda>p. \<not> session_matches h g1 p) rs = filter (\<lambda>p. \<not> session_matches h g p) rs"
      and f2: "filter (session_matches h g1) rs = filter (session_matches h g) rs"
      using stable by (auto intro: filter_cong)
    have rout: "r \<notin> set (ks @ rs)"
      using d by auto
    then have r': "sessions g' r = None"
      using frame' gone by simp
    then have "\<not> session_matches h g' r"
      by (simp add: session_matches_def)
    moreover have "\<forall>p. p \<notin> set (ks @ r # rs) \<longrightarrow> sessions g' p = sessions g p"
      using frame frame' by simp
    ultimately show ?thesis
      using step loop wf' none freed' calls' r' True nx unfolding f1 f2 by simp
  qed
qed

text \<open>
  Claim C3. On a well-formed list \<^verbatim>\<open>xs\<close> and for every handle \<^verbatim>\<open>h\<close>, \<^verbatim>\<open>lwiperf_abort h\<close> returns
  after one traversal. The calls it makes are the calls of the closes of exactly the
  sessions of \<^verbatim>\<open>xs\<close> that are \<^verbatim>\<open>h\<close>, or whose \<^verbatim>\<open>related_master_state\<close> is \<^verbatim>\<open>h\<close>, or whose
  \<^verbatim>\<open>deallocated_master_state_address\<close> is \<^verbatim>\<open>h\<close>, in list order and with no other call: for
  each of them its report, the close of its connection, listener or socket, the release
  of a held report, and the release of the session. The sessions released are these
  sessions, the list left is \<^verbatim>\<open>xs\<close> without them, and the sessions off the list are
  untouched. A second \<^verbatim>\<open>lwiperf_abort h\<close> returns the state it was given: it makes no call,
  so no close, no release and no report.
\<close>

theorem abort_closes_matching_sessions:
  assumes "well_formed g xs"
  shows "\<exists>g'. lwiperf_abort h g = Some g'
     \<and> calls g' = calls g @ abort_calls h g {} xs
     \<and> registered g' (filter (\<lambda>p. \<not> session_matches h g p) xs)
     \<and> freed (calls g') = freed (calls g) @ filter (session_matches h g) xs
     \<and> (\<forall>p\<in>set xs. session_matches h g p \<longrightarrow> sessions g' p = None)
     \<and> (\<forall>p. p \<notin> set xs \<longrightarrow> sessions g' p = sessions g p)
     \<and> lwiperf_abort h g' = Some g'"
proof -
  from assms have path: "list_path (sessions g) (lwiperf_all_connections g) xs NULL"
    by (simp add: well_formed_def registered_def)
  then have start: "lwiperf_all_connections g = hd (xs @ [NULL])"
    by (rule list_path_start)
  have alloc: "\<forall>p\<in>set xs. sessions g p \<noteq> None"
    using list_path_allocated [OF path] by blast
  from abort_loop_effect [of g "[]" xs h] assms
  obtain g' where run: "abort_loop h NULL (hd (xs @ [NULL])) g = Some g'"
    and wf: "well_formed g' (filter (\<lambda>p. \<not> session_matches h g p) xs)"
    and none: "\<forall>p\<in>set xs. \<not> session_matches h g' p"
    and gone: "\<forall>p\<in>set (filter (session_matches h g) xs). sessions g' p = None"
    and frame: "\<forall>p. p \<notin> set xs \<longrightarrow> sessions g' p = sessions g p"
    and trace: "calls g' = calls g @ abort_calls h g {} xs"
    by auto
  from wf have reg: "registered g' (filter (\<lambda>p. \<not> session_matches h g p) xs)"
    by (simp add: well_formed_def)
  have "abort_loop h NULL (lwiperf_all_connections g') g' = Some g'"
    using reg none unfolding registered_def
    by (intro abort_loop_no_match [where rs = "filter (\<lambda>p. \<not> session_matches h g p) xs"]) auto
  then have "lwiperf_abort h g' = Some g'"
    by (simp add: lwiperf_abort_def)
  moreover have "lwiperf_abort h g = Some g'"
    using run start by (simp add: lwiperf_abort_def)
  moreover have "freed (calls g') = freed (calls g) @ filter (session_matches h g) xs"
    using trace freed_abort_calls [OF alloc, of h "{}"] by (simp add: freed_append)
  ultimately show ?thesis
    using reg trace gone frame by auto
qed

lemma abort_registry_well_formed: "well_formed abort_registry [1, 2, 3, 4, 5]"
  by code_simp

lemma abort_registry_matches:
  "filter (session_matches 2 abort_registry) [1, 2, 3, 4, 5] = [1, 2, 5]"
  "filter (\<lambda>p. \<not> session_matches 2 abort_registry p) [1, 2, 3, 4, 5] = [3, 4]"
  "filter (session_matches 3 abort_registry) [1, 2, 3, 4, 5] = [3, 4]"
  "filter (\<lambda>p. \<not> session_matches 3 abort_registry p) [1, 2, 3, 4, 5] = [1, 2, 5]"
  by code_simp+

lemma abort_registry_calls:
  "abort_calls 2 abort_registry {} [1, 2, 3, 4, 5] =
     [ReportFn \<lparr>rc_arg = 7, rc_report_type = LWIPERF_TCP_ABORTED_LOCAL,
                rc_local = LocalOf 40, rc_remote = ListenerRemote 40,
                rc_bytes_transferred = 0, rc_ms_duration = 100, rc_bandwidth_kbitpsec = 0\<rparr>,
      TcpClose 40, MemFree 1,
      ReportFn \<lparr>rc_arg = 7, rc_report_type = LWIPERF_TCP_ABORTED_LOCAL,
                rc_local = LocalOf 17, rc_remote = RemoteOf 17,
                rc_bytes_transferred = 1000, rc_ms_duration = 100, rc_bandwidth_kbitpsec = 80\<rparr>,
      TcpCallbacksCleared 17, TcpClose 17, TcpAbort 17, MemFree 2,
      ReportFn \<lparr>rc_arg = NULL, rc_report_type = LWIPERF_UDP_ABORTED_LOCAL,
                rc_local = LocalOf 29, rc_remote = Remote (IPv4 0) 0,
                rc_bytes_transferred = 0, rc_ms_duration = 100, rc_bandwidth_kbitpsec = 0\<rparr>,
      PbufFreeReported 31, UdpRemove 29, MemFree 5]"
  "abort_calls 3 abort_registry {} [1, 2, 3, 4, 5] =
     [ReportFn \<lparr>rc_arg = NULL, rc_report_type = LWIPERF_UDP_ABORTED_LOCAL,
                rc_local = LocalOf 23, rc_remote = Remote (IPv4 0) 0,
                rc_bytes_transferred = 0, rc_ms_duration = 100, rc_bandwidth_kbitpsec = 0\<rparr>,
      UdpRemove 23, MemFree 3,
      ReportFn \<lparr>rc_arg = NULL, rc_report_type = LWIPERF_UDP_ABORTED_LOCAL,
                rc_local = NoEndpoint, rc_remote = Remote (IPv4 0) 0,
                rc_bytes_transferred = 0, rc_ms_duration = 100, rc_bandwidth_kbitpsec = 0\<rparr>,
      MemFree 4]"
  by code_simp+

theorem abort_closes_matching_sessions_witness:
  "well_formed abort_registry [1, 2, 3, 4, 5]
   \<and> (\<exists>g'. lwiperf_abort 2 abort_registry = Some g'
        \<and> calls g' =
            [ReportFn \<lparr>rc_arg = 7, rc_report_type = LWIPERF_TCP_ABORTED_LOCAL,
                       rc_local = LocalOf 40, rc_remote = ListenerRemote 40,
                       rc_bytes_transferred = 0, rc_ms_duration = 100,
                       rc_bandwidth_kbitpsec = 0\<rparr>,
             TcpClose 40, MemFree 1,
             ReportFn \<lparr>rc_arg = 7, rc_report_type = LWIPERF_TCP_ABORTED_LOCAL,
                       rc_local = LocalOf 17, rc_remote = RemoteOf 17,
                       rc_bytes_transferred = 1000, rc_ms_duration = 100,
                       rc_bandwidth_kbitpsec = 80\<rparr>,
             TcpCallbacksCleared 17, TcpClose 17, TcpAbort 17, MemFree 2,
             ReportFn \<lparr>rc_arg = NULL, rc_report_type = LWIPERF_UDP_ABORTED_LOCAL,
                       rc_local = LocalOf 29, rc_remote = Remote (IPv4 0) 0,
                       rc_bytes_transferred = 0, rc_ms_duration = 100,
                       rc_bandwidth_kbitpsec = 0\<rparr>,
             PbufFreeReported 31, UdpRemove 29, MemFree 5]
        \<and> registered g' [3, 4]
        \<and> freed (calls g') = [1, 2, 5]
        \<and> sessions g' 1 = None \<and> sessions g' 2 = None \<and> sessions g' 5 = None
        \<and> lwiperf_abort 2 g' = Some g')
   \<and> (\<exists>g'. lwiperf_abort 3 abort_registry = Some g'
        \<and> calls g' =
            [ReportFn \<lparr>rc_arg = NULL, rc_report_type = LWIPERF_UDP_ABORTED_LOCAL,
                       rc_local = LocalOf 23, rc_remote = Remote (IPv4 0) 0,
                       rc_bytes_transferred = 0, rc_ms_duration = 100,
                       rc_bandwidth_kbitpsec = 0\<rparr>,
             UdpRemove 23, MemFree 3,
             ReportFn \<lparr>rc_arg = NULL, rc_report_type = LWIPERF_UDP_ABORTED_LOCAL,
                       rc_local = NoEndpoint, rc_remote = Remote (IPv4 0) 0,
                       rc_bytes_transferred = 0, rc_ms_duration = 100,
                       rc_bandwidth_kbitpsec = 0\<rparr>,
             MemFree 4]
        \<and> registered g' [1, 2, 5]
        \<and> lwiperf_abort 3 g' = Some g')"
proof -
  have wf: "well_formed abort_registry [1, 2, 3, 4, 5]"
    by (rule abort_registry_well_formed)
  have m: "session_matches 2 abort_registry 1" "session_matches 2 abort_registry 2"
    "session_matches 2 abort_registry 5"
    by code_simp+
  have c: "calls abort_registry = []"
    by (simp add: abort_registry_def)
  from abort_closes_matching_sessions [OF wf, of 2] m
  have "\<exists>g'. lwiperf_abort 2 abort_registry = Some g'
        \<and> calls g' = abort_calls 2 abort_registry {} [1, 2, 3, 4, 5]
        \<and> registered g' [3, 4]
        \<and> freed (calls g') = [1, 2, 5]
        \<and> sessions g' 1 = None \<and> sessions g' 2 = None \<and> sessions g' 5 = None
        \<and> lwiperf_abort 2 g' = Some g'"
    unfolding abort_registry_matches c by auto
  moreover from abort_closes_matching_sessions [OF wf, of 3]
  have "\<exists>g'. lwiperf_abort 3 abort_registry = Some g'
        \<and> calls g' = abort_calls 3 abort_registry {} [1, 2, 3, 4, 5]
        \<and> registered g' [1, 2, 5]
        \<and> lwiperf_abort 3 g' = Some g'"
    unfolding abort_registry_matches c by auto
  ultimately show ?thesis
    using wf unfolding abort_registry_calls by blast
qed

end
